theory Spec2Isabelle
  imports Complex_Main
begin

chapter \<open>The model\<close>

section \<open>Documents of the store (models/index.js)\<close>

text \<open>
  Every Mongoose schema that the controllers under study read or write is a record.
  An ObjectId is a natural number, a JavaScript Number is an exact rational (rounding of
  IEEE doubles is not modelled), a Date is a count of milliseconds in local time.
  A field that is not \<open>required\<close> in the schema and has no default is an option.
  Fields that none of the modelled controllers reads (names, e-mail, bank details,
  delivery preferences, photo proof, createdAt/updatedAt) are left out.
\<close>

type_synonym oid = nat
type_synonym number = rat
type_synonym date = int

datatype subscriptionStatus = Active | Paused | Cancelled | Suspended
datatype requestType = New | Update | Cancel
datatype requestStatus = ReqPending | Approved | Rejected
datatype billStatus = Unpaid | PartiallyPaid | Paid | Overdue
datatype itemStatus = ItemPending | Delivered | Failed | Skipped
datatype scheduleStatus = SchedPending | InProgress | Completed
datatype delivererPaymentStatus = PayPending | PayPaid
datatype paymentMethod = Cash | Cheque | Online | UPI | Card
datatype activityType =
  NewSubscription | Cancellation | Modification | PauseRequest | PaymentActivity | AddressUpdate

record area =
  area_id :: oid
  area_managers :: "oid list"
  area_publications :: "oid list"

record address =
  addr_id :: oid
  addr_userId :: oid
  addr_areaId :: "oid option"
  addr_isActive :: bool

record publication =
  pub_id :: oid
  pub_price :: number
  pub_isActive :: bool

record subscription =
  sub_id :: oid
  sub_userId :: oid
  sub_publicationId :: oid
  sub_quantity :: number
  sub_startDate :: date
  sub_endDate :: "date option"
  sub_status :: subscriptionStatus
  sub_addressId :: oid
  sub_areaId :: "oid option"

record changeRequest =
  req_id :: oid
  req_userId :: oid
  req_requestType :: requestType
  req_subscriptionId :: "oid option"
  req_publicationId :: "oid option"
  req_newQuantity :: "number option"
  req_newAddressId :: "oid option"
  req_status :: requestStatus
  req_requestDate :: date
  req_effectiveDate :: date
  req_comments :: "string option"
  req_processedBy :: "oid option"
  req_processedDate :: "date option"

record deliveryPersonnel =
  dp_id :: oid
  dp_userId :: oid
  dp_areasAssigned :: "oid list"
  dp_isActive :: bool
  dp_commissionRate :: number

record deliveryRoute =
  route_id :: oid
  route_personnelId :: oid
  route_areaId :: oid
  route_isActive :: bool

record deliverySchedule =
  sched_id :: oid
  sched_personnelId :: oid
  sched_date :: date
  sched_status :: scheduleStatus
  sched_areaId :: "oid option"
  sched_routeId :: "oid option"
  sched_notes :: "string option"

record deliveryItem =
  item_id :: oid
  item_scheduleId :: oid
  item_subscriptionId :: oid
  item_addressId :: oid
  item_publicationId :: oid
  item_quantity :: number
  item_status :: itemStatus
  item_deliveryNotes :: "string option"
  item_deliveryTime :: "date option"

record bill =
  bill_id :: oid
  bill_userId :: oid
  bill_billDate :: date
  bill_billMonth :: int
  bill_billYear :: int
  bill_totalAmount :: number
  bill_dueDate :: date
  bill_status :: billStatus
  bill_areaId :: "oid option"
  bill_billNumber :: string
  bill_outstandingAmount :: number

record billItem =
  bi_id :: oid
  bi_billId :: oid
  bi_publicationId :: oid
  bi_quantity :: number
  bi_unitPrice :: number
  bi_totalPrice :: number
  bi_from :: date
  bi_to :: date

record payment =
  pay_id :: oid
  pay_billId :: oid
  pay_userId :: oid
  pay_paymentDate :: date
  pay_amount :: number
  pay_paymentMethod :: paymentMethod
  pay_referenceNumber :: "string option"
  pay_receiptNumber :: string

record delivererPayment =
  dpay_id :: oid
  dpay_personnelId :: oid
  dpay_paymentMonth :: int
  dpay_paymentYear :: int
  dpay_amount :: number
  dpay_commissionRate :: number
  dpay_status :: delivererPaymentStatus

record customerActivity =
  act_userId :: oid
  act_activityType :: activityType

text \<open>
  The database: one list per collection, in insertion order (the order in which
  \<open>find\<close> returns documents), the ids of the existing User documents, and the
  supply of fresh ObjectIds.
\<close>

record store =
  users :: "oid list"
  areas :: "area list"
  addresses :: "address list"
  publications :: "publication list"
  subscriptions :: "subscription list"
  requests :: "changeRequest list"
  personnel :: "deliveryPersonnel list"
  routes :: "deliveryRoute list"
  schedules :: "deliverySchedule list"
  deliveryItems :: "deliveryItem list"
  bills :: "bill list"
  billItems :: "billItem list"
  payments :: "payment list"
  delivererPayments :: "delivererPayment list"
  activities :: "customerActivity list"
  nextId :: oid

text \<open>The HTTP status a controller answers with.\<close>

datatype response =
  OK200 | Created201 | BadRequest400 | Forbidden403 | NotFound404 | Internal500

section \<open>JavaScript helpers\<close>

text \<open>\<open>Number.prototype.toString()\<close> of an integer, in decimal.\<close>

fun showNat :: "nat \<Rightarrow> string" where
  "showNat n = (if n < 10 then [''0123456789'' ! n]
                else showNat (n div 10) @ [''0123456789'' ! (n mod 10)])"

declare showNat.simps [simp del]

definition showInt :: "int \<Rightarrow> string" where
  "showInt i = (if i < 0 then CHR ''-'' # showNat (nat (- i)) else showNat (nat i))"

text \<open>\<open>String.prototype.padStart(2, '0')\<close>.\<close>

definition padStart2 :: "string \<Rightarrow> string" where
  "padStart2 str = replicate (2 - length str) CHR ''0'' @ str"

text \<open>
  \<open>new Date(year, monthIndex, day)\<close>, after ECMAScript's MakeDay, MakeDate and TimeClip:
  the month index counts from 0 and is carried into the year (index 12 is January of the
  next year), the day is an offset from the first of that month (day 0 is the last day
  of the month before), a year from 0 to 99 means 1900 + year, and a time value beyond
  8.64e15 ms is an Invalid Date (\<open>None\<close>). The server's zone is taken as UTC.
  \<open>daysFromCivil y m d\<close> counts the days from 1970-01-01 to the proleptic Gregorian
  date y-m-d (m from 1 to 12).
\<close>

definition daysFromCivil :: "int \<Rightarrow> int \<Rightarrow> int \<Rightarrow> int" where
  "daysFromCivil y m d =
     (let y1 = (if m \<le> 2 then y - 1 else y);
          era = y1 div 400;
          yoe = y1 - era * 400;
          doy = (153 * (if m > 2 then m - 3 else m + 9) + 2) div 5 + d - 1;
          doe = yoe * 365 + yoe div 4 - yoe div 100 + doy
      in era * 146097 + doe - 719468)"

definition makeDay :: "int \<Rightarrow> int \<Rightarrow> int \<Rightarrow> int" where
  "makeDay year month dt = daysFromCivil (year + month div 12) (month mod 12 + 1) 1 + dt - 1"

definition msPerDay :: int where
  "msPerDay = 86400000"

definition jsDate :: "int \<Rightarrow> int \<Rightarrow> int \<Rightarrow> date option" where
  "jsDate year month dt =
     (let yr = (if 0 \<le> year \<and> year \<le> 99 then 1900 + year else year);
          tv = makeDay yr month dt * msPerDay
      in if \<bar>tv\<bar> \<le> 8640000000000000 then Some tv else None)"

text \<open>
  Reading a Date back: (\<open>getFullYear()\<close>, \<open>getMonth() + 1\<close>, \<open>getDate()\<close>).
\<close>

definition civilFromDays :: "int \<Rightarrow> int \<times> int \<times> int" where
  "civilFromDays z0 =
     (let z = z0 + 719468;
          era = z div 146097;
          doe = z - era * 146097;
          yoe = (doe - doe div 1460 + doe div 36524 - doe div 146096) div 365;
          doy = doe - (365 * yoe + yoe div 4 - yoe div 100);
          mp = (5 * doy + 2) div 153;
          d = doy - (153 * mp + 2) div 5 + 1;
          m = (if mp < 10 then mp + 3 else mp - 9);
          y = yoe + era * 400
      in (if m \<le> 2 then y + 1 else y, m, d))"

definition civilDate :: "date \<Rightarrow> int \<times> int \<times> int" where
  "civilDate t = civilFromDays (t div msPerDay)"

section \<open>Area authorization\<close>

text \<open>\<open>Area.find({ managers: req.user.id })\<close> mapped to the ids.\<close>

definition managedAreaIds :: "store \<Rightarrow> oid \<Rightarrow> oid list" where
  "managedAreaIds s user = map area_id (filter (\<lambda>a. user \<in> set (area_managers a)) (areas s))"

text \<open>
  \<open>Area.findOne({ _id: areaId, managers: user })\<close>. An \<open>_id\<close> condition whose value is
  undefined (\<open>None\<close>) matches no document.
\<close>

definition findManagedArea :: "store \<Rightarrow> oid option \<Rightarrow> oid \<Rightarrow> area option" where
  "findManagedArea s areaId user =
     find (\<lambda>a. Some (area_id a) = areaId \<and> user \<in> set (area_managers a)) (areas s)"

text \<open>\<open>Subscription.find({ areaId: { $in: areaIds }, status: 'Active' })\<close>.\<close>

definition activeSubscriptionsIn :: "store \<Rightarrow> oid list \<Rightarrow> subscription list" where
  "activeSubscriptionsIn s areaIds =
     filter (\<lambda>sub. (case sub_areaId sub of None \<Rightarrow> False | Some a \<Rightarrow> a \<in> set areaIds)
                    \<and> sub_status sub = Active) (subscriptions s)"

definition findPublication :: "store \<Rightarrow> oid \<Rightarrow> publication option" where
  "findPublication s i = find (\<lambda>p. pub_id p = i) (publications s)"

text \<open>
  The scope of a billing run and of a schedule in the words of the specification: an
  area is the manager's when the manager is on its list of managers; the subscriptions
  of a run are the Active ones in the manager's areas, those of a schedule the Active
  ones of its area.
\<close>

definition managesArea :: "store \<Rightarrow> oid \<Rightarrow> oid option \<Rightarrow> bool" where
  "managesArea s user areaId \<longleftrightarrow>
     list_ex (\<lambda>a. Some (area_id a) = areaId \<and> user \<in> set (area_managers a)) (areas s)"

definition activeInManagedAreas :: "store \<Rightarrow> oid \<Rightarrow> subscription list" where
  "activeInManagedAreas s user =
     filter (\<lambda>sub. sub_status sub = Active \<and> managesArea s user (sub_areaId sub))
       (subscriptions s)"

definition activeInArea :: "store \<Rightarrow> oid \<Rightarrow> subscription list" where
  "activeInArea s aid =
     filter (\<lambda>sub. sub_status sub = Active \<and> sub_areaId sub = Some aid) (subscriptions s)"

section \<open>Payment reconciler: makePayment (customer controller)\<close>

text \<open>
  The \<open>enum\<close> validator of \<open>Payment.paymentMethod\<close>: a string outside the enum makes
  \<open>payment.save()\<close> throw.
\<close>

definition parsePaymentMethod :: "string \<Rightarrow> paymentMethod option" where
  "parsePaymentMethod m =
     (if m = ''Cash'' then Some Cash
      else if m = ''Cheque'' then Some Cheque
      else if m = ''Online'' then Some Online
      else if m = ''UPI'' then Some UPI
      else if m = ''Card'' then Some Card
      else None)"

text \<open>
  \<open>bill.save()\<close> after the two assignments: the fields outstandingAmount and status of
  the document with the bill's \<open>_id\<close> are overwritten.
\<close>

definition applyPayment :: "number \<Rightarrow> bill \<Rightarrow> bill" where
  "applyPayment amount b =
     (let outstanding = max 0 (bill_outstandingAmount b - amount)
      in b\<lparr>bill_outstandingAmount := outstanding,
            bill_status := (if outstanding = 0 then Paid else PartiallyPaid)\<rparr>)"

text \<open>
  makePayment runs without a transaction: each \<open>save()\<close> is written at once. The
  receipt number is \<open>RCP\<close> followed by the clock, under a unique index.
\<close>

definition makePayment ::
  "store \<Rightarrow> oid \<Rightarrow> oid \<Rightarrow> number \<Rightarrow> string \<Rightarrow> string option \<Rightarrow> date \<Rightarrow> response \<times> store"
where
  "makePayment s user billId amount paymentMethod referenceNumber now =
     (case find (\<lambda>b. bill_id b = billId \<and> bill_userId b = user) (bills s) of
        None \<Rightarrow> (NotFound404, s)
      | Some bill \<Rightarrow>
          (case parsePaymentMethod paymentMethod of
             None \<Rightarrow> (Internal500, s)
           | Some m \<Rightarrow>
               let receipt = ''RCP'' @ showInt now in
               if receipt \<in> set (map pay_receiptNumber (payments s)) then (Internal500, s)
               else
                 let p = \<lparr>pay_id = nextId s, pay_billId = billId, pay_userId = user,
                          pay_paymentDate = now, pay_amount = amount, pay_paymentMethod = m,
                          pay_referenceNumber = referenceNumber, pay_receiptNumber = receipt\<rparr>;
                     s1 = s\<lparr>payments := payments s @ [p], nextId := nextId s + 1\<rparr>;
                     s2 = s1\<lparr>bills := map (\<lambda>b. if bill_id b = bill_id bill
                                                 then applyPayment amount b else b) (bills s1)\<rparr>;
                     s3 = s2\<lparr>activities := activities s2 @
                              [\<lparr>act_userId = user, act_activityType = PaymentActivity\<rparr>]\<rparr>
                 in (Created201, s3)))"

definition findBill :: "store \<Rightarrow> oid \<Rightarrow> oid \<Rightarrow> bill option" where
  "findBill s user billId = find (\<lambda>b. bill_id b = billId \<and> bill_userId b = user) (bills s)"

section \<open>Billing generator: generateBills (manager controller)\<close>

text \<open>
  The plain objects that the loop of generateBills builds before anything is written:
  a bill without \<open>_id\<close> that carries its line items in \<open>billItems\<close>.
\<close>

record itemDraft =
  idr_publicationId :: oid
  idr_quantity :: number
  idr_unitPrice :: number
  idr_totalPrice :: number
  idr_from :: "date option"
  idr_to :: "date option"

record billDraft =
  draft_userId :: oid
  draft_billDate :: date
  draft_billMonth :: int
  draft_billYear :: int
  draft_totalAmount :: number
  draft_dueDate :: "date option"
  draft_status :: billStatus
  draft_areaId :: "oid option"
  draft_billNumber :: string
  draft_outstandingAmount :: number
  draft_billItems :: "itemDraft list"

text \<open>
  The key of \<open>billItemsMap\<close> is the string \<open>userId-areaId\<close>; ObjectIds print as 24
  hexadecimal digits, so the string determines the pair.
\<close>

definition subKey :: "subscription \<Rightarrow> oid \<times> oid option" where
  "subKey sub = (sub_userId sub, sub_areaId sub)"

definition draftKey :: "billDraft \<Rightarrow> oid \<times> oid option" where
  "draftKey d = (draft_userId d, draft_areaId d)"

text \<open>
  The object literal \<open>newBill\<close>. \<open>suffix\<close> is what
  \<open>Math.random().toString(36).substr(2, 6).toUpperCase()\<close> returned.
\<close>

definition newBill :: "subscription \<Rightarrow> int \<Rightarrow> int \<Rightarrow> date \<Rightarrow> string \<Rightarrow> billDraft" where
  "newBill sub month year now suffix =
     \<lparr>draft_userId = sub_userId sub, draft_billDate = now, draft_billMonth = month,
      draft_billYear = year, draft_totalAmount = 0, draft_dueDate = jsDate year month 15,
      draft_status = Unpaid, draft_areaId = sub_areaId sub,
      draft_billNumber = ''BILL-'' @ showInt year @ padStart2 (showInt month) @ ''-'' @ suffix,
      draft_outstandingAmount = 0, draft_billItems = []\<rparr>"

definition newItem :: "subscription \<Rightarrow> publication \<Rightarrow> int \<Rightarrow> int \<Rightarrow> itemDraft" where
  "newItem sub pub month year =
     \<lparr>idr_publicationId = pub_id pub, idr_quantity = sub_quantity sub,
      idr_unitPrice = pub_price pub, idr_totalPrice = pub_price pub * sub_quantity sub,
      idr_from = jsDate year (month - 1) 1, idr_to = jsDate year month 0\<rparr>"

definition addToBill :: "number \<Rightarrow> itemDraft \<Rightarrow> billDraft \<Rightarrow> billDraft" where
  "addToBill amount item d =
     d\<lparr>draft_totalAmount := draft_totalAmount d + amount,
       draft_outstandingAmount := draft_outstandingAmount d + amount,
       draft_billItems := draft_billItems d @ [item]\<rparr>"

text \<open>
  One iteration of \<open>for (const subscription of subscriptions)\<close>. The subscription
  comes populated: reading \<open>_id\<close> of a user or \<open>price\<close> of a publication that does
  not exist throws a TypeError (\<open>None\<close>). \<open>billsToCreate\<close> and \<open>billItemsMap\<close>
  hold the same objects, so one list stands for both: the map's entry for a key is the
  draft of the list with that key. \<open>rand k\<close> is the k-th random suffix drawn.
\<close>

definition billStep ::
  "store \<Rightarrow> int \<Rightarrow> int \<Rightarrow> date \<Rightarrow> (nat \<Rightarrow> string) \<Rightarrow> subscription \<Rightarrow> billDraft list
     \<Rightarrow> billDraft list option"
where
  "billStep s month year now rand sub drafts =
     (if sub_userId sub \<notin> set (users s) then None
      else
        let drafts1 = (if find (\<lambda>d. draftKey d = subKey sub) drafts = None
                       then drafts @ [newBill sub month year now (rand (length drafts))]
                       else drafts)
        in case findPublication s (sub_publicationId sub) of
             None \<Rightarrow> None
           | Some pub \<Rightarrow>
               Some (map (\<lambda>d. if draftKey d = subKey sub
                               then addToBill (pub_price pub * sub_quantity sub)
                                      (newItem sub pub month year) d
                               else d) drafts1))"

fun billLoop ::
  "store \<Rightarrow> int \<Rightarrow> int \<Rightarrow> date \<Rightarrow> (nat \<Rightarrow> string) \<Rightarrow> subscription list \<Rightarrow> billDraft list
     \<Rightarrow> billDraft list option"
where
  "billLoop s month year now rand [] drafts = Some drafts"
| "billLoop s month year now rand (sub # subs) drafts =
     (case billStep s month year now rand sub drafts of
        None \<Rightarrow> None
      | Some drafts' \<Rightarrow> billLoop s month year now rand subs drafts')"

text \<open>
  \<open>Bill.create(docs, { session })\<close>: every document gets a fresh \<open>_id\<close>; an Invalid
  Date in a required Date path fails validation and a bill number that is already taken
  violates the unique index (\<open>None\<close>: the call throws).
\<close>

definition billOfDraft :: "oid \<Rightarrow> billDraft \<Rightarrow> bill option" where
  "billOfDraft i d =
     (case draft_dueDate d of
        None \<Rightarrow> None
      | Some due \<Rightarrow>
          Some \<lparr>bill_id = i, bill_userId = draft_userId d, bill_billDate = draft_billDate d,
                bill_billMonth = draft_billMonth d, bill_billYear = draft_billYear d,
                bill_totalAmount = draft_totalAmount d, bill_dueDate = due,
                bill_status = draft_status d, bill_areaId = draft_areaId d,
                bill_billNumber = draft_billNumber d,
                bill_outstandingAmount = draft_outstandingAmount d\<rparr>)"

definition createBills :: "store \<Rightarrow> billDraft list \<Rightarrow> (bill list \<times> store) option" where
  "createBills s drafts =
     (case those (map2 billOfDraft [nextId s ..< nextId s + length drafts] drafts) of
        None \<Rightarrow> None
      | Some created \<Rightarrow>
          if distinct (map bill_billNumber created)
             \<and> list_all (\<lambda>b. bill_billNumber b \<notin> set (map bill_billNumber (bills s))) created
          then Some (created, s\<lparr>bills := bills s @ created,
                                 nextId := nextId s + length drafts\<rparr>)
          else None)"

text \<open>\<open>BillItem.create(allBillItems, { session })\<close>, each item paired with its billId.\<close>

definition billItemOfDraft :: "oid \<Rightarrow> oid \<times> itemDraft \<Rightarrow> billItem option" where
  "billItemOfDraft i bd =
     (case (idr_from (snd bd), idr_to (snd bd)) of
        (Some f, Some t) \<Rightarrow>
          Some \<lparr>bi_id = i, bi_billId = fst bd, bi_publicationId = idr_publicationId (snd bd),
                bi_quantity = idr_quantity (snd bd), bi_unitPrice = idr_unitPrice (snd bd),
                bi_totalPrice = idr_totalPrice (snd bd), bi_from = f, bi_to = t\<rparr>
      | _ \<Rightarrow> None)"

definition createBillItems :: "store \<Rightarrow> (oid \<times> itemDraft) list \<Rightarrow> store option" where
  "createBillItems s items =
     (case those (map2 billItemOfDraft [nextId s ..< nextId s + length items] items) of
        None \<Rightarrow> None
      | Some created \<Rightarrow>
          Some (s\<lparr>billItems := billItems s @ created, nextId := nextId s + length items\<rparr>))"

text \<open>
  The controller. Every write goes through the session of one transaction: \<open>s\<close> is
  the committed database, \<open>s1\<close> and \<open>s2\<close> are what the session sees after its own
  writes, \<open>commitTransaction\<close> makes \<open>s2\<close> the database, and every other exit
  (the answer 200 that leaves the session without committing, or an exception caught
  by \<open>abortTransaction\<close>) leaves \<open>s\<close>.
\<close>

definition generateBills ::
  "store \<Rightarrow> oid \<Rightarrow> int \<Rightarrow> int \<Rightarrow> date \<Rightarrow> (nat \<Rightarrow> string) \<Rightarrow> response \<times> store"
where
  "generateBills s user month year now rand =
     (let areaIds = managedAreaIds s user;
          subs = activeSubscriptionsIn s areaIds
      in case billLoop s month year now rand subs [] of
           None \<Rightarrow> (Internal500, s)
         | Some billsToCreate \<Rightarrow>
             if billsToCreate = [] then (OK200, s)
             else
               (case createBills s billsToCreate of
                  None \<Rightarrow> (Internal500, s)
                | Some (createdBills, s1) \<Rightarrow>
                    let allBillItems =
                          concat (map2 (\<lambda>createdBill originalBill.
                                     map (Pair (bill_id createdBill)) (draft_billItems originalBill))
                                   createdBills billsToCreate)
                    in (case createBillItems s1 allBillItems of
                          None \<Rightarrow> (Internal500, s)
                        | Some s2 \<Rightarrow> (Created201, s2))))"

text \<open>
  Vocabulary for the properties of a billing run: the subscriptions it bills, the
  documents it added, the group key of a bill, and what it means for a stored line item
  to be the line of a subscription.
\<close>

definition billedSubscriptions :: "store \<Rightarrow> oid \<Rightarrow> subscription list" where
  "billedSubscriptions s user = activeSubscriptionsIn s (managedAreaIds s user)"

definition newBills :: "store \<Rightarrow> store \<Rightarrow> bill list" where
  "newBills s s' = drop (length (bills s)) (bills s')"

definition newBillItems :: "store \<Rightarrow> store \<Rightarrow> billItem list" where
  "newBillItems s s' = drop (length (billItems s)) (billItems s')"

definition billKey :: "bill \<Rightarrow> oid \<times> oid option" where
  "billKey b = (bill_userId b, bill_areaId b)"

definition itemsOfBill :: "billItem list \<Rightarrow> bill \<Rightarrow> billItem list" where
  "itemsOfBill items b = filter (\<lambda>i. bi_billId i = bill_id b) items"

definition itemMatches :: "store \<Rightarrow> billItem \<Rightarrow> subscription \<Rightarrow> bool" where
  "itemMatches s i sub \<longleftrightarrow>
     bi_publicationId i = sub_publicationId sub
     \<and> bi_quantity i = sub_quantity sub
     \<and> map_option pub_price (findPublication s (sub_publicationId sub)) = Some (bi_unitPrice i)
     \<and> bi_totalPrice i = bi_quantity i * bi_unitPrice i"

text \<open>The invariant of a Bill document, and the billing input that keeps it.\<close>

definition billInvariant :: "bill \<Rightarrow> bool" where
  "billInvariant b \<longleftrightarrow>
     0 \<le> bill_outstandingAmount b \<and> bill_outstandingAmount b \<le> bill_totalAmount b"

definition nonNegativeLine :: "store \<Rightarrow> subscription \<Rightarrow> bool" where
  "nonNegativeLine s sub \<longleftrightarrow>
     0 \<le> sub_quantity sub
     \<and> (case findPublication s (sub_publicationId sub) of
          None \<Rightarrow> True
        | Some pub \<Rightarrow> 0 \<le> pub_price pub)"

definition nonNegativeLines :: "store \<Rightarrow> oid \<Rightarrow> bool" where
  "nonNegativeLines s user = list_all (nonNegativeLine s) (billedSubscriptions s user)"

text \<open>
  Auxiliary notions of the loop invariant: the line items that the drafts hold for a key,
  the line item a subscription contributes, and a draft whose amounts agree with its items.
\<close>

definition draftItems :: "oid \<times> oid option \<Rightarrow> billDraft list \<Rightarrow> itemDraft list" where
  "draftItems k ds =
     (case find (\<lambda>d. draftKey d = k) ds of None \<Rightarrow> [] | Some d \<Rightarrow> draft_billItems d)"

definition itemFor :: "store \<Rightarrow> int \<Rightarrow> int \<Rightarrow> subscription \<Rightarrow> itemDraft list" where
  "itemFor s month year sub =
     (case findPublication s (sub_publicationId sub) of
        None \<Rightarrow> []
      | Some pub \<Rightarrow> [newItem sub pub month year])"

definition draftOK :: "billDraft \<Rightarrow> bool" where
  "draftOK d \<longleftrightarrow>
     draft_totalAmount d = sum_list (map idr_totalPrice (draft_billItems d))
     \<and> draft_outstandingAmount d = draft_totalAmount d"

section \<open>Subscription change requests (customer and manager controllers)\<close>

definition findRequest :: "store \<Rightarrow> oid \<Rightarrow> changeRequest option" where
  "findRequest s i = find (\<lambda>r. req_id r = i) (requests s)"

definition findSubscription :: "store \<Rightarrow> oid \<Rightarrow> subscription option" where
  "findSubscription s i = find (\<lambda>x. sub_id x = i) (subscriptions s)"

definition findAddress :: "store \<Rightarrow> oid \<Rightarrow> address option" where
  "findAddress s i = find (\<lambda>a. addr_id a = i) (addresses s)"

subsection \<open>createSubscription\<close>

text \<open>
  The request body. \<open>publicationId\<close> and \<open>addressId\<close> are \<open>None\<close> when
  \<open>ObjectId.isValid\<close> rejects them; \<open>placement\<close> is
  \<open>deliveryPreferences.placement\<close>, \<open>None\<close> when either is missing.
\<close>

record subscriptionBody =
  body_publicationId :: "oid option"
  body_addressId :: "oid option"
  body_quantity :: number
  body_placement :: "string option"

text \<open>\<open>Number.isInteger\<close> on a rational.\<close>

definition isInteger :: "number \<Rightarrow> bool" where
  "isInteger q \<longleftrightarrow> q = of_int \<lfloor>q\<rfloor>"

text \<open>
  createSubscription uses no transaction: the subscription, the change request and the
  activity are saved one after the other. The subscription is created with
  \<open>status: 'Active'\<close> and \<open>startDate: new Date()\<close>; the request is \<open>New\<close>,
  \<open>Pending\<close>, refers to the subscription and takes effect seven days later.
\<close>

definition createSubscription ::
  "store \<Rightarrow> oid \<Rightarrow> subscriptionBody \<Rightarrow> date \<Rightarrow> response \<times> store"
where
  "createSubscription s user body now =
     (case (body_publicationId body, body_addressId body) of
        (None, _) \<Rightarrow> (BadRequest400, s)
      | (Some _, None) \<Rightarrow> (BadRequest400, s)
      | (Some publicationId, Some addressId) \<Rightarrow>
          if \<not> isInteger (body_quantity body) \<or> body_quantity body \<le> 0 then (BadRequest400, s)
          else if body_placement body = None \<or> body_placement body = Some [] then (BadRequest400, s)
          else
            (case find (\<lambda>p. pub_id p = publicationId \<and> pub_isActive p) (publications s) of
               None \<Rightarrow> (NotFound404, s)
             | Some publication \<Rightarrow>
                 (case find (\<lambda>a. addr_id a = addressId \<and> addr_userId a = user \<and> addr_isActive a)
                         (addresses s) of
                    None \<Rightarrow> (NotFound404, s)
                  | Some address \<Rightarrow>
                      let subscription =
                            \<lparr>sub_id = nextId s, sub_userId = user, sub_publicationId = publicationId,
                             sub_quantity = body_quantity body, sub_startDate = now,
                             sub_endDate = None, sub_status = Active,
                             sub_addressId = addr_id address, sub_areaId = addr_areaId address\<rparr>;
                          s1 = s\<lparr>subscriptions := subscriptions s @ [subscription],
                                 nextId := nextId s + 1\<rparr>;
                          subscriptionRequest =
                            \<lparr>req_id = nextId s1, req_userId = user, req_requestType = New,
                             req_subscriptionId = Some (sub_id subscription),
                             req_publicationId = Some publicationId,
                             req_newQuantity = Some (body_quantity body),
                             req_newAddressId = Some (addr_id address), req_status = ReqPending,
                             req_requestDate = now,
                             req_effectiveDate = now + 7 * 24 * 60 * 60 * 1000,
                             req_comments = None, req_processedBy = None,
                             req_processedDate = None\<rparr>;
                          s2 = s1\<lparr>requests := requests s1 @ [subscriptionRequest],
                                  nextId := nextId s1 + 1\<rparr>;
                          s3 = s2\<lparr>activities := activities s2 @
                                  [\<lparr>act_userId = user, act_activityType = NewSubscription\<rparr>]\<rparr>
                      in (Created201, s3))))"

subsection \<open>handleSubscriptionRequest\<close>

text \<open>The \<open>enum\<close> validator of \<open>SubscriptionChangeRequest.status\<close>.\<close>

definition parseRequestStatus :: "string \<Rightarrow> requestStatus option" where
  "parseRequestStatus st =
     (if st = ''Pending'' then Some ReqPending
      else if st = ''Approved'' then Some Approved
      else if st = ''Rejected'' then Some Rejected
      else None)"

text \<open>
  \<open>populate\<close>: a reference becomes the document it names, or null when the reference
  is unset or names no document.
\<close>

definition populatedSubscription :: "store \<Rightarrow> changeRequest \<Rightarrow> subscription option" where
  "populatedSubscription s request =
     (case req_subscriptionId request of None \<Rightarrow> None | Some i \<Rightarrow> findSubscription s i)"

definition populatedPublication :: "store \<Rightarrow> changeRequest \<Rightarrow> publication option" where
  "populatedPublication s request =
     (case req_publicationId request of None \<Rightarrow> None | Some i \<Rightarrow> findPublication s i)"

definition populatedAddress :: "store \<Rightarrow> changeRequest \<Rightarrow> address option" where
  "populatedAddress s request =
     (case req_newAddressId request of None \<Rightarrow> None | Some i \<Rightarrow> findAddress s i)"

text \<open>
  The area check. For a \<open>New\<close> request \<open>request.publicationId._id\<close> is read without
  a guard (a TypeError, answered 500, when the publication is null) and the area is the
  first one managed by the caller that distributes the publication or is the area of the
  new address or of the subscription; for the other types it is the caller's area of the
  subscription. No area: 403.
\<close>

definition resolveArea :: "store \<Rightarrow> oid \<Rightarrow> changeRequest \<Rightarrow> response + area" where
  "resolveArea s user request =
     (let addressArea = (case populatedAddress s request of
                           None \<Rightarrow> None | Some a \<Rightarrow> addr_areaId a);
          subscriptionArea = (case populatedSubscription s request of
                                None \<Rightarrow> None | Some x \<Rightarrow> sub_areaId x)
      in if req_requestType request = New then
           (case populatedPublication s request of
              None \<Rightarrow> Inl Internal500
            | Some publication \<Rightarrow>
                (case find (\<lambda>a. (pub_id publication \<in> set (area_publications a)
                                   \<or> Some (area_id a) = addressArea
                                   \<or> Some (area_id a) = subscriptionArea)
                                  \<and> user \<in> set (area_managers a)) (areas s) of
                   None \<Rightarrow> Inl Forbidden403
                 | Some area \<Rightarrow> Inr area))
         else
           (case findManagedArea s subscriptionArea user of
              None \<Rightarrow> Inl Forbidden403
            | Some area \<Rightarrow> Inr area))"

text \<open>\<open>subscription.save({ session })\<close>: the document with this \<open>_id\<close> is replaced.\<close>

definition saveSubscription :: "store \<Rightarrow> subscription \<Rightarrow> store" where
  "saveSubscription s sub =
     s\<lparr>subscriptions := map (\<lambda>x. if sub_id x = sub_id sub then sub else x) (subscriptions s)\<rparr>"

text \<open>
  A storage error: the write of the transaction that the database refuses by throwing,
  if any. The \<open>catch\<close> block answers 500 after \<open>abortTransaction\<close>.
\<close>

datatype fault = NoFault | SubscriptionWriteFails | RequestWriteFails | CommitFails

text \<open>
  \<open>case 'New'\<close>. Without a populated new address the code reaches
  \<open>Address.findOne\<close>; the manager controller does not import \<open>Address\<close>, so the
  call throws a ReferenceError (500). When the request names a subscription it is loaded
  (404 when it is gone), set to Active and started at the effective date. When it names
  none, the code builds a Subscription with \<open>status: 'Pending'\<close> and no startDate:
  the schema's enum and \<open>required\<close> validators reject it and \<open>save\<close> throws (500).
  The result is the session's database.
\<close>

definition approveNew :: "store \<Rightarrow> changeRequest \<Rightarrow> fault \<Rightarrow> response + store" where
  "approveNew s request fault =
     (case populatedAddress s request of
        None \<Rightarrow> Inl Internal500
      | Some newAddress \<Rightarrow>
          (case populatedSubscription s request of
             None \<Rightarrow> Inl Internal500
           | Some populated \<Rightarrow>
               (case findSubscription s (sub_id populated) of
                  None \<Rightarrow> Inl NotFound404
                | Some subscription \<Rightarrow>
                    if fault = SubscriptionWriteFails then Inl Internal500
                    else Inr (saveSubscription s
                                (subscription\<lparr>sub_status := Active,
                                               sub_startDate := req_effectiveDate request\<rparr>)))))"

text \<open>
  \<open>case 'Update'\<close>: a truthy newQuantity (set and not 0) and a new address that exists
  are written onto the subscription.
\<close>

definition approveUpdate :: "store \<Rightarrow> changeRequest \<Rightarrow> fault \<Rightarrow> response + store" where
  "approveUpdate s request fault =
     (case populatedSubscription s request of
        None \<Rightarrow> Inl NotFound404
      | Some populated \<Rightarrow>
          (case findSubscription s (sub_id populated) of
             None \<Rightarrow> Inl NotFound404
           | Some modifySubscription \<Rightarrow>
               let m1 = (case req_newQuantity request of
                           None \<Rightarrow> modifySubscription
                         | Some q \<Rightarrow> if q = 0 then modifySubscription
                                     else modifySubscription\<lparr>sub_quantity := q\<rparr>);
                   m2 = (case populatedAddress s request of
                           None \<Rightarrow> m1
                         | Some a \<Rightarrow> m1\<lparr>sub_addressId := addr_id a\<rparr>)
               in if fault = SubscriptionWriteFails then Inl Internal500
                  else Inr (saveSubscription s m2)))"

text \<open>
  \<open>case 'Cancel'\<close>: \<open>findByIdAndUpdate\<close> changes the subscription when it exists and
  does nothing otherwise.
\<close>

definition approveCancel :: "store \<Rightarrow> changeRequest \<Rightarrow> fault \<Rightarrow> response + store" where
  "approveCancel s request fault =
     (if fault = SubscriptionWriteFails then Inl Internal500
      else
        (case populatedSubscription s request of
           None \<Rightarrow> Inr s
         | Some populated \<Rightarrow>
             Inr (s\<lparr>subscriptions :=
                      map (\<lambda>x. if sub_id x = sub_id populated
                                then x\<lparr>sub_status := Cancelled,
                                       sub_endDate := Some (req_effectiveDate request)\<rparr>
                                else x) (subscriptions s)\<rparr>)))"

text \<open>\<open>request.save({ session })\<close> with the four fields the controller assigns.\<close>

definition saveRequest ::
  "store \<Rightarrow> changeRequest \<Rightarrow> requestStatus \<Rightarrow> oid \<Rightarrow> date \<Rightarrow> string option \<Rightarrow> store"
where
  "saveRequest s request st user now comments =
     s\<lparr>requests :=
         map (\<lambda>r. if req_id r = req_id request
                   then request\<lparr>req_status := st, req_processedBy := Some user,
                                req_processedDate := Some now, req_comments := comments\<rparr>
                   else r) (requests s)\<rparr>"

text \<open>
  The block \<open>if (status === 'Approved') { switch (request.requestType) ... }\<close>: any
  other decision leaves the subscription alone.
\<close>

definition applyDecision :: "store \<Rightarrow> changeRequest \<Rightarrow> string \<Rightarrow> fault \<Rightarrow> response + store" where
  "applyDecision s request status fault =
     (if status = ''Approved'' then
        (case req_requestType request of
           New \<Rightarrow> approveNew s request fault
         | Update \<Rightarrow> approveUpdate s request fault
         | Cancel \<Rightarrow> approveCancel s request fault)
      else Inr s)"

text \<open>
  The controller. \<open>s\<close> is the committed database; the subscription and the request are
  written through the session (\<open>s1\<close>, then the saved request), and only
  \<open>commitTransaction\<close> makes them the database: every early return and the
  \<open>catch\<close> block abort the transaction and leave \<open>s\<close>. \<open>status\<close> is the string
  of the request body: a string outside the enum fails the validation of
  \<open>request.save\<close> (500). The current status of the request is not read.
\<close>

definition handleSubscriptionRequest ::
  "store \<Rightarrow> oid \<Rightarrow> oid \<Rightarrow> string \<Rightarrow> string option \<Rightarrow> date \<Rightarrow> fault \<Rightarrow> response \<times> store"
where
  "handleSubscriptionRequest s user i status comments now fault =
     (case findRequest s i of
        None \<Rightarrow> (NotFound404, s)
      | Some request \<Rightarrow>
          (case resolveArea s user request of
             Inl e \<Rightarrow> (e, s)
           | Inr area \<Rightarrow>
               (case applyDecision s request status fault of
                  Inl e \<Rightarrow> (e, s)
                | Inr s1 \<Rightarrow>
                    (case parseRequestStatus status of
                       None \<Rightarrow> (Internal500, s)
                     | Some st \<Rightarrow>
                         if fault = RequestWriteFails \<or> fault = CommitFails
                         then (Internal500, s)
                         else (OK200, saveRequest s1 request st user now comments)))))"

text \<open>The database in which the request \<open>i\<close> has the status \<open>st\<close>.\<close>

definition withRequestStatus :: "store \<Rightarrow> oid \<Rightarrow> requestStatus \<Rightarrow> store" where
  "withRequestStatus s i st =
     s\<lparr>requests := map (\<lambda>r. if req_id r = i then r\<lparr>req_status := st\<rparr> else r) (requests s)\<rparr>"

subsection \<open>cancelSubscription\<close>

text \<open>
  The customer's request to cancel one of their subscriptions: the subscription must be
  the caller's and not yet cancelled; the request is \<open>Cancel\<close>, \<open>Pending\<close>, names
  the subscription and nothing else, and takes effect seven days later. The subscription
  itself is not touched. No transaction is used.
\<close>

definition cancelSubscription :: "store \<Rightarrow> oid \<Rightarrow> oid \<Rightarrow> date \<Rightarrow> response \<times> store" where
  "cancelSubscription s user i now =
     (case find (\<lambda>x. sub_id x = i \<and> sub_userId x = user) (subscriptions s) of
        None \<Rightarrow> (NotFound404, s)
      | Some subscription \<Rightarrow>
          if sub_status subscription = Cancelled then (BadRequest400, s)
          else
            let cancellationRequest =
                  \<lparr>req_id = nextId s, req_userId = user, req_requestType = Cancel,
                   req_subscriptionId = Some (sub_id subscription), req_publicationId = None,
                   req_newQuantity = None, req_newAddressId = None, req_status = ReqPending,
                   req_requestDate = now,
                   req_effectiveDate = now + 7 * 24 * 60 * 60 * 1000,
                   req_comments = None, req_processedBy = None, req_processedDate = None\<rparr>;
                s1 = s\<lparr>requests := requests s @ [cancellationRequest], nextId := nextId s + 1\<rparr>;
                s2 = s1\<lparr>activities := activities s1 @
                        [\<lparr>act_userId = user, act_activityType = Cancellation\<rparr>]\<rparr>
            in (OK200, s2))"

subsection \<open>Vocabulary for the properties of change requests\<close>

text \<open>
  The request is in the manager's area: the manager is on the list of managers of an
  area that is the area of the request's subscription or of its new address, or that
  distributes its publication.
\<close>

definition requestInManagersArea :: "store \<Rightarrow> oid \<Rightarrow> changeRequest \<Rightarrow> bool" where
  "requestInManagersArea s user request \<longleftrightarrow>
     list_ex (\<lambda>a. user \<in> set (area_managers a)
                  \<and> ((case populatedSubscription s request of
                         None \<Rightarrow> False | Some x \<Rightarrow> sub_areaId x = Some (area_id a))
                     \<or> (case populatedAddress s request of
                           None \<Rightarrow> False | Some ad \<Rightarrow> addr_areaId ad = Some (area_id a))
                     \<or> (case populatedPublication s request of
                           None \<Rightarrow> False | Some p \<Rightarrow> pub_id p \<in> set (area_publications a))))
       (areas s)"

text \<open>
  The requests the customer controller writes, in a database from which nothing is ever
  deleted: the subscription of a request exists; a \<open>New\<close> request (createSubscription)
  names a publication and an address that exist; every other request
  (cancelSubscription) names neither. updateSubscription writes the request type
  \<open>Modify\<close>, which the schema's enum refuses, so it stores nothing.
\<close>

definition wellFormedRequest :: "store \<Rightarrow> changeRequest \<Rightarrow> bool" where
  "wellFormedRequest s request \<longleftrightarrow>
     populatedSubscription s request \<noteq> None
     \<and> (if req_requestType request = New
        then populatedPublication s request \<noteq> None \<and> populatedAddress s request \<noteq> None
        else req_publicationId request = None \<and> req_newAddressId request = None)"

definition wellFormedRequests :: "store \<Rightarrow> bool" where
  "wellFormedRequests s \<longleftrightarrow> list_all (wellFormedRequest s) (requests s)"

text \<open>The storage error strikes: the write it names is one that this decision makes.\<close>

definition faultStrikes :: "fault \<Rightarrow> string \<Rightarrow> bool" where
  "faultStrikes fault status \<longleftrightarrow>
     fault = RequestWriteFails \<or> fault = CommitFails
     \<or> (fault = SubscriptionWriteFails \<and> status = ''Approved'')"

text \<open>
  What an approved request makes of its subscription: a \<open>New\<close> request activates it
  from the effective date, a \<open>Cancel\<close> request cancels it at the effective date, and
  an \<open>Update\<close> request writes the new quantity, when it has one.
\<close>

definition approvedSubscription :: "changeRequest \<Rightarrow> subscription \<Rightarrow> subscription" where
  "approvedSubscription request sub =
     (case req_requestType request of
        New \<Rightarrow> sub\<lparr>sub_status := Active, sub_startDate := req_effectiveDate request\<rparr>
      | Cancel \<Rightarrow> sub\<lparr>sub_status := Cancelled, sub_endDate := Some (req_effectiveDate request)\<rparr>
      | Update \<Rightarrow> (case req_newQuantity request of
                     None \<Rightarrow> sub
                   | Some q \<Rightarrow> if q = 0 then sub else sub\<lparr>sub_quantity := q\<rparr>))"

text \<open>The request as the decision leaves it.\<close>

definition decidedRequest ::
  "changeRequest \<Rightarrow> requestStatus \<Rightarrow> oid \<Rightarrow> date \<Rightarrow> string option \<Rightarrow> changeRequest"
where
  "decidedRequest request st user now comments =
     request\<lparr>req_status := st, req_processedBy := Some user, req_processedDate := Some now,
             req_comments := comments\<rparr>"

text \<open>
  What an approval leaves: every collection but the subscriptions is as before, the ids
  of the subscriptions are as before, the request's subscription is the approved one,
  and every stored subscription is one that was stored or the approved form of one.
\<close>

definition approvalOf :: "store \<Rightarrow> changeRequest \<Rightarrow> subscription \<Rightarrow> store \<Rightarrow> bool" where
  "approvalOf s request sub s1 \<longleftrightarrow>
     s1 = s\<lparr>subscriptions := subscriptions s1\<rparr>
     \<and> map sub_id (subscriptions s1) = map sub_id (subscriptions s)
     \<and> findSubscription s1 (sub_id sub) = Some (approvedSubscription request sub)
     \<and> set (subscriptions s1)
         \<subseteq> set (subscriptions s) \<union> approvedSubscription request ` set (subscriptions s)"

text \<open>
  A billing run from \<open>s\<close> to \<open>s'\<close> bills the subscription: one of the new bills has
  its customer and area, and one of that bill's line items is the line of the
  subscription.
\<close>

definition billsSubscription :: "store \<Rightarrow> store \<Rightarrow> subscription \<Rightarrow> bool" where
  "billsSubscription s s' sub \<longleftrightarrow>
     list_ex (\<lambda>b. billKey b = subKey sub
                  \<and> list_ex (\<lambda>it. itemMatches s it sub) (itemsOfBill (newBillItems s s') b))
       (newBills s s')"

section \<open>Delivery schedule materializer: createSchedule (manager controller)\<close>

text \<open>
  The \<open>date\<close> of the request body: missing (falsy), a value that \<open>new Date\<close> turns
  into an Invalid Date, or a date.
\<close>

datatype dateParam = NoDate | InvalidDate | ValidDate date

text \<open>
  One element of \<open>subscriptions.map(...)\<close>: \<open>sub.addressId._id\<close> and
  \<open>sub.publicationId._id\<close> are read from the populated documents (a TypeError,
  \<open>None\<close>, when one is null) and the quantity is \<open>sub.quantity || 1\<close>.
\<close>

definition deliveryItemOf :: "store \<Rightarrow> oid \<Rightarrow> oid \<Rightarrow> subscription \<Rightarrow> deliveryItem option" where
  "deliveryItemOf s scheduleId i sub =
     (case (findAddress s (sub_addressId sub), findPublication s (sub_publicationId sub)) of
        (Some a, Some p) \<Rightarrow>
          Some \<lparr>item_id = i, item_scheduleId = scheduleId, item_subscriptionId = sub_id sub,
                item_addressId = addr_id a, item_publicationId = pub_id p,
                item_quantity = (if sub_quantity sub = 0 then 1 else sub_quantity sub),
                item_status = ItemPending, item_deliveryNotes = None,
                item_deliveryTime = None\<rparr>
      | _ \<Rightarrow> None)"

text \<open>
  A storage error: the write of the transaction that the database refuses by throwing,
  if any (\<open>DeliverySchedule.create\<close>, \<open>DeliveryItem.create\<close>, which is only
  called when there are items, or \<open>commitTransaction\<close>).
\<close>

datatype scheduleFault = NoScheduleFault | ScheduleWriteFails | ItemWriteFails | ScheduleCommitFails

text \<open>
  The controller (the version with delivery items), in two parts. \<open>writeSchedule\<close>
  is what it does once the caller, the deliverer and the route are accepted: it creates
  the schedule, loads the Active subscriptions of the area and creates their delivery
  items. All reads and writes run in the session of one transaction: \<open>s1\<close> is the
  session's database after the schedule was created, and an exception after that point
  aborts the transaction, so the answer 500 comes with \<open>s\<close>, not \<open>s1\<close>.
\<close>

definition writeSchedule ::
  "store \<Rightarrow> oid \<Rightarrow> oid \<Rightarrow> oid \<Rightarrow> date \<Rightarrow> string option \<Rightarrow> scheduleFault \<Rightarrow> response \<times> store"
where
  "writeSchedule s pid aid rid d notes fault =
     (if fault = ScheduleWriteFails then (Internal500, s)
      else
        let schedule = \<lparr>sched_id = nextId s, sched_personnelId = pid, sched_date = d,
                         sched_status = SchedPending, sched_areaId = Some aid,
                         sched_routeId = Some rid, sched_notes = notes\<rparr>;
            s1 = s\<lparr>schedules := schedules s @ [schedule], nextId := nextId s + 1\<rparr>;
            subs = activeSubscriptionsIn s1 [aid]
        in case those (map2 (deliveryItemOf s1 (sched_id schedule))
                         [nextId s1 ..< nextId s1 + length subs] subs) of
             None \<Rightarrow> (Internal500, s)
           | Some items \<Rightarrow>
               if (items \<noteq> [] \<and> fault = ItemWriteFails) \<or> fault = ScheduleCommitFails
               then (Internal500, s)
               else (Created201, s1\<lparr>deliveryItems := deliveryItems s1 @ items,
                                    nextId := nextId s1 + length subs\<rparr>))"

definition createSchedule ::
  "store \<Rightarrow> oid \<Rightarrow> oid option \<Rightarrow> dateParam \<Rightarrow> oid option \<Rightarrow> oid option \<Rightarrow> string option
     \<Rightarrow> scheduleFault \<Rightarrow> response \<times> store"
where
  "createSchedule s user personnelId date areaId routeId notes fault =
     (case (personnelId, areaId, routeId) of
        (Some pid, Some aid, Some rid) \<Rightarrow>
          if date = NoDate then (BadRequest400, s)
          else
            (case findManagedArea s (Some aid) user of
               None \<Rightarrow> (Forbidden403, s)
             | Some area \<Rightarrow>
                 (case find (\<lambda>p. dp_id p = pid \<and> aid \<in> set (dp_areasAssigned p) \<and> dp_isActive p)
                         (personnel s) of
                    None \<Rightarrow> (BadRequest400, s)
                  | Some deliverer \<Rightarrow>
                      (case find (\<lambda>r. route_id r = rid \<and> route_areaId r = aid
                                        \<and> route_personnelId r = pid \<and> route_isActive r)
                              (routes s) of
                         None \<Rightarrow> (BadRequest400, s)
                       | Some route \<Rightarrow>
                           (case date of
                              ValidDate d \<Rightarrow> writeSchedule s pid aid rid d notes fault
                            | _ \<Rightarrow> (Internal500, s)))))
      | _ \<Rightarrow> (BadRequest400, s))"

text \<open>
  What it means for a delivery item to be the item of a subscription in a schedule, and
  for a subscription to be deliverable: its address and its publication exist.
\<close>

definition itemOfSubscription :: "deliverySchedule \<Rightarrow> deliveryItem \<Rightarrow> subscription \<Rightarrow> bool" where
  "itemOfSubscription schedule it sub \<longleftrightarrow>
     item_scheduleId it = sched_id schedule
     \<and> item_subscriptionId it = sub_id sub
     \<and> item_addressId it = sub_addressId sub
     \<and> item_publicationId it = sub_publicationId sub
     \<and> item_status it = ItemPending
     \<and> item_quantity it = sub_quantity sub"

definition deliverable :: "store \<Rightarrow> subscription \<Rightarrow> bool" where
  "deliverable s sub \<longleftrightarrow>
     findAddress s (sub_addressId sub) \<noteq> None \<and> findPublication s (sub_publicationId sub) \<noteq> None"

text \<open>
  What createSchedule checks before it writes: the area is the caller's, the deliverer is
  active and assigned to the area, and the route is an active route of the area and of
  the deliverer.
\<close>

definition validScheduleRequest :: "store \<Rightarrow> oid \<Rightarrow> oid \<Rightarrow> oid \<Rightarrow> oid \<Rightarrow> bool" where
  "validScheduleRequest s user pid aid rid \<longleftrightarrow>
     managesArea s user (Some aid)
     \<and> list_ex (\<lambda>p. dp_id p = pid \<and> aid \<in> set (dp_areasAssigned p) \<and> dp_isActive p)
           (personnel s)
     \<and> list_ex (\<lambda>r. route_id r = rid \<and> route_areaId r = aid \<and> route_personnelId r = pid
                    \<and> route_isActive r) (routes s)"


text \<open>
  The quantities the controllers write: createSubscription refuses a quantity that is
  not a positive integer, and handleSubscriptionRequest overwrites a quantity only with
  a truthy one, so no stored subscription has the quantity 0.
\<close>

definition nonZeroQuantities :: "store \<Rightarrow> bool" where
  "nonZeroQuantities s \<longleftrightarrow> list_all (\<lambda>sub. sub_quantity sub \<noteq> 0) (subscriptions s)"

section \<open>Delivery items: updateDeliveryStatus (deliverer controller)\<close>

text \<open>\<open>['Delivered', 'Failed', 'Skipped'].includes(status)\<close>.\<close>

definition parseTargetStatus :: "string \<Rightarrow> itemStatus option" where
  "parseTargetStatus st =
     (if st = ''Delivered'' then Some Delivered
      else if st = ''Failed'' then Some Failed
      else if st = ''Skipped'' then Some Skipped
      else None)"

text \<open>
  \<open>deliveryPersonnel\<close> is \<open>req.user.deliveryPersonnel\<close>: the id of the caller's
  DeliveryPersonnel document, or null.
\<close>

definition updateDeliveryStatus ::
  "store \<Rightarrow> oid option \<Rightarrow> oid \<Rightarrow> string \<Rightarrow> string option \<Rightarrow> date \<Rightarrow> response \<times> store"
where
  "updateDeliveryStatus s deliveryPersonnel i status deliveryNotes now =
     (case parseTargetStatus status of
        None \<Rightarrow> (BadRequest400, s)
      | Some st \<Rightarrow>
          (case find (\<lambda>x. item_id x = i) (deliveryItems s) of
             None \<Rightarrow> (NotFound404, s)
           | Some item \<Rightarrow>
               (case find (\<lambda>sc. sched_id sc = item_scheduleId item
                                 \<and> Some (sched_personnelId sc) = deliveryPersonnel)
                       (schedules s) of
                  None \<Rightarrow> (Forbidden403, s)
                | Some schedule \<Rightarrow>
                    (OK200,
                     s\<lparr>deliveryItems :=
                         map (\<lambda>x. if item_id x = item_id item
                                   then x\<lparr>item_status := st, item_deliveryNotes := deliveryNotes,
                                          item_deliveryTime := Some now\<rparr>
                                   else x) (deliveryItems s)\<rparr>))))"

definition findItem :: "store \<Rightarrow> oid \<Rightarrow> deliveryItem option" where
  "findItem s i = find (\<lambda>x. item_id x = i) (deliveryItems s)"

text \<open>The item belongs to one of the schedules of the caller.\<close>

definition ownsItem :: "store \<Rightarrow> oid option \<Rightarrow> deliveryItem \<Rightarrow> bool" where
  "ownsItem s deliveryPersonnel item \<longleftrightarrow>
     list_ex (\<lambda>sc. sched_id sc = item_scheduleId item
                    \<and> Some (sched_personnelId sc) = deliveryPersonnel) (schedules s)"

section \<open>Deliverer commission: processDelivererPayments (manager controller)\<close>

text \<open>
  \<open>DeliveryItem.find({ 'schedule.personnelId': deliverer._id, status: 'Delivered',
  deliveryTime: { $gte: startDate, $lte: endDate } })\<close>. The DeliveryItem schema has no
  path \<open>schedule\<close> (an item refers to its schedule by \<open>scheduleId\<close>). What the
  condition on \<open>schedule.personnelId\<close> does depends on Mongoose's \<open>strictQuery\<close>
  option, which the sources do not set: when it is on, Mongoose drops the condition from
  the filter; when it is off, the condition is sent to the database, where no item has
  such a field and so none matches. Either way the deliverer is not looked at.
\<close>

definition deliveriesQuery :: "bool \<Rightarrow> store \<Rightarrow> oid \<Rightarrow> date \<Rightarrow> date \<Rightarrow> deliveryItem list" where
  "deliveriesQuery strictQuery s personnelId startDate endDate =
     filter (\<lambda>x. strictQuery \<and> item_status x = Delivered
                  \<and> (case item_deliveryTime x of
                       None \<Rightarrow> False
                     | Some t \<Rightarrow> startDate \<le> t \<and> t \<le> endDate))
       (deliveryItems s)"

text \<open>
  \<open>deliveries.reduce(...)\<close> over the populated items: \<open>delivery.publicationId.price\<close>
  of a publication that does not exist throws (\<open>None\<close>).
\<close>

fun commissionSum :: "store \<Rightarrow> number \<Rightarrow> number \<Rightarrow> deliveryItem list \<Rightarrow> number option" where
  "commissionSum s commissionRate acc [] = Some acc"
| "commissionSum s commissionRate acc (delivery # rest) =
     (case findPublication s (item_publicationId delivery) of
        None \<Rightarrow> None
      | Some publication \<Rightarrow>
          commissionSum s commissionRate
            (acc + item_quantity delivery * pub_price publication * (commissionRate / 100)) rest)"

record paymentDraft =
  pd_personnelId :: oid
  pd_amount :: number
  pd_commissionRate :: number

text \<open>
  The loop over the deliverers; \<open>pays\<close> is the array \<open>payments\<close> built so far. A deliverer with
  a DelivererPayment for the month and year is skipped. An Invalid Date in the period
  makes the query throw.
\<close>

fun paymentsLoop ::
  "bool \<Rightarrow> store \<Rightarrow> int \<Rightarrow> int \<Rightarrow> deliveryPersonnel list \<Rightarrow> paymentDraft list
     \<Rightarrow> paymentDraft list option"
where
  "paymentsLoop strictQuery s month year [] pays = Some pays"
| "paymentsLoop strictQuery s month year (deliverer # rest) pays =
     (if find (\<lambda>p. dpay_personnelId p = dp_id deliverer \<and> dpay_paymentMonth p = month
                    \<and> dpay_paymentYear p = year) (delivererPayments s) \<noteq> None
      then paymentsLoop strictQuery s month year rest pays
      else
        (case (jsDate year (month - 1) 1, jsDate year month 0) of
           (Some startDate, Some endDate) \<Rightarrow>
             (case commissionSum s (dp_commissionRate deliverer) 0
                     (deliveriesQuery strictQuery s (dp_id deliverer) startDate endDate) of
                None \<Rightarrow> None
              | Some totalAmount \<Rightarrow>
                  paymentsLoop strictQuery s month year rest
                    (pays @ [\<lparr>pd_personnelId = dp_id deliverer, pd_amount = totalAmount,
                                  pd_commissionRate = dp_commissionRate deliverer\<rparr>]))
         | _ \<Rightarrow> None))"

definition activeDeliverers :: "store \<Rightarrow> oid list \<Rightarrow> deliveryPersonnel list" where
  "activeDeliverers s areaIds =
     filter (\<lambda>p. list_ex (\<lambda>a. a \<in> set areaIds) (dp_areasAssigned p) \<and> dp_isActive p)
       (personnel s)"

definition delivererPaymentOf :: "int \<Rightarrow> int \<Rightarrow> oid \<Rightarrow> paymentDraft \<Rightarrow> delivererPayment" where
  "delivererPaymentOf month year i d =
     \<lparr>dpay_id = i, dpay_personnelId = pd_personnelId d, dpay_paymentMonth = month,
      dpay_paymentYear = year, dpay_amount = pd_amount d,
      dpay_commissionRate = pd_commissionRate d, dpay_status = PayPending\<rparr>"

definition processDelivererPayments ::
  "bool \<Rightarrow> store \<Rightarrow> oid \<Rightarrow> int \<Rightarrow> int \<Rightarrow> response \<times> store"
where
  "processDelivererPayments strictQuery s user month year =
     (let areaIds = managedAreaIds s user;
          deliverers = activeDeliverers s areaIds
      in case paymentsLoop strictQuery s month year deliverers [] of
           None \<Rightarrow> (Internal500, s)
         | Some pays \<Rightarrow>
             (Created201,
              s\<lparr>delivererPayments := delivererPayments s @
                    map2 (delivererPaymentOf month year)
                      [nextId s ..< nextId s + length pays] pays,
                nextId := nextId s + length pays\<rparr>))"

text \<open>
  The amount the specification states for a deliverer: the sum of
  quantity * price * (commissionRate / 100) over the Delivered items of the deliverer's
  own schedules whose delivery time lies from the first to the last day of the month.
\<close>

definition ownDeliveries :: "store \<Rightarrow> int \<Rightarrow> int \<Rightarrow> deliveryPersonnel \<Rightarrow> deliveryItem list" where
  "ownDeliveries s month year deliverer =
     filter (\<lambda>x. list_ex (\<lambda>sc. sched_id sc = item_scheduleId x
                                \<and> sched_personnelId sc = dp_id deliverer) (schedules s)
                  \<and> item_status x = Delivered
                  \<and> (case (item_deliveryTime x, jsDate year (month - 1) 1, jsDate year month 1) of
                       (Some t, Some first, Some next) \<Rightarrow> first \<le> t \<and> t < next
                     | _ \<Rightarrow> False))
       (deliveryItems s)"

definition statedCommission :: "store \<Rightarrow> int \<Rightarrow> int \<Rightarrow> deliveryPersonnel \<Rightarrow> number option" where
  "statedCommission s month year deliverer =
     commissionSum s (dp_commissionRate deliverer) 0 (ownDeliveries s month year deliverer)"

section \<open>Example stores\<close>

definition emptyStore :: store where
  "emptyStore = \<lparr>users = [], areas = [], addresses = [], publications = [],
     subscriptions = [], requests = [], personnel = [], routes = [], schedules = [],
     deliveryItems = [], bills = [], billItems = [], payments = [],
     delivererPayments = [], activities = [], nextId = 100\<rparr>"

definition bill100 :: bill where
  "bill100 = \<lparr>bill_id = 7, bill_userId = 1, bill_billDate = 0, bill_billMonth = 6,
     bill_billYear = 2024, bill_totalAmount = 100, bill_dueDate = 0, bill_status = Unpaid,
     bill_areaId = Some 3, bill_billNumber = ''BILL-202406-ABC123'',
     bill_outstandingAmount = 100\<rparr>"

definition payStore :: store where
  "payStore = emptyStore\<lparr>users := [1], bills := [bill100]\<rparr>"

text \<open>
  A manager (user 1) of area 3 and another (user 2) of area 4; customers 10 and 11;
  publications 20 (price 50) and 21 (price 30). In area 3 customer 10 subscribes to both
  and customer 11 to the first one; customer 11 also has a cancelled subscription in
  area 3 and an active one in area 4.
\<close>

definition area3 :: area where
  "area3 = \<lparr>area_id = 3, area_managers = [1], area_publications = [20, 21]\<rparr>"

definition pub20 :: publication where
  "pub20 = \<lparr>pub_id = 20, pub_price = 50, pub_isActive = True\<rparr>"

definition pub21 :: publication where
  "pub21 = \<lparr>pub_id = 21, pub_price = 30, pub_isActive = True\<rparr>"

definition mkSub :: "oid \<Rightarrow> oid \<Rightarrow> oid \<Rightarrow> number \<Rightarrow> subscription" where
  "mkSub i u p q = \<lparr>sub_id = i, sub_userId = u, sub_publicationId = p, sub_quantity = q,
     sub_startDate = 0, sub_endDate = None, sub_status = Active, sub_addressId = 40,
     sub_areaId = Some 3\<rparr>"

definition area4 :: area where
  "area4 = \<lparr>area_id = 4, area_managers = [2], area_publications = [20]\<rparr>"

definition billingStore :: store where
  "billingStore = emptyStore\<lparr>users := [1, 2, 10, 11], areas := [area3, area4],
     publications := [pub20, pub21],
     subscriptions := [mkSub 30 10 20 2, mkSub 31 11 20 1, mkSub 32 10 21 1,
       (mkSub 33 11 21 1)\<lparr>sub_status := Cancelled\<rparr>,
       (mkSub 34 11 20 5)\<lparr>sub_areaId := Some 4\<rparr>]\<rparr>"

definition suffixes :: "nat \<Rightarrow> string" where
  "suffixes k = (if k = 0 then ''A1B2C3'' else if k = 1 then ''D4E5F6'' else ''G7H8I9'')"

text \<open>The database after the billing run of June 2024 on \<open>billingStore\<close>.\<close>

definition billedStore :: store where
  "billedStore = billingStore\<lparr>
     bills :=
       [\<lparr>bill_id = 100, bill_userId = 10, bill_billDate = 1000, bill_billMonth = 6,
         bill_billYear = 2024, bill_totalAmount = 130, bill_dueDate = 1721001600000,
         bill_status = Unpaid, bill_areaId = Some 3, bill_billNumber = ''BILL-202406-A1B2C3'',
         bill_outstandingAmount = 130\<rparr>,
        \<lparr>bill_id = 101, bill_userId = 11, bill_billDate = 1000, bill_billMonth = 6,
         bill_billYear = 2024, bill_totalAmount = 50, bill_dueDate = 1721001600000,
         bill_status = Unpaid, bill_areaId = Some 3, bill_billNumber = ''BILL-202406-D4E5F6'',
         bill_outstandingAmount = 50\<rparr>],
     billItems :=
       [\<lparr>bi_id = 102, bi_billId = 100, bi_publicationId = 20, bi_quantity = 2,
         bi_unitPrice = 50, bi_totalPrice = 100, bi_from = 1717200000000,
         bi_to = 1719705600000\<rparr>,
        \<lparr>bi_id = 103, bi_billId = 100, bi_publicationId = 21, bi_quantity = 1,
         bi_unitPrice = 30, bi_totalPrice = 30, bi_from = 1717200000000,
         bi_to = 1719705600000\<rparr>,
        \<lparr>bi_id = 104, bi_billId = 101, bi_publicationId = 20, bi_quantity = 1,
         bi_unitPrice = 50, bi_totalPrice = 50, bi_from = 1717200000000,
         bi_to = 1719705600000\<rparr>],
     nextId := 105\<rparr>"

text \<open>A publication with a negative price (a rebate), billed to customer 10.\<close>

definition rebateStore :: store where
  "rebateStore = emptyStore\<lparr>users := [1, 10], areas := [area3],
     publications := [\<lparr>pub_id = 20, pub_price = - 5, pub_isActive = True\<rparr>],
     subscriptions := [mkSub 30 10 20 1]\<rparr>"

text \<open>
  The billing example with an address, two deliverers of area 3 and a route; and the
  same with a completed schedule of deliverer 5 whose one item was delivered on
  15 June 2024.
\<close>

definition addr40 :: address where
  "addr40 = \<lparr>addr_id = 40, addr_userId = 10, addr_areaId = Some 3, addr_isActive = True\<rparr>"

definition deliverer5 :: deliveryPersonnel where
  "deliverer5 = \<lparr>dp_id = 5, dp_userId = 15, dp_areasAssigned = [3], dp_isActive = True,
     dp_commissionRate = 10\<rparr>"

definition deliverer6 :: deliveryPersonnel where
  "deliverer6 = \<lparr>dp_id = 6, dp_userId = 16, dp_areasAssigned = [3], dp_isActive = True,
     dp_commissionRate = 10\<rparr>"

definition route8 :: deliveryRoute where
  "route8 = \<lparr>route_id = 8, route_personnelId = 5, route_areaId = 3, route_isActive = True\<rparr>"

definition deliveryStore :: store where
  "deliveryStore = billingStore\<lparr>addresses := [addr40], personnel := [deliverer5, deliverer6],
     routes := [route8]\<rparr>"

definition schedule50 :: deliverySchedule where
  "schedule50 = \<lparr>sched_id = 50, sched_personnelId = 5, sched_date = 1718409600000,
     sched_status = Completed, sched_areaId = Some 3, sched_routeId = Some 8,
     sched_notes = None\<rparr>"

definition item60 :: deliveryItem where
  "item60 = \<lparr>item_id = 60, item_scheduleId = 50, item_subscriptionId = 30,
     item_addressId = 40, item_publicationId = 20, item_quantity = 2,
     item_status = Delivered, item_deliveryNotes = None,
     item_deliveryTime = Some 1718409600000\<rparr>"

definition deliveredStore :: store where
  "deliveredStore = deliveryStore\<lparr>schedules := [schedule50], deliveryItems := [item60]\<rparr>"

text \<open>The same item after the deliverer reported it as failed.\<close>

definition failedStore :: store where
  "failedStore = snd (updateDeliveryStatus deliveredStore (Some 5) 60 ''Failed'' None 5000)"

text \<open>
  Change requests on the delivery example: customer 10 asks for a new subscription to
  publication 21 (subscription 100, request 101), and the manager of area 3 rejects the
  request.
\<close>

definition newBody :: subscriptionBody where
  "newBody = \<lparr>body_publicationId = Some 21, body_addressId = Some 40, body_quantity = 3,
     body_placement = Some ''Door''\<rparr>"

definition requestedStore :: store where
  "requestedStore = snd (createSubscription deliveryStore 10 newBody 1000)"

definition rejectedStore :: store where
  "rejectedStore = snd (handleSubscriptionRequest requestedStore 1 101 ''Rejected'' None 2000 NoFault)"

text \<open>The subscription and the request that the customer's call stored.\<close>

definition sub100 :: subscription where
  "sub100 = \<lparr>sub_id = 100, sub_userId = 10, sub_publicationId = 21, sub_quantity = 3,
     sub_startDate = 1000, sub_endDate = None, sub_status = Active,
     sub_addressId = 40, sub_areaId = Some 3\<rparr>"

definition request101 :: changeRequest where
  "request101 = \<lparr>req_id = 101, req_userId = 10, req_requestType = New,
     req_subscriptionId = Some 100, req_publicationId = Some 21,
     req_newQuantity = Some 3, req_newAddressId = Some 40,
     req_status = ReqPending, req_requestDate = 1000,
     req_effectiveDate = 604801000, req_comments = None,
     req_processedBy = None, req_processedDate = None\<rparr>"

chapter \<open>Properties\<close>

section \<open>Lists\<close>

lemma those_Some_map: "those xs = Some ys \<Longrightarrow> xs = map Some ys"
  by (induction xs arbitrary: ys) (auto split: option.splits)

lemma map_eq_list_all2: "map f xs = map g ys \<longleftrightarrow> list_all2 (\<lambda>x y. f x = g y) xs ys"
proof -
  have "map f xs = map g ys \<longleftrightarrow> list_all2 (=) (map f xs) (map g ys)"
    by (simp add: list.rel_eq)
  then show ?thesis by (simp add: list.rel_map)
qed

lemma list_all2_filter_rel:
  assumes "list_all2 R xs ys" and "\<And>x y. R x y \<Longrightarrow> P x = Q y"
  shows "list_all2 R (filter P xs) (filter Q ys)"
  using assms by (induction rule: list_all2_induct) auto

lemma filter_concat_tagged_none:
  assumes "length xs = length ys" and "a \<notin> t ` set xs"
  shows "filter (\<lambda>p. fst p = a) (concat (map2 (\<lambda>c d. map (Pair (t c)) (g d)) xs ys)) = []"
  using assms by (induction xs ys rule: list_induct2) (auto simp: filter_empty_conv)

lemma filter_concat_tagged:
  assumes "length cs = length ds" and "distinct (map t cs)" and "(c, d) \<in> set (zip cs ds)"
  shows "filter (\<lambda>p. fst p = t c) (concat (map2 (\<lambda>c d. map (Pair (t c)) (g d)) cs ds))
         = map (Pair (t c)) (g d)"
  using assms
proof (induction cs ds rule: list_induct2)
  case Nil
  then show ?case by simp
next
  case (Cons x xs y ys)
  show ?case
  proof (cases "(c, d) = (x, y)")
    case True
    then show ?thesis
      using Cons.prems Cons.hyps filter_concat_tagged_none[of xs ys "t x" t g]
      by (auto simp: filter_id_conv)
  next
    case False
    then have in_tl: "(c, d) \<in> set (zip xs ys)" using Cons.prems by auto
    then have "c \<in> set xs" by (meson set_zip_leftD)
    then have "t c \<in> t ` set xs" by simp
    moreover have "t x \<notin> t ` set xs" using Cons.prems(1) by simp
    ultimately have ne: "t c \<noteq> t x" by metis
    have "filter (\<lambda>p. fst p = t c) (map (Pair (t x)) (g y)) = []"
      using ne by (auto simp: filter_empty_conv)
    moreover have "filter (\<lambda>p. fst p = t c) (concat (map2 (\<lambda>c d. map (Pair (t c)) (g d)) xs ys))
         = map (Pair (t c)) (g d)"
      using Cons.IH in_tl Cons.prems by simp
    ultimately show ?thesis by simp
  qed
qed

lemma map2_upt_ids:
  assumes "map2 f [n ..< n + length ds] ds = map Some cs"
    and "\<And>i d c. f i d = Some c \<Longrightarrow> t c = i"
  shows "map t cs = [n ..< n + length ds]"
proof -
  have len: "length cs = length ds"
    using arg_cong[OF assms(1), of length] by simp
  show ?thesis
  proof (rule nth_equalityI)
    show "length (map t cs) = length [n ..< n + length ds]" using len by simp
  next
    fix i assume "i < length (map t cs)"
    then have i: "i < length ds" using len by simp
    have "map2 f [n ..< n + length ds] ds ! i = map Some cs ! i" using assms(1) by simp
    then have "f (n + i) (ds ! i) = Some (cs ! i)" using i len by simp
    from assms(2)[OF this] show "map t cs ! i = [n ..< n + length ds] ! i"
      using i len by simp
  qed
qed

lemma map2_upt_rel:
  assumes "map2 f [n ..< n + length ds] ds = map Some cs"
  shows "list_all2 (\<lambda>c d. \<exists>i. f i d = Some c) cs ds"
proof -
  have len: "length cs = length ds"
    using arg_cong[OF assms(1), of length] by simp
  show ?thesis
  proof (rule list_all2_all_nthI)
    show "length cs = length ds" by (rule len)
  next
    fix i assume i: "i < length cs"
    have "map2 f [n ..< n + length ds] ds ! i = map Some cs ! i" using assms(1) by simp
    then have "f (n + i) (ds ! i) = Some (cs ! i)" using i len by simp
    then show "\<exists>j. f j (ds ! i) = Some (cs ! i)" by blast
  qed
qed

lemma find_SomeD: "find P xs = Some x \<Longrightarrow> x \<in> set xs \<and> P x"
  by (induction xs) (auto split: if_splits)

lemma list_ex_find: "list_ex P xs \<longleftrightarrow> find P xs \<noteq> None"
  by (induction xs) auto

section \<open>makePayment\<close>

lemma find_map_update:
  assumes "find P xs = Some x" and "\<And>y. P (f y) = P y"
  shows "find P (map (\<lambda>y. if Q y then f y else y) xs) = Some (if Q x then f x else x)"
  using assms by (induction xs) (auto split: if_splits)

lemma applyPayment_keys:
  "bill_id (applyPayment a b) = bill_id b" "bill_userId (applyPayment a b) = bill_userId b"
  "bill_totalAmount (applyPayment a b) = bill_totalAmount b"
  by (simp_all add: applyPayment_def Let_def)

lemma makePayment_Created:
  assumes "makePayment s user billId amount pm ref now = (Created201, s')"
  obtains b where "findBill s user billId = Some b"
    and "bills s' = map (\<lambda>x. if bill_id x = bill_id b then applyPayment amount x else x) (bills s)"
  using assms unfolding makePayment_def findBill_def
  by (auto simp: Let_def split: option.splits if_splits)

lemma makePayment_findBill:
  assumes "makePayment s user billId amount pm ref now = (Created201, s')"
    and "findBill s user billId = Some b"
  shows "findBill s' user billId = Some (applyPayment amount b)"
proof -
  obtain b0 where b0: "findBill s user billId = Some b0"
    and bs: "bills s' = map (\<lambda>x. if bill_id x = bill_id b0 then applyPayment amount x else x) (bills s)"
    using makePayment_Created [OF assms(1)] by blast
  from b0 assms(2) have eq: "b0 = b" by simp
  have idb: "bill_id b = billId"
    using assms(2) unfolding findBill_def by (auto dest: find_Some_iff[THEN iffD1])
  have "find (\<lambda>x. bill_id x = billId \<and> bill_userId x = user)
          (map (\<lambda>y. if bill_id y = bill_id b then applyPayment amount y else y) (bills s))
        = Some (if bill_id b = bill_id b then applyPayment amount b else b)"
    by (rule find_map_update) (use assms(2) in \<open>simp_all add: findBill_def applyPayment_keys\<close>)
  then show ?thesis by (simp add: findBill_def bs eq)
qed

text \<open>
  C4. Every payment on a bill of the caller whose outstanding amount is positive is
  accepted (201), whatever its amount, provided the payment method is one of the enum
  and the receipt number of this millisecond is not taken. The bill is left with the
  outstanding amount max(0, old - amount); its status is Paid exactly when that is 0 and
  Partially Paid otherwise; an amount of at least the old outstanding amount leaves 0,
  and the bill's total is not touched, so the surplus is recorded nowhere on the bill.
\<close>

theorem makePayment_outstanding_and_status:
  assumes "findBill s user billId = Some b"
    and "0 < bill_outstandingAmount b"
    and "parsePaymentMethod pm \<noteq> None"
    and "''RCP'' @ showInt now \<notin> set (map pay_receiptNumber (payments s))"
  shows "\<exists>s' b'. makePayment s user billId amount pm ref now = (Created201, s')
           \<and> findBill s' user billId = Some b'
           \<and> bill_outstandingAmount b' = max 0 (bill_outstandingAmount b - amount)
           \<and> (bill_status b' = Paid \<longleftrightarrow> bill_outstandingAmount b' = 0)
           \<and> (bill_outstandingAmount b' \<noteq> 0 \<longrightarrow> bill_status b' = PartiallyPaid)
           \<and> (bill_outstandingAmount b \<le> amount \<longrightarrow> bill_outstandingAmount b' = 0)
           \<and> bill_totalAmount b' = bill_totalAmount b"
proof -
  obtain s' where run: "makePayment s user billId amount pm ref now = (Created201, s')"
    using assms(1,3,4) unfolding makePayment_def findBill_def
    by (auto simp: Let_def split: option.splits)
  have "findBill s' user billId = Some (applyPayment amount b)"
    using run assms(1) by (rule makePayment_findBill)
  then show ?thesis using run
    by (auto simp: applyPayment_def Let_def max_def)
qed

theorem makePayment_outstanding_and_status_witness:
  "findBill payStore 1 7 = Some bill100 \<and> 0 < bill_outstandingAmount bill100
   \<and> parsePaymentMethod ''Cash'' \<noteq> None
   \<and> ''RCP'' @ showInt 1000 \<notin> set (map pay_receiptNumber (payments payStore))
   \<and> (\<exists>s' b'. makePayment payStore 1 7 250 ''Cash'' None 1000 = (Created201, s')
        \<and> findBill s' 1 7 = Some b' \<and> bill_outstandingAmount b' = 0 \<and> bill_status b' = Paid
        \<and> bill_totalAmount b' = 100)
   \<and> (\<exists>s' b'. makePayment payStore 1 7 40 ''Cash'' None 1000 = (Created201, s')
        \<and> findBill s' 1 7 = Some b' \<and> bill_outstandingAmount b' = 60
        \<and> bill_status b' = PartiallyPaid)"
proof -
  have h1: "findBill payStore 1 7 = Some bill100"
    by (simp add: findBill_def payStore_def emptyStore_def bill100_def)
  have h2: "0 < bill_outstandingAmount bill100"
    by (simp add: bill100_def)
  have h3: "parsePaymentMethod ''Cash'' \<noteq> None"
    by (simp add: parsePaymentMethod_def)
  have h4: "''RCP'' @ showInt 1000 \<notin> set (map pay_receiptNumber (payments payStore))"
    by (simp add: payStore_def emptyStore_def)
  have o: "bill_outstandingAmount bill100 = 100" "bill_totalAmount bill100 = 100"
    by (simp_all add: bill100_def)
  from makePayment_outstanding_and_status [OF h1 h2 h3 h4, of 250 None]
  have a: "\<exists>s' b'. makePayment payStore 1 7 250 ''Cash'' None 1000 = (Created201, s')
        \<and> findBill s' 1 7 = Some b' \<and> bill_outstandingAmount b' = 0 \<and> bill_status b' = Paid
        \<and> bill_totalAmount b' = 100"
    unfolding o by (elim exE conjE) (intro exI conjI, assumption+, simp_all)
  from makePayment_outstanding_and_status [OF h1 h2 h3 h4, of 40 None]
  have b: "\<exists>s' b'. makePayment payStore 1 7 40 ''Cash'' None 1000 = (Created201, s')
        \<and> findBill s' 1 7 = Some b' \<and> bill_outstandingAmount b' = 60
        \<and> bill_status b' = PartiallyPaid"
    unfolding o by (elim exE conjE) (intro exI conjI, assumption+, simp_all)
  from h1 h2 h3 h4 a b show ?thesis by (intro conjI)
qed

section \<open>generateBills\<close>

subsection \<open>The loop\<close>

lemma draftKey_addToBill [simp]: "draftKey (addToBill a it d) = draftKey d"
  by (simp add: draftKey_def addToBill_def)

lemma draftKey_newBill [simp]: "draftKey (newBill sub m y now sfx) = subKey sub"
  by (simp add: draftKey_def newBill_def subKey_def)

lemma find_key_None: "find (\<lambda>d. draftKey d = k) ds = None \<longleftrightarrow> k \<notin> draftKey ` set ds"
  by (auto simp: find_None_iff)

lemma billStep_Some:
  assumes "billStep s m y now rand sub ds = Some ds'"
  obtains pub where "findPublication s (sub_publicationId sub) = Some pub"
    and "ds' = map (\<lambda>d. if draftKey d = subKey sub
                          then addToBill (pub_price pub * sub_quantity sub) (newItem sub pub m y) d
                          else d)
                 (if subKey sub \<in> draftKey ` set ds then ds
                  else ds @ [newBill sub m y now (rand (length ds))])"
  using assms unfolding billStep_def
  by (auto simp: Let_def find_key_None split: if_splits option.splits)

lemma billStep_keys:
  assumes "billStep s m y now rand sub ds = Some ds'"
  shows "map draftKey ds' = (if subKey sub \<in> draftKey ` set ds then map draftKey ds
                             else map draftKey ds @ [subKey sub])"
proof -
  have keep: "map draftKey (map (\<lambda>d. if draftKey d = k then addToBill a it d else d) xs)
              = map draftKey xs" for k a it xs
    by (induction xs) auto
  from assms show ?thesis
    by (elim billStep_Some) (simp add: keep del: map_map)
qed

lemma billLoop_keys:
  assumes "billLoop s m y now rand subs ds = Some ds'" and "distinct (map draftKey ds)"
  shows "distinct (map draftKey ds') \<and> set (map draftKey ds') = set (map draftKey ds) \<union> subKey ` set subs"
  using assms
proof (induction subs arbitrary: ds)
  case Nil
  then show ?case by simp
next
  case (Cons sub subs)
  from Cons.prems(1) obtain ds1 where st: "billStep s m y now rand sub ds = Some ds1"
    and lp: "billLoop s m y now rand subs ds1 = Some ds'"
    by (auto split: option.splits)
  have k1: "map draftKey ds1 = (if subKey sub \<in> draftKey ` set ds then map draftKey ds
                             else map draftKey ds @ [subKey sub])"
    by (rule billStep_keys[OF st])
  have d1: "distinct (map draftKey ds1)" using k1 Cons.prems(2) by (auto split: if_splits)
  from Cons.IH[OF lp d1] k1 show ?case by (auto split: if_splits)
qed

lemma find_append_if:
  "find P (xs @ ys) = (case find P xs of None \<Rightarrow> find P ys | Some x \<Rightarrow> Some x)"
  by (induction xs) auto

lemma find_map_keep:
  assumes "\<And>d. P (f d) = P d"
  shows "find P (map f xs) = map_option f (find P xs)"
  using assms by (induction xs) auto

lemma billStep_items:
  assumes "billStep s m y now rand sub ds = Some ds'"
  shows "draftItems k ds' = draftItems k ds @ (if subKey sub = k then itemFor s m y sub else [])"
proof -
  from assms obtain pub where pub: "findPublication s (sub_publicationId sub) = Some pub"
    and ds': "ds' = map (\<lambda>d. if draftKey d = subKey sub
                          then addToBill (pub_price pub * sub_quantity sub) (newItem sub pub m y) d
                          else d)
                 (if subKey sub \<in> draftKey ` set ds then ds
                  else ds @ [newBill sub m y now (rand (length ds))])"
    by (rule billStep_Some)
  let ?upd = "\<lambda>d. if draftKey d = subKey sub
                   then addToBill (pub_price pub * sub_quantity sub) (newItem sub pub m y) d else d"
  let ?ds1 = "if subKey sub \<in> draftKey ` set ds then ds
              else ds @ [newBill sub m y now (rand (length ds))]"
  have f: "find (\<lambda>d. draftKey d = k) ds' = map_option ?upd (find (\<lambda>d. draftKey d = k) ?ds1)"
    unfolding ds' by (rule find_map_keep) simp
  have items_upd: "draft_billItems (?upd d) =
        draft_billItems d @ (if subKey sub = draftKey d then itemFor s m y sub else [])" for d
    using pub by (simp add: itemFor_def addToBill_def)
  have key_found: "draftKey d = k" if "find (\<lambda>d. draftKey d = k) xs = Some d" for xs d
    using that by (auto dest: find_Some_iff[THEN iffD1])
  show ?thesis
  proof (cases "find (\<lambda>d. draftKey d = k) ?ds1")
    case None
    then have "k \<notin> draftKey ` set ?ds1" by (simp add: find_key_None)
    then have ne: "subKey sub \<noteq> k" and "k \<notin> draftKey ` set ds"
      by (auto split: if_splits)
    then have "find (\<lambda>d. draftKey d = k) ds = None" by (simp add: find_key_None)
    then show ?thesis using f None ne by (simp add: draftItems_def)
  next
    case (Some d)
    have kd: "draftKey d = k" using Some by (rule key_found)
    have ds'_items: "draftItems k ds' = draft_billItems d @ (if subKey sub = k then itemFor s m y sub else [])"
      using f Some items_upd[of d] kd by (simp add: draftItems_def)
    show ?thesis
    proof (cases "subKey sub \<in> draftKey ` set ds")
      case True
      then show ?thesis using ds'_items Some by (simp add: draftItems_def)
    next
      case False
      show ?thesis
      proof (cases "subKey sub = k")
        case True
        then have none: "find (\<lambda>d. draftKey d = k) ds = None" using False by (simp add: find_key_None)
        then have "d = newBill sub m y now (rand (length ds))"
          using Some False True by (simp add: find_append_if)
        then show ?thesis using ds'_items none True by (simp add: draftItems_def newBill_def)
      next
        case ne: False
        have "find (\<lambda>d. draftKey d = k) ds = Some d"
          using Some False ne by (auto simp: find_append_if split: option.splits)
        then show ?thesis using ds'_items ne by (simp add: draftItems_def)
      qed
    qed
  qed
qed

lemma billLoop_items:
  assumes "billLoop s m y now rand subs ds = Some ds'"
  shows "draftItems k ds' = draftItems k ds @ concat (map (itemFor s m y) (filter (\<lambda>sub. subKey sub = k) subs))"
  using assms
proof (induction subs arbitrary: ds)
  case Nil
  then show ?case by simp
next
  case (Cons sub subs)
  from Cons.prems(1) obtain ds1 where st: "billStep s m y now rand sub ds = Some ds1"
    and lp: "billLoop s m y now rand subs ds1 = Some ds'"
    by (auto split: option.splits)
  show ?case using Cons.IH[OF lp] billStep_items[OF st, of k] by simp
qed

lemma billLoop_publications:
  assumes "billLoop s m y now rand subs ds = Some ds'" and "sub \<in> set subs"
  shows "\<exists>pub. findPublication s (sub_publicationId sub) = Some pub"
  using assms
proof (induction subs arbitrary: ds)
  case Nil
  then show ?case by simp
next
  case (Cons a subs)
  from Cons.prems(1) obtain ds1 where st: "billStep s m y now rand a ds = Some ds1"
    and lp: "billLoop s m y now rand subs ds1 = Some ds'"
    by (auto split: option.splits)
  show ?case
  proof (cases "sub = a")
    case True
    then show ?thesis using st by (auto elim: billStep_Some)
  next
    case False
    then show ?thesis using Cons.IH[OF lp] Cons.prems(2) by simp
  qed
qed

lemma draftOK_newBill: "draftOK (newBill sub m y now sfx)"
  by (simp add: draftOK_def newBill_def)

lemma draftOK_addToBill:
  "draftOK d \<Longrightarrow> idr_totalPrice it = a \<Longrightarrow> draftOK (addToBill a it d)"
  by (simp add: draftOK_def addToBill_def)

lemma billStep_draftOK:
  assumes "billStep s m y now rand sub ds = Some ds'" and "\<forall>d \<in> set ds. draftOK d"
  shows "\<forall>d \<in> set ds'. draftOK d"
proof -
  from assms(1) obtain pub where ds': "ds' = map (\<lambda>d. if draftKey d = subKey sub
                          then addToBill (pub_price pub * sub_quantity sub) (newItem sub pub m y) d
                          else d)
                 (if subKey sub \<in> draftKey ` set ds then ds
                  else ds @ [newBill sub m y now (rand (length ds))])"
    by (rule billStep_Some)
  have it: "idr_totalPrice (newItem sub pub m y) = pub_price pub * sub_quantity sub"
    by (simp add: newItem_def)
  show ?thesis
    unfolding ds' using assms(2) draftOK_newBill draftOK_addToBill[OF _ it]
    by (auto split: if_splits)
qed

lemma billLoop_draftOK:
  assumes "billLoop s m y now rand subs ds = Some ds'" and "\<forall>d \<in> set ds. draftOK d"
  shows "\<forall>d \<in> set ds'. draftOK d"
  using assms
proof (induction subs arbitrary: ds)
  case Nil
  then show ?case by simp
next
  case (Cons sub subs)
  from Cons.prems(1) obtain ds1 where st: "billStep s m y now rand sub ds = Some ds1"
    and lp: "billLoop s m y now rand subs ds1 = Some ds'"
    by (auto split: option.splits)
  show ?case by (rule Cons.IH[OF lp billStep_draftOK[OF st Cons.prems(2)]])
qed

lemma draftItems_distinct:
  assumes "distinct (map draftKey ds)" and "d \<in> set ds"
  shows "draftItems (draftKey d) ds = draft_billItems d"
  using assms by (induction ds) (auto simp: draftItems_def)


subsection \<open>What a successful run wrote\<close>

lemma billOfDraft_Some:
  assumes "billOfDraft i d = Some c"
  shows "bill_id c = i" "billKey c = draftKey d" "bill_totalAmount c = draft_totalAmount d"
    "bill_outstandingAmount c = draft_outstandingAmount d" "Some (bill_dueDate c) = draft_dueDate d"
    "bill_status c = draft_status d"
  using assms by (auto simp: billOfDraft_def billKey_def draftKey_def split: option.splits)

lemma billItemOfDraft_Some:
  assumes "billItemOfDraft i p = Some it"
  shows "bi_billId it = fst p" "bi_publicationId it = idr_publicationId (snd p)"
    "bi_quantity it = idr_quantity (snd p)" "bi_unitPrice it = idr_unitPrice (snd p)"
    "bi_totalPrice it = idr_totalPrice (snd p)"
  using assms by (auto simp: billItemOfDraft_def split: option.splits)

lemma generateBills_Created:
  assumes "generateBills s user m y now rand = (Created201, s')"
  shows "\<exists>drafts created items.
    billLoop s m y now rand (billedSubscriptions s user) [] = Some drafts
    \<and> map2 billOfDraft [nextId s ..< nextId s + length drafts] drafts = map Some created
    \<and> bills s' = bills s @ created
    \<and> map2 billItemOfDraft
        [nextId s + length drafts ..< nextId s + length drafts
           + length (concat (map2 (\<lambda>c d. map (Pair (bill_id c)) (draft_billItems d)) created drafts))]
        (concat (map2 (\<lambda>c d. map (Pair (bill_id c)) (draft_billItems d)) created drafts))
      = map Some items
    \<and> billItems s' = billItems s @ items"
  using assms unfolding generateBills_def createBills_def createBillItems_def billedSubscriptions_def
  by (auto simp: Let_def split: option.splits if_splits dest!: those_Some_map)

lemma itemFor_rel:
  assumes "\<forall>sub \<in> set grp. \<exists>pub. findPublication s (sub_publicationId sub) = Some pub"
  shows "list_all2 (\<lambda>dr sub. \<exists>pub. findPublication s (sub_publicationId sub) = Some pub
                                 \<and> dr = newItem sub pub m y)
           (concat (map (itemFor s m y) grp)) grp"
  using assms by (induction grp) (auto simp: itemFor_def)

lemma findPublication_id: "findPublication s i = Some pub \<Longrightarrow> pub_id pub = i"
  by (auto simp: findPublication_def dest: find_Some_iff[THEN iffD1])

lemma tagged_fst_subset:
  "fst ` set (concat (map2 (\<lambda>c d. map (Pair (t c)) (g d)) cs ds)) \<subseteq> t ` set cs"
  by (auto dest: set_zip_leftD)

subsection \<open>The example run\<close>

lemmas model_defs =
  generateBills_def managedAreaIds_def activeSubscriptionsIn_def billStep_def subKey_def
  draftKey_def newBill_def newItem_def addToBill_def findPublication_def createBills_def
  billOfDraft_def createBillItems_def billItemOfDraft_def jsDate_def makeDay_def
  daysFromCivil_def msPerDay_def showInt_def showNat.simps padStart2_def Let_def upt_rec

lemmas example_defs =
  billingStore_def emptyStore_def area3_def area4_def pub20_def pub21_def mkSub_def suffixes_def

lemma billingStore_run:
  "generateBills billingStore 1 6 2024 1000 suffixes = (Created201, billedStore)"
  by (simp add: model_defs example_defs billedStore_def)

lemma generateBills_run_facts:
  assumes "generateBills s user month year now rand = (Created201, s')"
  shows "bills s' = bills s @ newBills s s'
       \<and> billItems s' = billItems s @ newBillItems s s'
       \<and> distinct (map bill_id (newBills s s'))
       \<and> distinct (map billKey (newBills s s'))
       \<and> set (map billKey (newBills s s')) = set (map subKey (billedSubscriptions s user))
       \<and> set (map bi_billId (newBillItems s s')) \<subseteq> set (map bill_id (newBills s s'))
       \<and> (\<forall>b \<in> set (newBills s s').
            list_all2 (itemMatches s) (itemsOfBill (newBillItems s s') b)
               (filter (\<lambda>sub. subKey sub = billKey b) (billedSubscriptions s user))
            \<and> sum_list (map bi_totalPrice (itemsOfBill (newBillItems s s') b)) = bill_totalAmount b
            \<and> bill_totalAmount b = bill_outstandingAmount b)"
proof -
  let ?subs = "billedSubscriptions s user"
  from generateBills_Created[OF assms] obtain drafts created items where
    loop: "billLoop s month year now rand ?subs [] = Some drafts"
    and cr: "map2 billOfDraft [nextId s ..< nextId s + length drafts] drafts = map Some created"
    and bs: "bills s' = bills s @ created"
    and its': "map2 billItemOfDraft
        [nextId s + length drafts ..< nextId s + length drafts
           + length (concat (map2 (\<lambda>c d. map (Pair (bill_id c)) (draft_billItems d)) created drafts))]
        (concat (map2 (\<lambda>c d. map (Pair (bill_id c)) (draft_billItems d)) created drafts))
      = map Some items"
    and bis: "billItems s' = billItems s @ items"
    by blast
  let ?all = "concat (map2 (\<lambda>c d. map (Pair (bill_id c)) (draft_billItems d)) created drafts)"
  have nb: "newBills s s' = created" by (simp add: newBills_def bs)
  have ni: "newBillItems s s' = items" by (simp add: newBillItems_def bis)
  have ids: "map bill_id created = [nextId s ..< nextId s + length drafts]"
    using cr by (rule map2_upt_ids) (rule billOfDraft_Some(1))
  have rel: "list_all2 (\<lambda>c d. \<exists>i. billOfDraft i d = Some c) created drafts"
    using cr by (rule map2_upt_rel)
  have len: "length created = length drafts" using rel by (rule list_all2_lengthD)
  have keys_eq: "map billKey created = map draftKey drafts"
    unfolding map_eq_list_all2
    by (rule list_all2_mono[OF rel]) (auto dest: billOfDraft_Some(2))
  have dk: "distinct (map draftKey drafts)"
    and sk: "set (map draftKey drafts) = subKey ` set ?subs"
    using billLoop_keys[OF loop] by simp_all
  have ok: "\<forall>d \<in> set drafts. draftOK d"
    using billLoop_draftOK[OF loop] by simp
  have dist_ids: "distinct (map bill_id created)" by (simp add: ids)
  have irel: "list_all2 (\<lambda>it p. \<exists>i. billItemOfDraft i p = Some it) items ?all"
    using its' by (rule map2_upt_rel)
  have item_ids: "set (map bi_billId items) \<subseteq> set (map bill_id created)"
  proof -
    have "map bi_billId items = map fst ?all"
      unfolding map_eq_list_all2
      by (rule list_all2_mono[OF irel]) (auto dest: billItemOfDraft_Some(1))
    then have "set (map bi_billId items) = fst ` set ?all" by (metis set_map)
    also have "\<dots> \<subseteq> bill_id ` set created" by (rule tagged_fst_subset)
    finally show ?thesis by simp
  qed
  have per_bill: "list_all2 (itemMatches s) (itemsOfBill items b)
               (filter (\<lambda>sub. subKey sub = billKey b) ?subs)
            \<and> sum_list (map bi_totalPrice (itemsOfBill items b)) = bill_totalAmount b
            \<and> bill_totalAmount b = bill_outstandingAmount b"
    if b: "b \<in> set created" for b
  proof -
    from b obtain k where k: "k < length created" "created ! k = b"
      by (auto simp: in_set_conv_nth)
    define d where "d = drafts ! k"
    have zd: "(b, d) \<in> set (zip created drafts)"
      using k len by (auto simp: in_set_zip d_def)
    have dd: "d \<in> set drafts" using k len by (simp add: d_def)
    from rel k obtain i where bd: "billOfDraft i d = Some b"
      by (auto simp: list_all2_conv_all_nth d_def)
    have fl: "filter (\<lambda>p. fst p = bill_id b) ?all = map (Pair (bill_id b)) (draft_billItems d)"
      using len dist_ids zd by (rule filter_concat_tagged)
    have "list_all2 (\<lambda>it p. \<exists>i. billItemOfDraft i p = Some it)
            (filter (\<lambda>it. bi_billId it = bill_id b) items) (filter (\<lambda>p. fst p = bill_id b) ?all)"
      using irel by (rule list_all2_filter_rel) (auto dest: billItemOfDraft_Some(1))
    then have r1: "list_all2 (\<lambda>it dr. \<exists>i. billItemOfDraft i (bill_id b, dr) = Some it)
            (itemsOfBill items b) (draft_billItems d)"
      by (simp add: fl itemsOfBill_def list_all2_map2)
    let ?grp = "filter (\<lambda>sub. subKey sub = billKey b) ?subs"
    have kb: "billKey b = draftKey d" using bd by (rule billOfDraft_Some(2))
    have "draft_billItems d = draftItems (draftKey d) drafts"
      using dk dd by (rule draftItems_distinct[symmetric])
    also have "\<dots> = concat (map (itemFor s month year) ?grp)"
      using billLoop_items[OF loop, of "draftKey d"] by (simp add: draftItems_def kb)
    finally have di: "draft_billItems d = concat (map (itemFor s month year) ?grp)" .
    have "\<forall>sub \<in> set ?grp. \<exists>pub. findPublication s (sub_publicationId sub) = Some pub"
      using billLoop_publications[OF loop] by simp
    then have r2: "list_all2 (\<lambda>dr sub. \<exists>pub. findPublication s (sub_publicationId sub) = Some pub
                                 \<and> dr = newItem sub pub month year) (draft_billItems d) ?grp"
      unfolding di by (rule itemFor_rel)
    have m: "list_all2 (itemMatches s) (itemsOfBill items b) ?grp"
    proof (rule list_all2_trans[OF _ r1 r2])
      fix it dr sub
      assume a1: "\<exists>i. billItemOfDraft i (bill_id b, dr) = Some it"
        and a2: "\<exists>pub. findPublication s (sub_publicationId sub) = Some pub \<and> dr = newItem sub pub month year"
      from a1 obtain i where i: "billItemOfDraft i (bill_id b, dr) = Some it" by blast
      from a2 obtain pub where pub: "findPublication s (sub_publicationId sub) = Some pub"
        and dr: "dr = newItem sub pub month year" by blast
      show "itemMatches s it sub"
        using billItemOfDraft_Some[OF i] pub findPublication_id[OF pub]
        by (simp add: itemMatches_def dr newItem_def mult.commute)
    qed
    have "map bi_totalPrice (itemsOfBill items b) = map idr_totalPrice (draft_billItems d)"
      unfolding map_eq_list_all2
      by (rule list_all2_mono[OF r1]) (auto dest: billItemOfDraft_Some(5))
    then have "sum_list (map bi_totalPrice (itemsOfBill items b)) = draft_totalAmount d"
      using ok dd by (simp add: draftOK_def)
    moreover have "draft_outstandingAmount d = draft_totalAmount d"
      using ok dd by (simp add: draftOK_def)
    ultimately show ?thesis
      using m billOfDraft_Some(3,4)[OF bd] by simp
  qed
  show ?thesis
    unfolding nb ni
    using bs bis dist_ids dk sk keys_eq item_ids per_bill by (simp add: nb ni)
qed

lemma billedSubscriptions_spec: "billedSubscriptions s user = activeInManagedAreas s user"
  unfolding billedSubscriptions_def activeSubscriptionsIn_def activeInManagedAreas_def
    managesArea_def managedAreaIds_def
  by (rule filter_cong) (auto simp: list_ex_iff split: option.splits)



section \<open>The Bill invariant\<close>

lemma generateBills_not_Created:
  assumes "generateBills s user m y now rand = (r, s')" and "r \<noteq> Created201"
  shows "s' = s"
  using assms unfolding generateBills_def
  by (auto simp: Let_def split: option.splits if_splits)

lemma makePayment_not_Created:
  assumes "makePayment s user billId amount pm ref now = (r, s')" and "r \<noteq> Created201"
  shows "s' = s"
  using assms unfolding makePayment_def
  by (auto simp: Let_def split: option.splits if_splits)

lemma applyPayment_invariant:
  assumes "billInvariant b" and "0 \<le> amount"
  shows "billInvariant (applyPayment amount b)"
  using assms by (auto simp: billInvariant_def applyPayment_def Let_def max_def)

lemma list_all2_transfer_left:
  assumes "list_all2 R xs ys" and "\<forall>y \<in> set ys. Q y" and "\<And>x y. R x y \<Longrightarrow> Q y \<Longrightarrow> P x"
  shows "\<forall>x \<in> set xs. P x"
  using assms by (induction rule: list_all2_induct) auto

lemma itemMatches_nonneg:
  assumes "itemMatches s it sub" and "nonNegativeLine s sub"
  shows "0 \<le> bi_totalPrice it"
proof -
  from assms have "0 \<le> bi_quantity it" and "0 \<le> bi_unitPrice it"
    and "bi_totalPrice it = bi_quantity it * bi_unitPrice it"
    by (auto simp: itemMatches_def nonNegativeLine_def split: option.splits)
  then show ?thesis by simp
qed

lemma generateBills_run_bills:
  assumes "generateBills s user m y now rand = (Created201, s')"
  shows "bills s' = bills s @ newBills s s'"
  using generateBills_run_facts[OF assms] by (elim conjE)

lemma generateBills_run_per_bill:
  assumes "generateBills s user m y now rand = (Created201, s')"
  shows "\<forall>b \<in> set (newBills s s').
            list_all2 (itemMatches s) (itemsOfBill (newBillItems s s') b)
               (filter (\<lambda>sub. subKey sub = billKey b) (billedSubscriptions s user))
            \<and> sum_list (map bi_totalPrice (itemsOfBill (newBillItems s s') b)) = bill_totalAmount b
            \<and> bill_totalAmount b = bill_outstandingAmount b"
  using generateBills_run_facts[OF assms] by (elim conjE)

lemma generateBills_invariant:
  assumes "list_all billInvariant (bills s)" and "nonNegativeLines s user"
    and "generateBills s user m y now rand = (r, s')"
  shows "list_all billInvariant (bills s')"
proof (cases "r = Created201")
  case False
  with assms(3) have "s' = s" by (rule generateBills_not_Created)
  then show ?thesis using assms(1) by simp
next
  case True
  with assms(3) have run: "generateBills s user m y now rand = (Created201, s')" by simp
  have bs: "bills s' = bills s @ newBills s s'" using run by (rule generateBills_run_bills)
  have "billInvariant b" if b: "b \<in> set (newBills s s')" for b
  proof -
    let ?its = "itemsOfBill (newBillItems s s') b"
    let ?grp = "filter (\<lambda>sub. subKey sub = billKey b) (billedSubscriptions s user)"
    from generateBills_run_per_bill[OF run] b
    have all3: "list_all2 (itemMatches s) ?its ?grp
       \<and> sum_list (map bi_totalPrice ?its) = bill_totalAmount b
       \<and> bill_totalAmount b = bill_outstandingAmount b"
      by (rule bspec)
    have m: "list_all2 (itemMatches s) ?its ?grp" using all3 by (rule conjunct1)
    have sm: "sum_list (map bi_totalPrice ?its) = bill_totalAmount b"
      using all3 by (elim conjE)
    have eq: "bill_totalAmount b = bill_outstandingAmount b"
      using all3 by (elim conjE)
    have nn: "\<forall>sub \<in> set ?grp. nonNegativeLine s sub"
      using assms(2) by (simp add: nonNegativeLines_def list_all_iff)
    have "\<forall>it \<in> set ?its. 0 \<le> bi_totalPrice it"
      using m nn
    proof (rule list_all2_transfer_left)
      fix x y assume "itemMatches s x y" and "nonNegativeLine s y"
      then show "0 \<le> bi_totalPrice x" by (rule itemMatches_nonneg)
    qed
    then have "0 \<le> sum_list (map bi_totalPrice ?its)"
      by (intro sum_list_nonneg) auto
    then show ?thesis using sm eq by (simp add: billInvariant_def)
  qed
  then have "\<forall>b \<in> set (bills s @ newBills s s'). billInvariant b"
    using assms(1) by (auto simp: list_all_iff)
  then show ?thesis by (simp add: list_all_iff bs)
qed


lemma generateBills_outstanding_total:
  assumes "generateBills s user m y now rand = (r, s')"
  shows "list_all (\<lambda>b. bill_outstandingAmount b = bill_totalAmount b) (newBills s s')"
proof (cases "r = Created201")
  case False
  with assms have "s' = s" by (rule generateBills_not_Created)
  then show ?thesis by (simp add: newBills_def)
next
  case True
  with assms have run: "generateBills s user m y now rand = (Created201, s')" by simp
  from generateBills_run_per_bill[OF run] show ?thesis by (simp add: list_all_iff)
qed

lemma makePayment_invariant:
  assumes "list_all billInvariant (bills s)" and "0 \<le> amount"
    and "makePayment s user billId amount pm ref now = (r, s')"
  shows "list_all billInvariant (bills s')"
proof (cases "r = Created201")
  case False
  with assms(3) have "s' = s" by (rule makePayment_not_Created)
  then show ?thesis using assms(1) by simp
next
  case True
  with assms(3) have run: "makePayment s user billId amount pm ref now = (Created201, s')" by simp
  show ?thesis
  proof (rule makePayment_Created[OF run])
    fix b
    assume bs: "bills s' = map (\<lambda>x. if bill_id x = bill_id b then applyPayment amount x else x) (bills s)"
    have "\<forall>x \<in> set (bills s). billInvariant x" using assms(1) by (simp add: list_all_iff)
    then have "list_all (\<lambda>x. billInvariant (if bill_id x = bill_id b then applyPayment amount x else x))
            (bills s)"
      using assms(2) by (simp add: applyPayment_invariant list_all_iff)
    then show ?thesis unfolding bs by (simp add: list.pred_map comp_def)
  qed
qed

lemma rebateStore_run:
  "generateBills rebateStore 1 6 2024 1000 suffixes =
     (Created201, rebateStore\<lparr>
        bills := [\<lparr>bill_id = 100, bill_userId = 10, bill_billDate = 1000, bill_billMonth = 6,
          bill_billYear = 2024, bill_totalAmount = - 5, bill_dueDate = 1721001600000,
          bill_status = Unpaid, bill_areaId = Some 3, bill_billNumber = ''BILL-202406-A1B2C3'',
          bill_outstandingAmount = - 5\<rparr>],
        billItems := [\<lparr>bi_id = 101, bi_billId = 100, bi_publicationId = 20, bi_quantity = 1,
          bi_unitPrice = - 5, bi_totalPrice = - 5, bi_from = 1717200000000,
          bi_to = 1719705600000\<rparr>],
        nextId := 102\<rparr>)"
  by (simp add: model_defs rebateStore_def emptyStore_def area3_def mkSub_def suffixes_def)

text \<open>
  C6 (as the code has it). generateBills gives every bill it creates an outstandingAmount
  equal to its totalAmount; when every billed subscription has a non-negative quantity and
  a publication with a non-negative price (neither is validated), a billing run keeps
  0 \<le> outstandingAmount \<le> totalAmount on all bills of the database; and makePayment
  with an amount of at least 0 keeps it on all bills, whatever it answers.
\<close>

theorem bill_invariant_preserved:
  assumes "list_all billInvariant (bills s)"
  shows "list_all (\<lambda>b. bill_outstandingAmount b = bill_totalAmount b)
           (newBills s (snd (generateBills s user month year now rand)))
       \<and> (nonNegativeLines s user \<longrightarrow>
            list_all billInvariant (bills (snd (generateBills s user month year now rand))))
       \<and> (0 \<le> amount \<longrightarrow>
            list_all billInvariant (bills (snd (makePayment s customer billId amount pm ref now))))"
proof -
  obtain r1 s1 where g: "generateBills s user month year now rand = (r1, s1)"
    by (cases "generateBills s user month year now rand")
  obtain r2 s2 where p: "makePayment s customer billId amount pm ref now = (r2, s2)"
    by (cases "makePayment s customer billId amount pm ref now")
  have "list_all (\<lambda>b. bill_outstandingAmount b = bill_totalAmount b) (newBills s s1)"
    using g by (rule generateBills_outstanding_total)
  moreover have "list_all billInvariant (bills s1)" if "nonNegativeLines s user"
    using assms that g by (rule generateBills_invariant)
  moreover have "list_all billInvariant (bills s2)" if "0 \<le> amount"
    using assms that p by (rule makePayment_invariant)
  ultimately show ?thesis by (simp add: g p)
qed

theorem bill_invariant_preserved_witness:
  "list_all billInvariant (bills billedStore) \<and> nonNegativeLines billedStore 1
   \<and> fst (generateBills billedStore 1 7 2024 2000 suffixes) = Created201
   \<and> list_all billInvariant (bills (snd (generateBills billedStore 1 7 2024 2000 suffixes)))
   \<and> fst (makePayment billedStore 10 100 200 ''Cash'' None 2000) = Created201
   \<and> list_all billInvariant (bills (snd (makePayment billedStore 10 100 200 ''Cash'' None 2000)))"
proof -
  have h1: "list_all billInvariant (bills billedStore)"
    by (simp add: billedStore_def billingStore_def emptyStore_def billInvariant_def)
  have h2: "nonNegativeLines billedStore 1"
    by (simp add: nonNegativeLines_def nonNegativeLine_def billedSubscriptions_def
          managedAreaIds_def activeSubscriptionsIn_def findPublication_def billedStore_def
          example_defs)
  have h3: "(0::rat) \<le> 200" by simp
  have r1: "fst (generateBills billedStore 1 7 2024 2000 suffixes) = Created201"
    by (simp add: model_defs billedStore_def example_defs)
  have r2: "fst (makePayment billedStore 10 100 200 ''Cash'' None 2000) = Created201"
    by (simp add: makePayment_def parsePaymentMethod_def showInt_def showNat.simps Let_def
          billedStore_def example_defs)
  from bill_invariant_preserved [where s = billedStore and user = 1 and month = 7
      and year = 2024 and now = 2000 and rand = suffixes and amount = 200 and customer = 10
      and billId = 100 and pm = "''Cash''" and ref = None, OF h1]
    h1 h2 h3 r1 r2
  show ?thesis by simp
qed

text \<open>
  The claim as the specification states it fails: a publication with a negative price is
  billed to a total and an outstanding amount of -5.
\<close>

theorem bill_invariant_counterexample:
  "list_all billInvariant (bills rebateStore)
   \<and> fst (generateBills rebateStore 1 6 2024 1000 suffixes) = Created201
   \<and> map bill_outstandingAmount (bills (snd (generateBills rebateStore 1 6 2024 1000 suffixes))) = [- 5]
   \<and> \<not> list_all billInvariant (bills (snd (generateBills rebateStore 1 6 2024 1000 suffixes)))"
  unfolding rebateStore_run
  by (simp add: rebateStore_def emptyStore_def billInvariant_def)

section \<open>The due date\<close>

lemma civilDate_due: "civilDate 1721001600000 = (2024, 7, 15)"
  by code_simp

text \<open>
  C8. The billing run of June 2024 (month = 6, year = 2024) on the example database gives
  both bills the due date \<open>new Date(2024, 6, 15)\<close>, which reads back as 15 July 2024:
  the month index of \<open>Date\<close> counts from 0, so the due date is the 15th of the month
  after the billing month.
\<close>

theorem generateBills_dueDate_next_month:
  "fst (generateBills billingStore 1 6 2024 1000 suffixes) = Created201
   \<and> map (\<lambda>b. civilDate (bill_dueDate b))
        (newBills billingStore (snd (generateBills billingStore 1 6 2024 1000 suffixes)))
      = [(2024, 7, 15), (2024, 7, 15)]"
  unfolding billingStore_run
  by (simp add: newBills_def billedStore_def billingStore_def emptyStore_def civilDate_due)

section \<open>updateDeliveryStatus\<close>

lemma parseTargetStatus_terminal: "parseTargetStatus status = Some st \<Longrightarrow> st \<noteq> ItemPending"
  by (auto simp: parseTargetStatus_def split: if_splits)

lemma updateDeliveryStatus_result:
  "updateDeliveryStatus s dp i status notes now =
     (case parseTargetStatus status of
        None \<Rightarrow> (BadRequest400, s)
      | Some st \<Rightarrow>
          (case findItem s i of
             None \<Rightarrow> (NotFound404, s)
           | Some item \<Rightarrow>
               if ownsItem s dp item
               then (OK200,
                     s\<lparr>deliveryItems :=
                         map (\<lambda>x. if item_id x = item_id item
                                   then x\<lparr>item_status := st, item_deliveryNotes := notes,
                                          item_deliveryTime := Some now\<rparr>
                                   else x) (deliveryItems s)\<rparr>)
               else (Forbidden403, s)))"
  unfolding updateDeliveryStatus_def findItem_def ownsItem_def list_ex_find
  by (auto split: option.splits)

lemma findItem_updated:
  assumes "findItem s i = Some item" and that: "\<And>x. item_id (f x) = item_id x"
  shows "findItem (s\<lparr>deliveryItems :=
                         map (\<lambda>x. if item_id x = item_id item then f x else x) (deliveryItems s)\<rparr>) i
         = Some (f item)"
proof -
  have "find (\<lambda>x. item_id x = i)
          (map (\<lambda>y. if item_id y = item_id item then f y else y) (deliveryItems s))
        = Some (if item_id item = item_id item then f item else item)"
    by (rule find_map_update) (use assms that in \<open>simp_all add: findItem_def\<close>)
  then show ?thesis by (simp add: findItem_def)
qed

text \<open>
  C10 (as the code has it). updateDeliveryStatus accepts an update (200) exactly when the
  new status is Delivered, Failed or Skipped, the item exists and it belongs to one of
  the caller's schedules: the item's current status plays no part. An accepted update
  stores the requested status, notes and time; no item returns to Pending; every other
  answer leaves the database unchanged.
\<close>

theorem updateDeliveryStatus_overwrites:
  assumes "updateDeliveryStatus s dp i status notes now = (r, s')"
  shows "(r = OK200 \<longleftrightarrow>
           (\<exists>st item. parseTargetStatus status = Some st \<and> findItem s i = Some item
              \<and> ownsItem s dp item))
       \<and> (r = OK200 \<longrightarrow>
           (\<exists>st item. parseTargetStatus status = Some st \<and> st \<noteq> ItemPending
              \<and> findItem s i = Some item
              \<and> findItem s' i = Some (item\<lparr>item_status := st, item_deliveryNotes := notes,
                                             item_deliveryTime := Some now\<rparr>)))
       \<and> (r \<noteq> OK200 \<longrightarrow> s' = s)"
proof (cases "parseTargetStatus status")
  case None
  then show ?thesis using assms by (simp add: updateDeliveryStatus_result)
next
  case (Some st)
  note st = this
  show ?thesis
  proof (cases "findItem s i")
    case None
    then show ?thesis using assms st by (simp add: updateDeliveryStatus_result)
  next
    case (Some item)
    note it = this
    show ?thesis
    proof (cases "ownsItem s dp item")
      case False
      then show ?thesis using assms st it by (simp add: updateDeliveryStatus_result)
    next
      case True
      have r: "r = OK200"
        and s': "s' = s\<lparr>deliveryItems :=
                         map (\<lambda>x. if item_id x = item_id item
                                   then x\<lparr>item_status := st, item_deliveryNotes := notes,
                                          item_deliveryTime := Some now\<rparr>
                                   else x) (deliveryItems s)\<rparr>"
        using assms st it True by (simp_all add: updateDeliveryStatus_result)
      have "findItem s' i = Some (item\<lparr>item_status := st, item_deliveryNotes := notes,
                                             item_deliveryTime := Some now\<rparr>)"
        unfolding s' by (rule findItem_updated [OF it]) simp
      then show ?thesis using r st it True parseTargetStatus_terminal[OF st] by simp
    qed
  qed
qed

lemmas delivery_defs = deliveredStore_def deliveryStore_def addr40_def
  deliverer5_def deliverer6_def route8_def schedule50_def item60_def

theorem updateDeliveryStatus_overwrites_witness:
  "findItem deliveredStore 60 = Some item60 \<and> item_status item60 = Delivered
   \<and> ownsItem deliveredStore (Some 5) item60
   \<and> fst (updateDeliveryStatus deliveredStore (Some 5) 60 ''Failed'' None 5000) = OK200
   \<and> findItem failedStore 60
       = Some (item60\<lparr>item_status := Failed, item_deliveryNotes := None,
                     item_deliveryTime := Some 5000\<rparr>)
   \<and> fst (updateDeliveryStatus failedStore (Some 5) 60 ''Skipped'' (Some ''nobody home'') 6000) = OK200
   \<and> findItem (snd (updateDeliveryStatus failedStore (Some 5) 60 ''Skipped'' (Some ''nobody home'') 6000)) 60
       = Some (item60\<lparr>item_status := Skipped, item_deliveryNotes := Some ''nobody home'',
                     item_deliveryTime := Some 6000\<rparr>)
   \<and> \<not> ownsItem deliveredStore (Some 6) item60
   \<and> updateDeliveryStatus deliveredStore (Some 6) 60 ''Skipped'' None 5000
       = (Forbidden403, deliveredStore)"
proof -
  have f: "findItem deliveredStore 60 = Some item60"
    by (simp add: findItem_def delivery_defs example_defs)
  have o5: "ownsItem deliveredStore (Some 5) item60"
    by (simp add: ownsItem_def delivery_defs example_defs)
  have o6: "\<not> ownsItem deliveredStore (Some 6) item60"
    by (simp add: ownsItem_def delivery_defs example_defs)
  have pF: "parseTargetStatus ''Failed'' = Some Failed"
    and pS: "parseTargetStatus ''Skipped'' = Some Skipped"
    by (simp_all add: parseTargetStatus_def)
  obtain r1 s1 where r1: "updateDeliveryStatus deliveredStore (Some 5) 60 ''Failed'' None 5000 = (r1, s1)"
    by (cases "updateDeliveryStatus deliveredStore (Some 5) 60 ''Failed'' None 5000")
  have s1: "failedStore = s1" by (simp add: failedStore_def r1)
  from updateDeliveryStatus_overwrites[OF r1] pF f o5
  have a: "r1 = OK200"
    and b: "findItem s1 60 = Some (item60\<lparr>item_status := Failed, item_deliveryNotes := None,
                     item_deliveryTime := Some 5000\<rparr>)"
    by auto
  have sch: "schedules s1 = schedules deliveredStore"
    using r1 by (auto simp: updateDeliveryStatus_result split: option.splits if_splits)
  have o5': "ownsItem s1 (Some 5) (item60\<lparr>item_status := Failed, item_deliveryNotes := None,
                     item_deliveryTime := Some 5000\<rparr>)"
    using o5 by (simp add: ownsItem_def sch)
  obtain r2 s2 where r2: "updateDeliveryStatus s1 (Some 5) 60 ''Skipped'' (Some ''nobody home'') 6000 = (r2, s2)"
    by (cases "updateDeliveryStatus s1 (Some 5) 60 ''Skipped'' (Some ''nobody home'') 6000")
  from updateDeliveryStatus_overwrites[OF r2] pS b o5'
  have c: "r2 = OK200"
    and d: "findItem s2 60 = Some (item60\<lparr>item_status := Skipped, item_deliveryNotes := Some ''nobody home'',
                     item_deliveryTime := Some 6000\<rparr>)"
    by auto
  obtain r3 s3 where r3: "updateDeliveryStatus deliveredStore (Some 6) 60 ''Skipped'' None 5000 = (r3, s3)"
    by (cases "updateDeliveryStatus deliveredStore (Some 6) 60 ''Skipped'' None 5000")
  have r3F: "r3 = Forbidden403"
    using r3 pS f o6 by (simp add: updateDeliveryStatus_result)
  from updateDeliveryStatus_overwrites[OF r3] r3F have e: "s3 = deliveredStore" by simp
  have st: "item_status item60 = Delivered" by (simp add: item60_def)
  show ?thesis
    using f st o5 o6 a b c d e r3F by (simp add: s1 r1 r2 r3)
qed

text \<open>
  The claim as the specification states it fails: an item that is Delivered becomes
  Failed by a later update.
\<close>

theorem updateDeliveryStatus_terminal_counterexample:
  "map item_status (deliveryItems deliveredStore) = [Delivered]
   \<and> fst (updateDeliveryStatus deliveredStore (Some 5) 60 ''Failed'' None 5000) = OK200
   \<and> map item_status (deliveryItems (snd (updateDeliveryStatus deliveredStore (Some 5) 60 ''Failed'' None 5000)))
       = [Failed]"
  by (simp add: updateDeliveryStatus_def parseTargetStatus_def delivery_defs example_defs)

section \<open>createSchedule\<close>

lemma findAddress_id: "findAddress s i = Some a \<Longrightarrow> addr_id a = i"
  by (auto simp: findAddress_def dest: find_SomeD)

lemma activeInArea_query: "activeSubscriptionsIn s [aid] = activeInArea s aid"
  unfolding activeSubscriptionsIn_def activeInArea_def
  by (rule filter_cong) (auto split: option.splits)

lemma managesArea_query: "managesArea s user areaId \<longleftrightarrow> findManagedArea s areaId user \<noteq> None"
  by (simp add: managesArea_def findManagedArea_def list_ex_find)

lemma deliveryItemOf_Some:
  assumes "deliveryItemOf s1 (sched_id schedule) i sub = Some it" and "sub_quantity sub \<noteq> 0"
  shows "itemOfSubscription schedule it sub"
  using assms
  by (auto simp: deliveryItemOf_def itemOfSubscription_def split: option.splits
           dest: findAddress_id findPublication_id)

lemma deliveryItemOf_None:
  "deliveryItemOf s sid i sub = None \<longleftrightarrow> \<not> deliverable s sub"
  by (auto simp: deliveryItemOf_def deliverable_def split: option.splits)

lemma those_map2_None:
  assumes "length ns = length xs" and "\<And>n x. f n x = None \<longleftrightarrow> \<not> P x"
  shows "those (map2 f ns xs) = None \<longleftrightarrow> \<not> list_all P xs"
  using assms(1)
proof (induction ns xs rule: list_induct2)
  case Nil
  then show ?case by simp
next
  case (Cons n ns x xs)
  then show ?case using assms(2)[of n x]
    by (cases "f n x") (auto split: option.splits)
qed

lemma writeSchedule_cases:
  assumes run: "writeSchedule s pid aid rid d notes fault = (r, s')"
    and q: "nonZeroQuantities s"
  shows "(r = Created201 \<longleftrightarrow>
            list_all (deliverable s) (activeInArea s aid)
            \<and> fault \<noteq> ScheduleWriteFails \<and> fault \<noteq> ScheduleCommitFails
            \<and> (fault = ItemWriteFails \<longrightarrow> activeInArea s aid = []))
       \<and> (r = Created201 \<longrightarrow>
          (\<exists>schedule items.
             schedules s' = schedules s @ [schedule]
             \<and> sched_status schedule = SchedPending
             \<and> sched_areaId schedule = Some aid
             \<and> deliveryItems s' = deliveryItems s @ items
             \<and> list_all2 (itemOfSubscription schedule) items (activeInArea s aid)))
       \<and> (r \<noteq> Created201 \<longrightarrow> s' = s)"
proof (cases "fault = ScheduleWriteFails")
  case True
  then show ?thesis using run by (simp add: writeSchedule_def)
next
  case nf: False
  define schedule where "schedule = \<lparr>sched_id = nextId s, sched_personnelId = pid, sched_date = d,
                    sched_status = SchedPending, sched_areaId = Some aid,
                    sched_routeId = Some rid, sched_notes = notes\<rparr>"
  define s1 where "s1 = s\<lparr>schedules := schedules s @ [schedule], nextId := nextId s + 1\<rparr>"
  define subs where "subs = activeSubscriptionsIn s1 [aid]"
  define created where "created = those (map2 (deliveryItemOf s1 (sched_id schedule))
                       [nextId s1 ..< nextId s1 + length subs] subs)"
  have "writeSchedule s pid aid rid d notes fault =
      (if fault = ScheduleWriteFails then (Internal500, s)
       else
      (case created of
         None \<Rightarrow> (Internal500, s)
       | Some items \<Rightarrow>
           if (items \<noteq> [] \<and> fault = ItemWriteFails) \<or> fault = ScheduleCommitFails
           then (Internal500, s)
           else (Created201, s1\<lparr>deliveryItems := deliveryItems s1 @ items,
                           nextId := nextId s1 + length subs\<rparr>)))"
    unfolding writeSchedule_def Let_def created_def subs_def s1_def schedule_def ..
  with nf have w: "writeSchedule s pid aid rid d notes fault =
      (case created of
         None \<Rightarrow> (Internal500, s)
       | Some items \<Rightarrow>
           if (items \<noteq> [] \<and> fault = ItemWriteFails) \<or> fault = ScheduleCommitFails
           then (Internal500, s)
           else (Created201, s1\<lparr>deliveryItems := deliveryItems s1 @ items,
                           nextId := nextId s1 + length subs\<rparr>))"
    by simp
  have subs: "subs = activeInArea s aid"
    unfolding subs_def activeInArea_query by (simp add: s1_def activeInArea_def)
  have none: "created = None \<longleftrightarrow> \<not> list_all (deliverable s) subs"
  proof -
    have "created = None \<longleftrightarrow> \<not> list_all (deliverable s1) subs"
      unfolding created_def by (rule those_map2_None) (simp_all add: deliveryItemOf_None)
    moreover have "deliverable s1 = deliverable s"
      by (simp add: fun_eq_iff deliverable_def findAddress_def findPublication_def s1_def)
    ultimately show ?thesis by simp
  qed
  show ?thesis
  proof (cases created)
    case None
    then show ?thesis using run w none subs by simp
  next
    case (Some items)
    have m: "map2 (deliveryItemOf s1 (sched_id schedule))
               [nextId s1 ..< nextId s1 + length subs] subs = map Some items"
      using Some unfolding created_def by (rule those_Some_map)
    have rel0: "list_all2 (\<lambda>it sub. \<exists>i. deliveryItemOf s1 (sched_id schedule) i sub = Some it) items subs"
      using m by (rule map2_upt_rel)
    have nz: "sub_quantity sub \<noteq> 0" if "sub \<in> set subs" for sub
      using that q unfolding subs activeInArea_def nonZeroQuantities_def
      by (auto simp: list_all_iff)
    have rel: "list_all2 (itemOfSubscription schedule) items subs"
      using rel0
    proof (rule list.rel_mono_strong)
      fix it sub
      assume "sub \<in> set subs" and "\<exists>i. deliveryItemOf s1 (sched_id schedule) i sub = Some it"
      then obtain i where "deliveryItemOf s1 (sched_id schedule) i sub = Some it"
        and "sub_quantity sub \<noteq> 0"
        using nz by blast
      then show "itemOfSubscription schedule it sub" by (rule deliveryItemOf_Some)
    qed
    have len: "items = [] \<longleftrightarrow> subs = []"
      using list_all2_lengthD[OF rel] by auto
    have all: "list_all (deliverable s) subs" using none Some by simp
    show ?thesis
    proof (cases "(items \<noteq> [] \<and> fault = ItemWriteFails) \<or> fault = ScheduleCommitFails")
      case True
      then have "r = Internal500" "s' = s" using run w Some by simp_all
      then show ?thesis using True len subs by auto
    next
      case False
      then have "r = Created201" and "schedules s' = schedules s @ [schedule]"
        and "deliveryItems s' = deliveryItems s @ items"
        using run w Some by (auto simp: s1_def)
      moreover have "sched_status schedule = SchedPending" "sched_areaId schedule = Some aid"
        by (simp_all add: schedule_def)
      ultimately show ?thesis using rel subs all False nf len by auto
    qed
  qed
qed


lemma createSchedule_valid:
  assumes "validScheduleRequest s user pid aid rid"
  shows "createSchedule s user (Some pid) (ValidDate d) (Some aid) (Some rid) notes fault
         = writeSchedule s pid aid rid d notes fault"
  using assms
  unfolding createSchedule_def validScheduleRequest_def managesArea_query list_ex_find
  by (auto split: option.splits)

lemma createSchedule_invalid:
  assumes "\<not> (\<exists>pid aid rid d. personnelId = Some pid \<and> areaId = Some aid \<and> routeId = Some rid
               \<and> date = ValidDate d \<and> validScheduleRequest s user pid aid rid)"
  shows "\<exists>e. e \<noteq> Created201 \<and> createSchedule s user personnelId date areaId routeId notes fault = (e, s)"
  using assms
  unfolding createSchedule_def validScheduleRequest_def managesArea_query list_ex_find
  by (auto split: option.splits dateParam.splits)

text \<open>
  C9. On a database whose subscriptions have the quantities the controllers write,
  createSchedule succeeds (201) exactly when the request names a deliverer, an area, a
  route and a valid date, the checks on them pass, every Active subscription of the area
  has its address and publication, and no write fails. It then adds one DeliverySchedule
  with status Pending for the area and, in the same transaction, exactly one DeliveryItem
  per Active subscription of the area, in order, each with status Pending, the
  subscription's address and publication, and the subscription's quantity. Every other
  answer, a failed write included, leaves the database unchanged: neither the schedule
  nor an item is persisted.
\<close>

theorem createSchedule_materializes:
  assumes run: "createSchedule s user personnelId date areaId routeId notes fault = (r, s')"
    and q: "nonZeroQuantities s"
  shows "(r = Created201 \<longleftrightarrow>
           (\<exists>pid aid rid d.
              personnelId = Some pid \<and> areaId = Some aid \<and> routeId = Some rid
              \<and> date = ValidDate d
              \<and> validScheduleRequest s user pid aid rid
              \<and> list_all (deliverable s) (activeInArea s aid)
              \<and> fault \<noteq> ScheduleWriteFails \<and> fault \<noteq> ScheduleCommitFails
              \<and> (fault = ItemWriteFails \<longrightarrow> activeInArea s aid = [])))
       \<and> (r = Created201 \<longrightarrow>
           (\<exists>aid schedule items.
              areaId = Some aid
              \<and> schedules s' = schedules s @ [schedule]
              \<and> sched_status schedule = SchedPending
              \<and> sched_areaId schedule = Some aid
              \<and> deliveryItems s' = deliveryItems s @ items
              \<and> list_all2 (itemOfSubscription schedule) items (activeInArea s aid)))
       \<and> (r \<noteq> Created201 \<longrightarrow> s' = s)"
proof (cases "\<exists>pid aid rid d. personnelId = Some pid \<and> areaId = Some aid \<and> routeId = Some rid
               \<and> date = ValidDate d \<and> validScheduleRequest s user pid aid rid")
  case False
  from createSchedule_invalid[OF False, of "notes" fault] run
  have "r \<noteq> Created201" "s' = s" by auto
  then show ?thesis using False by blast
next
  case True
  then obtain pid aid rid d where p: "personnelId = Some pid" "areaId = Some aid"
    "routeId = Some rid" "date = ValidDate d" and v: "validScheduleRequest s user pid aid rid"
    by blast
  have w: "writeSchedule s pid aid rid d notes fault = (r, s')"
    using run createSchedule_valid[OF v] p by simp
  note c = writeSchedule_cases[OF w q]
  have 1: "r = Created201 \<longleftrightarrow>
           (\<exists>pid aid rid d.
              personnelId = Some pid \<and> areaId = Some aid \<and> routeId = Some rid
              \<and> date = ValidDate d
              \<and> validScheduleRequest s user pid aid rid
              \<and> list_all (deliverable s) (activeInArea s aid)
              \<and> fault \<noteq> ScheduleWriteFails \<and> fault \<noteq> ScheduleCommitFails
              \<and> (fault = ItemWriteFails \<longrightarrow> activeInArea s aid = []))"
    using c p v by simp
  have 2: "r = Created201 \<longrightarrow>
           (\<exists>aid schedule items.
              areaId = Some aid
              \<and> schedules s' = schedules s @ [schedule]
              \<and> sched_status schedule = SchedPending
              \<and> sched_areaId schedule = Some aid
              \<and> deliveryItems s' = deliveryItems s @ items
              \<and> list_all2 (itemOfSubscription schedule) items (activeInArea s aid))"
    using c p by simp
  have 3: "r \<noteq> Created201 \<longrightarrow> s' = s" using c by simp
  from 1 2 3 show ?thesis by (intro conjI)
qed


lemmas schedule_defs = createSchedule_def writeSchedule_def findManagedArea_def
  activeSubscriptionsIn_def deliveryItemOf_def findAddress_def findPublication_def Let_def upt_rec

lemma deliveryStore_schedule:
  "map item_subscriptionId (deliveryItems (snd
     (createSchedule deliveryStore 1 (Some 5) (ValidDate 1718409600000) (Some 3) (Some 8) None
        NoScheduleFault))) = [30, 31, 32]"
  "map item_quantity (deliveryItems (snd
     (createSchedule deliveryStore 1 (Some 5) (ValidDate 1718409600000) (Some 3) (Some 8) None
        NoScheduleFault))) = [2, 1, 1]"
  "fst (createSchedule deliveryStore 1 (Some 5) (ValidDate 1718409600000) (Some 3) (Some 8) None
        ItemWriteFails) = Internal500"
  "fst (createSchedule deliveryStore 2 (Some 5) (ValidDate 1718409600000) (Some 3) (Some 8) None
        NoScheduleFault) = Forbidden403"
  by (simp_all add: schedule_defs delivery_defs example_defs)

lemma deliveryStore_valid:
  "nonZeroQuantities deliveryStore"
  "map sub_id (activeInArea deliveryStore 3) = [30, 31, 32]"
  "map sub_id (filter (\<lambda>sub. sub_id sub \<notin> set [30, 31, 32]) (subscriptions deliveryStore))
     = [33, 34]"
  "validScheduleRequest deliveryStore 1 5 3 8"
  "list_all (deliverable deliveryStore) (activeInArea deliveryStore 3)"
  by (simp_all add: nonZeroQuantities_def activeInArea_def validScheduleRequest_def
        managesArea_def deliverable_def findAddress_def findPublication_def
        delivery_defs example_defs)

theorem createSchedule_materializes_witness:
  "nonZeroQuantities deliveryStore
   \<and> map sub_id (activeInArea deliveryStore 3) = [30, 31, 32]
   \<and> fst (createSchedule deliveryStore 1 (Some 5) (ValidDate 1718409600000) (Some 3) (Some 8) None
            NoScheduleFault) = Created201
   \<and> (\<exists>schedule items.
        schedules (snd (createSchedule deliveryStore 1 (Some 5) (ValidDate 1718409600000)
                          (Some 3) (Some 8) None NoScheduleFault))
          = schedules deliveryStore @ [schedule]
        \<and> sched_status schedule = SchedPending
        \<and> deliveryItems (snd (createSchedule deliveryStore 1 (Some 5) (ValidDate 1718409600000)
                                 (Some 3) (Some 8) None NoScheduleFault))
            = deliveryItems deliveryStore @ items
        \<and> list_all2 (itemOfSubscription schedule) items (activeInArea deliveryStore 3))
   \<and> map item_subscriptionId (deliveryItems (snd
        (createSchedule deliveryStore 1 (Some 5) (ValidDate 1718409600000) (Some 3) (Some 8) None
           NoScheduleFault))) = [30, 31, 32]
   \<and> map item_quantity (deliveryItems (snd
        (createSchedule deliveryStore 1 (Some 5) (ValidDate 1718409600000) (Some 3) (Some 8) None
           NoScheduleFault))) = [2, 1, 1]
   \<and> createSchedule deliveryStore 1 (Some 5) (ValidDate 1718409600000) (Some 3) (Some 8) None
        ItemWriteFails = (Internal500, deliveryStore)
   \<and> createSchedule deliveryStore 2 (Some 5) (ValidDate 1718409600000) (Some 3) (Some 8) None
        NoScheduleFault = (Forbidden403, deliveryStore)"
proof -
  obtain r1 s1 where c1:
    "createSchedule deliveryStore 1 (Some 5) (ValidDate 1718409600000) (Some 3) (Some 8) None
       NoScheduleFault = (r1, s1)"
    by (cases "createSchedule deliveryStore 1 (Some 5) (ValidDate 1718409600000) (Some 3) (Some 8)
                 None NoScheduleFault")
  obtain r2 s2 where c2:
    "createSchedule deliveryStore 1 (Some 5) (ValidDate 1718409600000) (Some 3) (Some 8) None
       ItemWriteFails = (r2, s2)"
    by (cases "createSchedule deliveryStore 1 (Some 5) (ValidDate 1718409600000) (Some 3) (Some 8)
                 None ItemWriteFails")
  obtain r3 s3 where c3:
    "createSchedule deliveryStore 2 (Some 5) (ValidDate 1718409600000) (Some 3) (Some 8) None
       NoScheduleFault = (r3, s3)"
    by (cases "createSchedule deliveryStore 2 (Some 5) (ValidDate 1718409600000) (Some 3) (Some 8)
                 None NoScheduleFault")
  note v = deliveryStore_valid
  note t1 = createSchedule_materializes[OF c1 v(1)]
  have r1: "r1 = Created201" using t1 v(4,5) by simp
  with t1 obtain aid schedule items where
    "Some (3::nat) = Some aid" "schedules s1 = schedules deliveryStore @ [schedule]"
    "sched_status schedule = SchedPending"
    "deliveryItems s1 = deliveryItems deliveryStore @ items"
    "list_all2 (itemOfSubscription schedule) items (activeInArea deliveryStore aid)"
    by blast
  then have ex: "\<exists>schedule items. schedules s1 = schedules deliveryStore @ [schedule]
        \<and> sched_status schedule = SchedPending
        \<and> deliveryItems s1 = deliveryItems deliveryStore @ items
        \<and> list_all2 (itemOfSubscription schedule) items (activeInArea deliveryStore 3)"
    by auto
  have r2: "r2 = Internal500" and r3: "r3 = Forbidden403"
    using deliveryStore_schedule(3,4) c2 c3 by simp_all
  from createSchedule_materializes[OF c2 v(1)] r2 have s2: "s2 = deliveryStore" by simp
  from createSchedule_materializes[OF c3 v(1)] r3 have s3: "s3 = deliveryStore" by simp
  have q: "map item_subscriptionId (deliveryItems s1) = [30, 31, 32]"
    "map item_quantity (deliveryItems s1) = [2, 1, 1]"
    using deliveryStore_schedule(1,2) c1 by simp_all
  show ?thesis
    unfolding c1 c2 c3 fst_conv snd_conv
    using v(1,2) r1 ex q r2 s2 r3 s3 by (intro conjI) simp_all
qed

section \<open>processDelivererPayments\<close>

lemmas commission_defs = processDelivererPayments_def managedAreaIds_def activeDeliverers_def
  deliveriesQuery_def delivererPaymentOf_def findPublication_def jsDate_def makeDay_def
  daysFromCivil_def msPerDay_def Let_def upt_rec

text \<open>
  C5. Deliverers 5 and 6 are active in the manager's area and have no payment for June
  2024; the only delivered item (quantity 2, price 50, delivered on 15 June) belongs to a
  schedule of deliverer 5, whose rate is 10, so the stated amounts are 10 and 0.
  processDelivererPayments creates one Pending payment for each, but the query for the
  deliveries does not select by deliverer: both amounts are 0 when the condition on
  \<open>schedule.personnelId\<close> reaches the database, and both are 10 when Mongoose drops it.
\<close>

theorem processDelivererPayments_ignores_deliverer:
  "map dp_id (activeDeliverers deliveredStore (managedAreaIds deliveredStore 1)) = [5, 6]
   \<and> map (statedCommission deliveredStore 6 2024)
         (activeDeliverers deliveredStore (managedAreaIds deliveredStore 1)) = [Some 10, Some 0]
   \<and> fst (processDelivererPayments False deliveredStore 1 6 2024) = Created201
   \<and> map dpay_amount (delivererPayments (snd (processDelivererPayments False deliveredStore 1 6 2024)))
       = [0, 0]
   \<and> fst (processDelivererPayments True deliveredStore 1 6 2024) = Created201
   \<and> map dpay_amount (delivererPayments (snd (processDelivererPayments True deliveredStore 1 6 2024)))
       = [10, 10]"
  by (simp add: commission_defs statedCommission_def ownDeliveries_def delivery_defs example_defs)

section \<open>Subscription change requests\<close>

lemma find_replace:
  assumes "k x = i"
  shows "find (\<lambda>y. k y = i) (map (\<lambda>y. if k y = i then x else y) xs)
         = (if find (\<lambda>y. k y = i) xs = None then None else Some x)"
  using assms by (induction xs) auto

lemma findSubscription_id: "findSubscription s i = Some x \<Longrightarrow> sub_id x = i"
  by (auto simp: findSubscription_def dest: find_SomeD)

lemma findRequest_id: "findRequest s i = Some r \<Longrightarrow> req_id r = i"
  by (auto simp: findRequest_def dest: find_SomeD)

lemma populatedSubscription_find:
  "populatedSubscription s request = Some sub \<Longrightarrow> findSubscription s (sub_id sub) = Some sub"
  by (auto simp: populatedSubscription_def split: option.splits dest: findSubscription_id)

lemma findRequest_saveRequest:
  assumes "findRequest s i = Some request"
  shows "findRequest (saveRequest s1 request st user now comments) i
         = (if findRequest s1 i = None then None
            else Some (decidedRequest request st user now comments))"
proof -
  have i: "req_id request = i" using assms by (rule findRequest_id)
  have "req_id (decidedRequest request st user now comments) = i"
    by (simp add: decidedRequest_def i)
  from find_replace[of req_id, OF this, of "requests s1"]
  have f: "find (\<lambda>y. req_id y = i)
             (map (\<lambda>y. if req_id y = i then decidedRequest request st user now comments else y)
                (requests s1))
           = (if find (\<lambda>y. req_id y = i) (requests s1) = None then None
              else Some (decidedRequest request st user now comments))" .
  have sr: "saveRequest s1 request st user now comments
            = s1\<lparr>requests := map (\<lambda>y. if req_id y = i
                                        then decidedRequest request st user now comments else y)
                                 (requests s1)\<rparr>"
    by (simp add: saveRequest_def decidedRequest_def i)
  show ?thesis unfolding sr findRequest_def using f by simp
qed

subsection \<open>The area check\<close>

lemma resolveArea_wellFormed:
  assumes "wellFormedRequest s request"
  shows "resolveArea s user request =
           (if requestInManagersArea s user request
            then resolveArea s user request else Inl Forbidden403)
         \<and> (requestInManagersArea s user request \<longrightarrow> (\<exists>area. resolveArea s user request = Inr area))"
proof (cases "req_requestType request = New")
  case True
  then obtain p where p: "populatedPublication s request = Some p"
    using assms by (auto simp: wellFormedRequest_def)
  have eq: "requestInManagersArea s user request \<longleftrightarrow>
        find (\<lambda>a. (pub_id p \<in> set (area_publications a)
                    \<or> Some (area_id a) = (case populatedAddress s request of
                           None \<Rightarrow> None | Some a \<Rightarrow> addr_areaId a)
                    \<or> Some (area_id a) = (case populatedSubscription s request of
                                None \<Rightarrow> None | Some x \<Rightarrow> sub_areaId x))
                   \<and> user \<in> set (area_managers a)) (areas s) \<noteq> None"
    unfolding requestInManagersArea_def list_ex_find[symmetric] list_ex_iff
    by (auto simp: p split: option.splits)
  show ?thesis
    using eq True p by (auto simp: resolveArea_def Let_def split: option.splits)
next
  case False
  then have n: "populatedAddress s request = None" "populatedPublication s request = None"
    using assms by (auto simp: wellFormedRequest_def populatedAddress_def populatedPublication_def)
  have eq: "requestInManagersArea s user request \<longleftrightarrow>
        findManagedArea s (case populatedSubscription s request of
                                None \<Rightarrow> None | Some x \<Rightarrow> sub_areaId x) user \<noteq> None"
    unfolding requestInManagersArea_def findManagedArea_def list_ex_find[symmetric] list_ex_iff
    by (auto simp: n split: option.splits)
  show ?thesis
    using eq False by (auto simp: resolveArea_def Let_def split: option.splits)
qed

lemma resolveArea_forbidden:
  assumes "wellFormedRequest s request" and "\<not> requestInManagersArea s user request"
  shows "resolveArea s user request = Inl Forbidden403"
  using resolveArea_wellFormed[OF assms(1), of user] assms(2) by simp

lemma resolveArea_allowed:
  assumes "wellFormedRequest s request" and "requestInManagersArea s user request"
  shows "\<exists>area. resolveArea s user request = Inr area"
  using resolveArea_wellFormed[OF assms(1), of user] assms(2) by simp

subsection \<open>What an approval writes\<close>

text \<open>The database after the subscription \<open>sub\<close> was replaced by \<open>sub'\<close>.\<close>

lemma findSubscription_saveSubscription:
  assumes "findSubscription s (sub_id x) = Some y"
  shows "findSubscription (saveSubscription s x) (sub_id x) = Some x"
  using assms find_replace[of sub_id x "sub_id x" "subscriptions s"]
  by (simp add: findSubscription_def saveSubscription_def)

lemma approveNew_wellFormed:
  assumes "wellFormedRequest s request" and "req_requestType request = New"
    and "populatedSubscription s request = Some sub"
  shows "approveNew s request fault =
           (if fault = SubscriptionWriteFails then Inl Internal500
            else Inr (saveSubscription s (approvedSubscription request sub)))"
proof -
  obtain a where "populatedAddress s request = Some a"
    using assms(1,2) by (auto simp: wellFormedRequest_def)
  moreover have "findSubscription s (sub_id sub) = Some sub"
    using assms(3) by (rule populatedSubscription_find)
  ultimately show ?thesis
    using assms(2,3) by (simp add: approveNew_def approvedSubscription_def)
qed

lemma approveUpdate_wellFormed:
  assumes "wellFormedRequest s request" and "req_requestType request = Update"
    and "populatedSubscription s request = Some sub"
  shows "approveUpdate s request fault =
           (if fault = SubscriptionWriteFails then Inl Internal500
            else Inr (saveSubscription s (approvedSubscription request sub)))"
proof -
  have "populatedAddress s request = None"
    using assms(1,2) by (auto simp: wellFormedRequest_def populatedAddress_def)
  moreover have "findSubscription s (sub_id sub) = Some sub"
    using assms(3) by (rule populatedSubscription_find)
  ultimately show ?thesis
    using assms(2,3)
    by (auto simp: approveUpdate_def approvedSubscription_def Let_def split: option.splits)
qed

lemma approveCancel_wellFormed:
  assumes "req_requestType request = Cancel"
    and "populatedSubscription s request = Some sub"
  shows "approveCancel s request fault =
           (if fault = SubscriptionWriteFails then Inl Internal500
            else Inr (s\<lparr>subscriptions :=
                        map (\<lambda>x. if sub_id x = sub_id sub then approvedSubscription request x
                                  else x) (subscriptions s)\<rparr>))"
  using assms by (simp add: approveCancel_def approvedSubscription_def)

lemma approvedSubscription_id [simp]: "sub_id (approvedSubscription request sub) = sub_id sub"
  by (simp add: approvedSubscription_def split: requestType.splits option.splits)

lemma findSubscription_set: "findSubscription s i = Some x \<Longrightarrow> x \<in> set (subscriptions s)"
  by (auto simp: findSubscription_def dest: find_SomeD)

lemma approvalOf_save:
  assumes "findSubscription s (sub_id sub) = Some sub"
  shows "approvalOf s request sub (saveSubscription s (approvedSubscription request sub))"
proof -
  let ?s1 = "saveSubscription s (approvedSubscription request sub)"
  have "findSubscription ?s1 (sub_id (approvedSubscription request sub))
          = Some (approvedSubscription request sub)"
    by (rule findSubscription_saveSubscription) (simp add: assms)
  then have 1: "findSubscription ?s1 (sub_id sub) = Some (approvedSubscription request sub)"
    by simp
  have 2: "?s1 = s\<lparr>subscriptions := subscriptions ?s1\<rparr>"
    by (simp add: saveSubscription_def)
  have 3: "map sub_id (subscriptions ?s1) = map sub_id (subscriptions s)"
    by (simp add: saveSubscription_def comp_def)
  have "sub \<in> set (subscriptions s)" using assms by (rule findSubscription_set)
  then have 4: "set (subscriptions ?s1)
         \<subseteq> set (subscriptions s) \<union> approvedSubscription request ` set (subscriptions s)"
    by (auto simp: saveSubscription_def)
  from 1 2 3 4 show ?thesis unfolding approvalOf_def by (intro conjI)
qed

lemma approvalOf_cancel:
  assumes "findSubscription s (sub_id sub) = Some sub"
  shows "approvalOf s request sub
           (s\<lparr>subscriptions := map (\<lambda>x. if sub_id x = sub_id sub
                                         then approvedSubscription request x else x)
                                  (subscriptions s)\<rparr>)"
proof -
  let ?s1 = "s\<lparr>subscriptions := map (\<lambda>x. if sub_id x = sub_id sub
                                         then approvedSubscription request x else x)
                                  (subscriptions s)\<rparr>"
  have "find (\<lambda>x. sub_id x = sub_id sub)
          (map (\<lambda>y. if sub_id y = sub_id sub then approvedSubscription request y else y)
             (subscriptions s))
        = Some (if sub_id sub = sub_id sub then approvedSubscription request sub else sub)"
    by (rule find_map_update) (use assms in \<open>simp_all add: findSubscription_def\<close>)
  then have 1: "findSubscription ?s1 (sub_id sub) = Some (approvedSubscription request sub)"
    by (simp add: findSubscription_def)
  have 2: "?s1 = s\<lparr>subscriptions := subscriptions ?s1\<rparr>" by simp
  have 3: "map sub_id (subscriptions ?s1) = map sub_id (subscriptions s)"
    by (simp add: comp_def)
  have 4: "set (subscriptions ?s1)
         \<subseteq> set (subscriptions s) \<union> approvedSubscription request ` set (subscriptions s)"
    by auto
  from 1 2 3 4 show ?thesis unfolding approvalOf_def by (intro conjI)
qed

lemma applyDecision_wellFormed:
  assumes wf: "wellFormedRequest s request"
    and sub: "populatedSubscription s request = Some sub"
  shows "(status \<noteq> ''Approved'' \<longrightarrow> applyDecision s request status fault = Inr s)
       \<and> (status = ''Approved'' \<and> fault = SubscriptionWriteFails
            \<longrightarrow> applyDecision s request status fault = Inl Internal500)
       \<and> (status = ''Approved'' \<and> fault \<noteq> SubscriptionWriteFails
            \<longrightarrow> (\<exists>s1. applyDecision s request status fault = Inr s1 \<and> approvalOf s request sub s1))"
proof -
  have f: "findSubscription s (sub_id sub) = Some sub"
    using sub by (rule populatedSubscription_find)
  show ?thesis
  proof (cases "req_requestType request")
    case New
    then show ?thesis
      using approvalOf_save[OF f, of request]
      by (simp add: applyDecision_def approveNew_wellFormed[OF wf New sub])
  next
    case Update
    then show ?thesis
      using approvalOf_save[OF f, of request]
      by (simp add: applyDecision_def approveUpdate_wellFormed[OF wf Update sub])
  next
    case Cancel
    then show ?thesis
      using approvalOf_cancel[OF f, of request]
      by (simp add: applyDecision_def approveCancel_wellFormed[OF Cancel sub])
  qed
qed

subsection \<open>The four answers of handleSubscriptionRequest\<close>

lemma wellFormedRequests_find:
  assumes "wellFormedRequests s" and "findRequest s i = Some request"
  shows "wellFormedRequest s request"
  using assms by (auto simp: wellFormedRequests_def findRequest_def list_all_iff dest: find_SomeD)

lemma handle_missing:
  assumes "findRequest s i = None"
  shows "handleSubscriptionRequest s user i status comments now fault = (NotFound404, s)"
  using assms by (simp add: handleSubscriptionRequest_def)

lemma handle_forbidden:
  assumes "findRequest s i = Some request" and "wellFormedRequest s request"
    and "\<not> requestInManagersArea s user request"
  shows "handleSubscriptionRequest s user i status comments now fault = (Forbidden403, s)"
  using assms(1) resolveArea_forbidden[OF assms(2,3)]
  by (simp add: handleSubscriptionRequest_def)

lemma handle_decided:
  assumes req: "findRequest s i = Some request" and wf: "wellFormedRequest s request"
    and area: "requestInManagersArea s user request"
    and sub: "populatedSubscription s request = Some sub"
  shows "(parseRequestStatus status = None \<or> faultStrikes fault status
            \<longrightarrow> handleSubscriptionRequest s user i status comments now fault = (Internal500, s))
       \<and> (\<forall>st. parseRequestStatus status = Some st \<and> \<not> faultStrikes fault status
            \<longrightarrow> (\<exists>s1. (if status = ''Approved'' then approvalOf s request sub s1 else s1 = s)
                    \<and> handleSubscriptionRequest s user i status comments now fault
                        = (OK200, saveRequest s1 request st user now comments)))"
proof -
  obtain area where a: "resolveArea s user request = Inr area"
    using resolveArea_allowed[OF wf area] by blast
  note d = applyDecision_wellFormed[OF wf sub, of status fault]
  have h: "handleSubscriptionRequest s user i status comments now fault =
             (case applyDecision s request status fault of
                  Inl e \<Rightarrow> (e, s)
                | Inr s1 \<Rightarrow>
                    (case parseRequestStatus status of
                       None \<Rightarrow> (Internal500, s)
                     | Some st \<Rightarrow>
                         if fault = RequestWriteFails \<or> fault = CommitFails
                         then (Internal500, s)
                         else (OK200, saveRequest s1 request st user now comments)))"
    by (simp add: handleSubscriptionRequest_def req a)
  show ?thesis
  proof (cases "status = ''Approved''")
    case False
    then have ad: "applyDecision s request status fault = Inr s" using d by simp
    show ?thesis unfolding h ad using False
      by (auto simp: faultStrikes_def split: option.splits)
  next
    case True
    show ?thesis
    proof (cases "fault = SubscriptionWriteFails")
      case sw: True
      then have ad: "applyDecision s request status fault = Inl Internal500" using d True by simp
      show ?thesis unfolding h ad using True sw by (simp add: faultStrikes_def)
    next
      case False
      then obtain s1 where ad: "applyDecision s request status fault = Inr s1"
        and ap: "approvalOf s request sub s1" using d True by blast
      show ?thesis unfolding h ad using True False ap
        by (auto simp: faultStrikes_def split: option.splits)
    qed
  qed
qed

lemma handle_accepted:
  assumes req: "findRequest s i = Some request" and wf: "wellFormedRequest s request"
    and area: "requestInManagersArea s user request"
    and sub: "populatedSubscription s request = Some sub"
    and st: "parseRequestStatus status = Some st" and nf: "\<not> faultStrikes fault status"
  shows "\<exists>s'. handleSubscriptionRequest s user i status comments now fault = (OK200, s')
           \<and> findRequest s' i = Some (decidedRequest request st user now comments)
           \<and> findSubscription s' (sub_id sub)
               = Some (if status = ''Approved'' then approvedSubscription request sub else sub)
           \<and> map sub_id (subscriptions s') = map sub_id (subscriptions s)
           \<and> set (subscriptions s')
               \<subseteq> set (subscriptions s) \<union> approvedSubscription request ` set (subscriptions s)
           \<and> (status \<noteq> ''Approved'' \<longrightarrow> subscriptions s' = subscriptions s)
           \<and> map req_id (requests s') = map req_id (requests s)
           \<and> set (requests s')
               \<subseteq> set (requests s) \<union> {decidedRequest request st user now comments}
           \<and> s' = s\<lparr>subscriptions := subscriptions s', requests := requests s'\<rparr>"
proof -
  from handle_decided[OF req wf area sub, of status fault comments now] st nf
  obtain s1 where s1: "if status = ''Approved'' then approvalOf s request sub s1 else s1 = s"
    and run: "handleSubscriptionRequest s user i status comments now fault
                = (OK200, saveRequest s1 request st user now comments)"
    by blast
  let ?s' = "saveRequest s1 request st user now comments"
  have f: "findSubscription s (sub_id sub) = Some sub"
    using sub by (rule populatedSubscription_find)
  have rq: "requests s1 = requests s" and fr: "s1 = s\<lparr>subscriptions := subscriptions s1\<rparr>"
    and ids: "map sub_id (subscriptions s1) = map sub_id (subscriptions s)"
    and fs: "findSubscription s1 (sub_id sub)
               = Some (if status = ''Approved'' then approvedSubscription request sub else sub)"
    and ss: "set (subscriptions s1)
               \<subseteq> set (subscriptions s) \<union> approvedSubscription request ` set (subscriptions s)"
    and na: "status \<noteq> ''Approved'' \<longrightarrow> subscriptions s1 = subscriptions s"
  proof -
    show "requests s1 = requests s"
    proof (cases "status = ''Approved''")
      case True
      then have "s1 = s\<lparr>subscriptions := subscriptions s1\<rparr>" using s1 by (simp add: approvalOf_def)
      then have "requests s1 = requests (s\<lparr>subscriptions := subscriptions s1\<rparr>)" by simp
      then show ?thesis by simp
    next
      case False then show ?thesis using s1 by simp
    qed
    show "s1 = s\<lparr>subscriptions := subscriptions s1\<rparr>"
      using s1 by (cases "status = ''Approved''") (simp_all add: approvalOf_def)
    show "map sub_id (subscriptions s1) = map sub_id (subscriptions s)"
      using s1 by (cases "status = ''Approved''") (simp_all add: approvalOf_def)
    show "findSubscription s1 (sub_id sub)
               = Some (if status = ''Approved'' then approvedSubscription request sub else sub)"
      using s1 f by (cases "status = ''Approved''") (simp_all add: approvalOf_def)
    show "set (subscriptions s1)
               \<subseteq> set (subscriptions s) \<union> approvedSubscription request ` set (subscriptions s)"
      using s1 by (cases "status = ''Approved''") (auto simp: approvalOf_def)
    show "status \<noteq> ''Approved'' \<longrightarrow> subscriptions s1 = subscriptions s"
      using s1 by simp
  qed
  have "findRequest s1 i = Some request" using req by (simp add: findRequest_def rq)
  then have 1: "findRequest ?s' i = Some (decidedRequest request st user now comments)"
    using findRequest_saveRequest[OF req, of s1 st user now comments] by simp
  have sb: "subscriptions ?s' = subscriptions s1" by (simp add: saveRequest_def)
  have 2: "findSubscription ?s' (sub_id sub)
               = Some (if status = ''Approved'' then approvedSubscription request sub else sub)"
    using fs by (simp add: findSubscription_def sb)
  have 3: "map req_id (requests ?s') = map req_id (requests s)"
    by (simp add: saveRequest_def rq comp_def)
  have 4: "set (requests ?s')
               \<subseteq> set (requests s) \<union> {decidedRequest request st user now comments}"
    by (auto simp: saveRequest_def rq decidedRequest_def)
  have 5: "?s' = s\<lparr>subscriptions := subscriptions ?s', requests := requests ?s'\<rparr>"
    by (subst (1) fr) (simp add: saveRequest_def rq)
  have 6: "map sub_id (subscriptions ?s') = map sub_id (subscriptions s)"
    "set (subscriptions ?s')
       \<subseteq> set (subscriptions s) \<union> approvedSubscription request ` set (subscriptions s)"
    "status \<noteq> ''Approved'' \<longrightarrow> subscriptions ?s' = subscriptions s"
    using ids ss na unfolding sb by simp_all
  from run 1 2 6 3 4 5 show ?thesis by (intro exI[of _ ?s'] conjI)
qed

lemma wellFormedRequest_subscription:
  "wellFormedRequest s request \<Longrightarrow> \<exists>sub. populatedSubscription s request = Some sub"
  by (auto simp: wellFormedRequest_def)


lemma requestedStore_run:
  "createSubscription deliveryStore 10 newBody 1000 = (Created201, requestedStore)"
  "requestedStore = deliveryStore\<lparr>subscriptions := subscriptions deliveryStore @ [sub100],
       requests := [request101],
       activities := [\<lparr>act_userId = 10, act_activityType = NewSubscription\<rparr>],
       nextId := 102\<rparr>"
  by (simp_all add: requestedStore_def createSubscription_def newBody_def isInteger_def Let_def
        sub100_def request101_def delivery_defs example_defs)

lemma requestedStore_facts:
  "wellFormedRequests requestedStore"
  "findRequest requestedStore 999 = None"
  "findRequest requestedStore 101 = Some request101"
  "populatedSubscription requestedStore request101 = Some sub100"
  "requestInManagersArea requestedStore 1 request101"
  "\<not> requestInManagersArea requestedStore 2 request101"
  by (simp_all add: requestedStore_run(2) wellFormedRequests_def wellFormedRequest_def
        requestInManagersArea_def findRequest_def populatedSubscription_def
        populatedPublication_def populatedAddress_def findSubscription_def findPublication_def
        findAddress_def sub100_def request101_def delivery_defs example_defs)


subsection \<open>The controllers keep the requests well formed and the quantities set\<close>

lemma find_None_iff_key: "find (\<lambda>x. k x = i) xs = None \<longleftrightarrow> i \<notin> set (map k xs)"
  by (induction xs) auto

lemma findSubscription_ids:
  assumes "map sub_id (subscriptions s') = map sub_id (subscriptions s)"
  shows "findSubscription s' i = None \<longleftrightarrow> findSubscription s i = None"
  by (simp add: findSubscription_def find_None_iff_key assms)

lemma wellFormedRequest_cong:
  assumes "\<And>i. findSubscription s' i = None \<longleftrightarrow> findSubscription s i = None"
    and "\<And>i. findAddress s' i = None \<longleftrightarrow> findAddress s i = None"
    and "\<And>i. findPublication s' i = None \<longleftrightarrow> findPublication s i = None"
  shows "wellFormedRequest s' request = wellFormedRequest s request"
proof -
  have a: "(\<exists>y. findSubscription s' i = Some y) \<longleftrightarrow> (\<exists>y. findSubscription s i = Some y)" for i
    using assms(1)[of i] by (cases "findSubscription s' i"; cases "findSubscription s i") auto
  have b: "(\<exists>y. findAddress s' i = Some y) \<longleftrightarrow> (\<exists>y. findAddress s i = Some y)" for i
    using assms(2)[of i] by (cases "findAddress s' i"; cases "findAddress s i") auto
  have c: "(\<exists>y. findPublication s' i = Some y) \<longleftrightarrow> (\<exists>y. findPublication s i = Some y)" for i
    using assms(3)[of i] by (cases "findPublication s' i"; cases "findPublication s i") auto
  show ?thesis
    unfolding wellFormedRequest_def populatedSubscription_def populatedAddress_def
      populatedPublication_def
    by (simp add: a b c split: option.splits)
qed

lemma find_append_Some: "find P xs \<noteq> None \<Longrightarrow> find P (xs @ ys) \<noteq> None"
  by (induction xs) auto

lemma wellFormedRequest_more:
  assumes "wellFormedRequest s request"
    and "\<And>i. findSubscription s i \<noteq> None \<Longrightarrow> findSubscription s' i \<noteq> None"
    and "addresses s' = addresses s" and "publications s' = publications s"
  shows "wellFormedRequest s' request"
  using assms
  unfolding wellFormedRequest_def populatedSubscription_def populatedAddress_def
    populatedPublication_def findAddress_def findPublication_def
  by (auto split: option.splits if_splits)

lemma decidedRequest_wellFormed:
  "wellFormedRequest s (decidedRequest request st user now comments) = wellFormedRequest s request"
  by (simp add: wellFormedRequest_def decidedRequest_def populatedSubscription_def
        populatedAddress_def populatedPublication_def)

lemma approvedSubscription_quantity:
  "sub_quantity sub \<noteq> 0 \<Longrightarrow> sub_quantity (approvedSubscription request sub) \<noteq> 0"
  by (simp add: approvedSubscription_def split: requestType.splits option.splits)

lemma handleSubscriptionRequest_preserves:
  assumes run: "handleSubscriptionRequest s user i status comments now fault = (r, s')"
    and wf: "wellFormedRequests s"
  shows "wellFormedRequests s'" and "nonZeroQuantities s \<Longrightarrow> nonZeroQuantities s'"
proof -
  have "wellFormedRequests s' \<and> (nonZeroQuantities s \<longrightarrow> nonZeroQuantities s')"
  proof (cases "findRequest s i")
    case None
    from handle_missing[OF None, of user status comments now fault] run wf
    show ?thesis by simp
  next
    case (Some request)
    note req = this
    have wfr: "wellFormedRequest s request" using wf req by (rule wellFormedRequests_find)
    obtain sub where sub: "populatedSubscription s request = Some sub"
      using wellFormedRequest_subscription[OF wfr] by blast
    show ?thesis
    proof (cases "requestInManagersArea s user request
                  \<and> parseRequestStatus status \<noteq> None \<and> \<not> faultStrikes fault status")
      case False
      have "s' = s"
      proof (cases "requestInManagersArea s user request")
        case no: False
        from handle_forbidden[OF req wfr no, of status comments now fault] run
        show ?thesis by simp
      next
        case True
        with False handle_decided[OF req wfr True sub, of status fault comments now] run
        show ?thesis by auto
      qed
      then show ?thesis using wf by simp
    next
      case True
      then obtain st where st: "parseRequestStatus status = Some st" by auto
      from True have area: "requestInManagersArea s user request"
        and nf: "\<not> faultStrikes fault status" by simp_all
      from handle_accepted[OF req wfr area sub st nf, of comments now] run
      have ids: "map sub_id (subscriptions s') = map sub_id (subscriptions s)"
        and ss: "set (subscriptions s')
               \<subseteq> set (subscriptions s) \<union> approvedSubscription request ` set (subscriptions s)"
        and rs: "set (requests s')
               \<subseteq> set (requests s) \<union> {decidedRequest request st user now comments}"
        and fr: "s' = s\<lparr>subscriptions := subscriptions s', requests := requests s'\<rparr>"
        by auto
      have ad: "addresses s' = addresses s" and pu: "publications s' = publications s"
        by (subst fr, simp)+
      have cong: "wellFormedRequest s' x = wellFormedRequest s x" for x
        by (rule wellFormedRequest_cong)
           (simp_all add: findSubscription_ids[OF ids] findAddress_def findPublication_def ad pu)
      have 1: "wellFormedRequests s'"
        unfolding wellFormedRequests_def list_all_iff
      proof
        fix x assume "x \<in> set (requests s')"
        with rs have "x \<in> set (requests s) \<or> x = decidedRequest request st user now comments"
          by auto
        then have "wellFormedRequest s x"
          using wf wfr by (auto simp: wellFormedRequests_def list_all_iff decidedRequest_wellFormed)
        then show "wellFormedRequest s' x" by (simp add: cong)
      qed
      have 2: "nonZeroQuantities s \<longrightarrow> nonZeroQuantities s'"
        unfolding nonZeroQuantities_def list_all_iff
        using ss by (auto dest: approvedSubscription_quantity)
      from 1 2 show ?thesis ..
    qed
  qed
  then show "wellFormedRequests s'" and "nonZeroQuantities s \<Longrightarrow> nonZeroQuantities s'"
    by simp_all
qed

lemma createSubscription_Created:
  assumes "createSubscription s user body now = (Created201, s')"
  shows "\<exists>sub req.
           subscriptions s' = subscriptions s @ [sub]
           \<and> requests s' = requests s @ [req]
           \<and> areas s' = areas s \<and> addresses s' = addresses s
           \<and> publications s' = publications s \<and> users s' = users s
           \<and> bills s' = bills s \<and> billItems s' = billItems s
           \<and> sub_status sub = Active \<and> sub_userId sub = user
           \<and> sub_quantity sub = body_quantity body \<and> 0 < body_quantity body
           \<and> req_requestType req = New \<and> req_status req = ReqPending
           \<and> req_subscriptionId req = Some (sub_id sub)
           \<and> sub_id sub = nextId s \<and> req_id req = nextId s + 1
           \<and> findPublication s (sub_publicationId sub) \<noteq> None
           \<and> req_publicationId req = Some (sub_publicationId sub)
           \<and> findAddress s (sub_addressId sub) \<noteq> None
           \<and> req_newAddressId req = Some (sub_addressId sub)"
proof -
  from assms obtain publicationId addressId where
    b: "body_publicationId body = Some publicationId" "body_addressId body = Some addressId"
    by (auto simp: createSubscription_def split: option.splits)
  from assms b have q: "0 < body_quantity body"
    by (auto simp: createSubscription_def split: option.splits if_splits)
  from assms b q obtain publication where
    p: "find (\<lambda>p. pub_id p = publicationId \<and> pub_isActive p) (publications s) = Some publication"
    by (auto simp: createSubscription_def split: option.splits if_splits)
  from assms b q p obtain address where
    a: "find (\<lambda>a. addr_id a = addressId \<and> addr_userId a = user \<and> addr_isActive a) (addresses s)
        = Some address"
    by (auto simp: createSubscription_def split: option.splits if_splits)
  have fp: "findPublication s publicationId \<noteq> None"
    using p unfolding findPublication_def list_ex_find[symmetric] list_ex_iff
    by (auto dest: find_SomeD)
  have ai: "addr_id address = addressId"
    using a by (auto dest: find_SomeD)
  have "findAddress s addressId \<noteq> None"
    using a unfolding findAddress_def list_ex_find[symmetric] list_ex_iff
    by (auto dest: find_SomeD)
  then have fa: "findAddress s (addr_id address) \<noteq> None" by (simp add: ai)
  define sub where "sub = \<lparr>sub_id = nextId s, sub_userId = user, sub_publicationId = publicationId,
                         sub_quantity = body_quantity body, sub_startDate = now,
                         sub_endDate = None, sub_status = Active,
                         sub_addressId = addr_id address, sub_areaId = addr_areaId address\<rparr>"
  define req where "req = \<lparr>req_id = nextId s + 1, req_userId = user, req_requestType = New,
                         req_subscriptionId = Some (nextId s),
                         req_publicationId = Some publicationId,
                         req_newQuantity = Some (body_quantity body),
                         req_newAddressId = Some (addr_id address), req_status = ReqPending,
                         req_requestDate = now,
                         req_effectiveDate = now + 7 * 24 * 60 * 60 * 1000,
                         req_comments = None, req_processedBy = None,
                         req_processedDate = None\<rparr>"
  have s': "s' = s\<lparr>subscriptions := subscriptions s @ [sub],
                     requests := requests s @ [req],
                     activities := activities s @
                       [\<lparr>act_userId = user, act_activityType = NewSubscription\<rparr>],
                     nextId := nextId s + 2\<rparr>"
    using assms b q p a unfolding sub_def req_def
    by (auto simp: createSubscription_def Let_def split: if_splits)
  have "subscriptions s' = subscriptions s @ [sub]" "requests s' = requests s @ [req]"
    "areas s' = areas s" "addresses s' = addresses s" "publications s' = publications s"
    "users s' = users s" "bills s' = bills s" "billItems s' = billItems s"
    by (simp_all add: s')
  moreover have "sub_status sub = Active" "sub_userId sub = user"
    "sub_quantity sub = body_quantity body" "sub_id sub = nextId s"
    "findPublication s (sub_publicationId sub) \<noteq> None"
    "findAddress s (sub_addressId sub) \<noteq> None"
    using fp fa by (simp_all add: sub_def)
  moreover have "req_requestType req = New" "req_status req = ReqPending"
    "req_subscriptionId req = Some (sub_id sub)" "req_id req = nextId s + 1"
    "req_publicationId req = Some (sub_publicationId sub)"
    "req_newAddressId req = Some (sub_addressId sub)"
    by (simp_all add: req_def sub_def)
  ultimately show ?thesis using q by (intro exI[of _ sub] exI[of _ req] conjI)
qed

lemma createSubscription_not_Created:
  "createSubscription s user body now = (r, s') \<Longrightarrow> r \<noteq> Created201 \<Longrightarrow> s' = s"
  by (auto simp: createSubscription_def Let_def split: option.splits if_splits)

lemma find_append_last: "P y \<Longrightarrow> find P (xs @ [y]) \<noteq> None"
  by (induction xs) auto

lemma createSubscription_preserves:
  assumes run: "createSubscription s user body now = (r, s')"
    and wf: "wellFormedRequests s"
  shows "wellFormedRequests s'" and "nonZeroQuantities s \<Longrightarrow> nonZeroQuantities s'"
proof -
  have "wellFormedRequests s' \<and> (nonZeroQuantities s \<longrightarrow> nonZeroQuantities s')"
  proof (cases "r = Created201")
    case False
    with run have "s' = s" by (rule createSubscription_not_Created)
    then show ?thesis using wf by simp
  next
    case True
    with run have "createSubscription s user body now = (Created201, s')" by simp
    from createSubscription_Created[OF this] obtain sub req where
      ss: "subscriptions s' = subscriptions s @ [sub]"
      and rs: "requests s' = requests s @ [req]"
      and ad: "addresses s' = addresses s" and pu: "publications s' = publications s"
      and q: "sub_quantity sub = body_quantity body" "0 < body_quantity body"
      and n: "req_requestType req = New" and rsub: "req_subscriptionId req = Some (sub_id sub)"
      and fp: "findPublication s (sub_publicationId sub) \<noteq> None"
      and rp: "req_publicationId req = Some (sub_publicationId sub)"
      and fa: "findAddress s (sub_addressId sub) \<noteq> None"
      and ra: "req_newAddressId req = Some (sub_addressId sub)"
      by blast
    have more: "findSubscription s i \<noteq> None \<Longrightarrow> findSubscription s' i \<noteq> None" for i
      unfolding findSubscription_def ss by (rule find_append_Some)
    have old: "wellFormedRequest s' x" if "x \<in> set (requests s)" for x
    proof (rule wellFormedRequest_more[OF _ more ad pu])
      show "wellFormedRequest s x"
        using wf that by (simp add: wellFormedRequests_def list_all_iff)
    qed
    have "findSubscription s' (sub_id sub) \<noteq> None"
      unfolding findSubscription_def ss by (rule find_append_last) simp
    then have new: "wellFormedRequest s' req"
      using n rsub rp ra fp fa
      by (simp add: wellFormedRequest_def populatedSubscription_def populatedPublication_def
            populatedAddress_def findPublication_def findAddress_def ad pu)
    have 1: "wellFormedRequests s'"
      using old new by (auto simp: wellFormedRequests_def list_all_iff rs)
    have 2: "nonZeroQuantities s \<longrightarrow> nonZeroQuantities s'"
      using q by (auto simp: nonZeroQuantities_def ss)
    from 1 2 show ?thesis ..
  qed
  then show "wellFormedRequests s'" and "nonZeroQuantities s \<Longrightarrow> nonZeroQuantities s'"
    by simp_all
qed

lemma cancelSubscription_preserves:
  assumes run: "cancelSubscription s user i now = (r, s')"
    and wf: "wellFormedRequests s"
  shows "wellFormedRequests s'" and "nonZeroQuantities s \<Longrightarrow> nonZeroQuantities s'"
proof -
  have "wellFormedRequests s' \<and> subscriptions s' = subscriptions s"
  proof (cases "r = OK200")
    case False
    with run have "s' = s"
      by (auto simp: cancelSubscription_def Let_def split: option.splits if_splits)
    then show ?thesis using wf by simp
  next
    case True
    with run obtain subscription where
      f: "find (\<lambda>x. sub_id x = i \<and> sub_userId x = user) (subscriptions s) = Some subscription"
      by (auto simp: cancelSubscription_def split: option.splits)
    define req where "req = \<lparr>req_id = nextId s, req_userId = user, req_requestType = Cancel,
                   req_subscriptionId = Some (sub_id subscription), req_publicationId = None,
                   req_newQuantity = None, req_newAddressId = None, req_status = ReqPending,
                   req_requestDate = now,
                   req_effectiveDate = now + 7 * 24 * 60 * 60 * 1000,
                   req_comments = None, req_processedBy = None, req_processedDate = None\<rparr>"
    have s': "s' = s\<lparr>requests := requests s @ [req], nextId := nextId s + 1,
                    activities := activities s @
                        [\<lparr>act_userId = user, act_activityType = Cancellation\<rparr>]\<rparr>"
      using run f True unfolding req_def
      by (auto simp: cancelSubscription_def Let_def split: if_splits)
    have same: "wellFormedRequest s' x = wellFormedRequest s x" for x
      by (rule wellFormedRequest_cong)
         (simp_all add: s' findSubscription_def findAddress_def findPublication_def)
    have "findSubscription s (sub_id subscription) \<noteq> None"
      using f unfolding findSubscription_def list_ex_find[symmetric] list_ex_iff
      by (auto dest: find_SomeD)
    then have "wellFormedRequest s req"
      by (simp add: wellFormedRequest_def populatedSubscription_def req_def)
    moreover have "requests s' = requests s @ [req]" by (simp add: s')
    ultimately have "wellFormedRequests s'"
      using wf by (auto simp: wellFormedRequests_def list_all_iff same)
    then show ?thesis by (simp add: s')
  qed
  then show "wellFormedRequests s'" and "nonZeroQuantities s \<Longrightarrow> nonZeroQuantities s'"
    by (simp_all add: nonZeroQuantities_def)
qed

subsection \<open>The current status of a request is not read\<close>

lemma withRequestStatus_fields [simp]:
  "subscriptions (withRequestStatus s i cur) = subscriptions s"
  "addresses (withRequestStatus s i cur) = addresses s"
  "publications (withRequestStatus s i cur) = publications s"
  "areas (withRequestStatus s i cur) = areas s"
  by (simp_all add: withRequestStatus_def)

lemma findRequest_withRequestStatus:
  "findRequest (withRequestStatus s i cur) i
   = map_option (\<lambda>r. r\<lparr>req_status := cur\<rparr>) (findRequest s i)"
proof -
  have "find (\<lambda>r. req_id r = i) (map (\<lambda>r. if req_id r = i then r\<lparr>req_status := cur\<rparr> else r) xs)
        = map_option (\<lambda>r. r\<lparr>req_status := cur\<rparr>) (find (\<lambda>r. req_id r = i) xs)" for xs
    by (induction xs) auto
  then show ?thesis by (simp add: findRequest_def withRequestStatus_def)
qed

lemma find_withRequestStatus [simp]:
  "findSubscription (withRequestStatus s i cur) k = findSubscription s k"
  "findPublication (withRequestStatus s i cur) k = findPublication s k"
  "findAddress (withRequestStatus s i cur) k = findAddress s k"
  "findManagedArea (withRequestStatus s i cur) a user = findManagedArea s a user"
  by (simp_all add: findSubscription_def findPublication_def findAddress_def findManagedArea_def)

lemma populated_withRequestStatus [simp]:
  "populatedSubscription (withRequestStatus s i cur) (r\<lparr>req_status := cur\<rparr>)
     = populatedSubscription s r"
  "populatedPublication (withRequestStatus s i cur) (r\<lparr>req_status := cur\<rparr>)
     = populatedPublication s r"
  "populatedAddress (withRequestStatus s i cur) (r\<lparr>req_status := cur\<rparr>)
     = populatedAddress s r"
  by (simp_all add: populatedSubscription_def populatedPublication_def populatedAddress_def
        cong: option.case_cong)

lemma resolveArea_withRequestStatus [simp]:
  "resolveArea (withRequestStatus s i cur) user (r\<lparr>req_status := cur\<rparr>) = resolveArea s user r"
  by (simp add: resolveArea_def cong: option.case_cong if_cong)

lemma saveSubscription_withRequestStatus:
  "saveSubscription (withRequestStatus s i cur) x = withRequestStatus (saveSubscription s x) i cur"
  by (simp add: saveSubscription_def withRequestStatus_def)

lemma applyDecision_withRequestStatus:
  "applyDecision (withRequestStatus s i cur) (r\<lparr>req_status := cur\<rparr>) status fault
   = map_sum id (\<lambda>s1. withRequestStatus s1 i cur) (applyDecision s r status fault)"
proof -
  have n: "approveNew (withRequestStatus s i cur) (r\<lparr>req_status := cur\<rparr>) fault
        = map_sum id (\<lambda>s1. withRequestStatus s1 i cur) (approveNew s r fault)"
    by (simp add: approveNew_def saveSubscription_withRequestStatus split: option.splits)
  have u: "approveUpdate (withRequestStatus s i cur) (r\<lparr>req_status := cur\<rparr>) fault
        = map_sum id (\<lambda>s1. withRequestStatus s1 i cur) (approveUpdate s r fault)"
    by (simp add: approveUpdate_def saveSubscription_withRequestStatus Let_def
          split: option.splits)
  have c: "approveCancel (withRequestStatus s i cur) (r\<lparr>req_status := cur\<rparr>) fault
        = map_sum id (\<lambda>s1. withRequestStatus s1 i cur) (approveCancel s r fault)"
  proof (cases "populatedSubscription s r")
    case None
    then show ?thesis by (simp add: approveCancel_def)
  next
    case (Some p)
    then show ?thesis by (simp add: approveCancel_def) (simp add: withRequestStatus_def)
  qed
  show ?thesis
    by (simp add: applyDecision_def n u c split: requestType.splits)
qed

lemma saveRequest_withRequestStatus:
  assumes "req_id r = i"
  shows "saveRequest (withRequestStatus s1 i cur) (r\<lparr>req_status := cur\<rparr>) st user now comments
         = saveRequest s1 r st user now comments"
  using assms by (simp add: saveRequest_def withRequestStatus_def comp_def cong: if_cong)

lemma resolveArea_Inl:
  "resolveArea s user request = Inl e \<Longrightarrow> e \<noteq> OK200"
  unfolding resolveArea_def by (auto simp: Let_def split: option.splits if_splits)

lemma applyDecision_Inl:
  "applyDecision s request status fault = Inl e \<Longrightarrow> e \<noteq> OK200"
  unfolding applyDecision_def approveNew_def approveUpdate_def approveCancel_def
  by (auto simp: Let_def split: option.splits if_splits requestType.splits)

lemma handle_withRequestStatus:
  "fst (handleSubscriptionRequest (withRequestStatus s i cur) user i status comments now fault)
     = fst (handleSubscriptionRequest s user i status comments now fault)
   \<and> (fst (handleSubscriptionRequest s user i status comments now fault) = OK200 \<longrightarrow>
        snd (handleSubscriptionRequest (withRequestStatus s i cur) user i status comments now fault)
          = snd (handleSubscriptionRequest s user i status comments now fault))"
proof (cases "findRequest s i")
  case None
  then show ?thesis
    by (simp add: handleSubscriptionRequest_def findRequest_withRequestStatus)
next
  case (Some request)
  note f = Some
  have idr: "req_id request = i" using f by (rule findRequest_id)
  show ?thesis
  proof (cases "resolveArea s user request")
    case (Inl e)
    then show ?thesis using f
      by (auto simp: handleSubscriptionRequest_def findRequest_withRequestStatus
               dest: resolveArea_Inl)
  next
    case (Inr area)
    note a = Inr
    show ?thesis
    proof (cases "applyDecision s request status fault")
      case (Inl e)
      then show ?thesis using f a
        by (auto simp: handleSubscriptionRequest_def findRequest_withRequestStatus
                 applyDecision_withRequestStatus dest: applyDecision_Inl)
    next
      case (Inr s1)
      then show ?thesis using f a
        by (simp add: handleSubscriptionRequest_def findRequest_withRequestStatus
              applyDecision_withRequestStatus saveRequest_withRequestStatus[OF idr]
              split: option.splits)
    qed
  qed
qed

text \<open>
  C7 (as the code has it). handleSubscriptionRequest does not read the current status of
  the request: its answer is the same whatever that status is, and so is the database it
  leaves when the answer is 200. So a decision on a request in the manager's area, with
  a status of the enum and no failing write, is accepted also when the request is already
  Approved or Rejected: the request is overwritten with the new decision, and an Approved
  decision applies the change to the subscription again.
\<close>

theorem handleSubscriptionRequest_ignores_status:
  "fst (handleSubscriptionRequest (withRequestStatus s i current) user i status comments now fault)
     = fst (handleSubscriptionRequest s user i status comments now fault)
   \<and> (fst (handleSubscriptionRequest s user i status comments now fault) = OK200 \<longrightarrow>
        snd (handleSubscriptionRequest (withRequestStatus s i current) user i status comments
               now fault)
          = snd (handleSubscriptionRequest s user i status comments now fault))
   \<and> (wellFormedRequests s \<and> findRequest s i = Some request
        \<and> populatedSubscription s request = Some sub
        \<and> requestInManagersArea s user request
        \<and> parseRequestStatus status = Some st \<and> \<not> faultStrikes fault status \<longrightarrow>
        fst (handleSubscriptionRequest (withRequestStatus s i current) user i status comments
               now fault) = OK200
        \<and> findRequest (snd (handleSubscriptionRequest (withRequestStatus s i current) user i
                               status comments now fault)) i
            = Some (decidedRequest request st user now comments)
        \<and> findSubscription (snd (handleSubscriptionRequest (withRequestStatus s i current) user i
                                    status comments now fault)) (sub_id sub)
            = Some (if status = ''Approved'' then approvedSubscription request sub else sub))"
proof -
  note ind = handle_withRequestStatus[of s i current user status comments now fault]
  have acc: "fst (handleSubscriptionRequest (withRequestStatus s i current) user i status comments
               now fault) = OK200
        \<and> findRequest (snd (handleSubscriptionRequest (withRequestStatus s i current) user i
                               status comments now fault)) i
            = Some (decidedRequest request st user now comments)
        \<and> findSubscription (snd (handleSubscriptionRequest (withRequestStatus s i current) user i
                                    status comments now fault)) (sub_id sub)
            = Some (if status = ''Approved'' then approvedSubscription request sub else sub)"
    if wf: "wellFormedRequests s" and req: "findRequest s i = Some request"
      and sub: "populatedSubscription s request = Some sub"
      and area: "requestInManagersArea s user request"
      and st: "parseRequestStatus status = Some st" and nf: "\<not> faultStrikes fault status"
  proof -
    have wfr: "wellFormedRequest s request" using wf req by (rule wellFormedRequests_find)
    from handle_accepted[OF req wfr area sub st nf, of comments now]
    obtain s' where run: "handleSubscriptionRequest s user i status comments now fault = (OK200, s')"
      and 1: "findRequest s' i = Some (decidedRequest request st user now comments)"
      and 2: "findSubscription s' (sub_id sub)
               = Some (if status = ''Approved'' then approvedSubscription request sub else sub)"
      by blast
    from ind run
    have "fst (handleSubscriptionRequest (withRequestStatus s i current) user i status comments
               now fault) = OK200"
      and "snd (handleSubscriptionRequest (withRequestStatus s i current) user i status comments
               now fault) = s'"
      by simp_all
    then show ?thesis using 1 2 by simp
  qed
  from ind acc show ?thesis by blast
qed

lemmas request_defs = handleSubscriptionRequest_def findRequest_def resolveArea_def
  applyDecision_def approveNew_def saveSubscription_def saveRequest_def parseRequestStatus_def
  populatedSubscription_def populatedPublication_def populatedAddress_def
  findSubscription_def findPublication_def findAddress_def findManagedArea_def Let_def

lemma rejectedStore_run:
  "handleSubscriptionRequest requestedStore 1 101 ''Rejected'' None 2000 NoFault
     = (OK200, rejectedStore)"
  "rejectedStore = requestedStore\<lparr>requests := [decidedRequest request101 Rejected 1 2000 None]\<rparr>"
  by (simp_all add: rejectedStore_def request_defs requestedStore_run(2) decidedRequest_def
        sub100_def request101_def delivery_defs example_defs)

theorem handleSubscriptionRequest_ignores_status_witness:
  "wellFormedRequests requestedStore \<and> findRequest requestedStore 101 = Some request101
   \<and> populatedSubscription requestedStore request101 = Some sub100
   \<and> requestInManagersArea requestedStore 1 request101
   \<and> parseRequestStatus ''Rejected'' = Some Rejected \<and> \<not> faultStrikes NoFault ''Rejected''
   \<and> map req_status (requests (withRequestStatus requestedStore 101 Approved)) = [Approved]
   \<and> fst (handleSubscriptionRequest (withRequestStatus requestedStore 101 Approved) 1 101
             ''Rejected'' None 3000 NoFault) = OK200
   \<and> findRequest (snd (handleSubscriptionRequest (withRequestStatus requestedStore 101 Approved)
                          1 101 ''Rejected'' None 3000 NoFault)) 101
       = Some (decidedRequest request101 Rejected 1 3000 None)
   \<and> snd (handleSubscriptionRequest (withRequestStatus requestedStore 101 Approved) 1 101
             ''Rejected'' None 3000 NoFault)
       = snd (handleSubscriptionRequest requestedStore 1 101 ''Rejected'' None 3000 NoFault)"
proof -
  note f = requestedStore_facts
  have p: "parseRequestStatus ''Rejected'' = Some Rejected" by (simp add: parseRequestStatus_def)
  have nf: "\<not> faultStrikes NoFault ''Rejected''" by (simp add: faultStrikes_def)
  have w: "map req_status (requests (withRequestStatus requestedStore 101 Approved)) = [Approved]"
    by (simp add: withRequestStatus_def requestedStore_run(2) request101_def)
  note t = handleSubscriptionRequest_ignores_status
             [of requestedStore 101 Approved 1 "''Rejected''" None 3000 NoFault request101 sub100
                 Rejected]
  from t have t1: "fst (handleSubscriptionRequest (withRequestStatus requestedStore 101 Approved)
                         1 101 ''Rejected'' None 3000 NoFault)
                  = fst (handleSubscriptionRequest requestedStore 1 101 ''Rejected'' None 3000
                           NoFault)"
    by (rule conjunct1)
  from t have t2: "fst (handleSubscriptionRequest requestedStore 1 101 ''Rejected'' None 3000
                          NoFault) = OK200 \<longrightarrow>
        snd (handleSubscriptionRequest (withRequestStatus requestedStore 101 Approved) 1 101
               ''Rejected'' None 3000 NoFault)
          = snd (handleSubscriptionRequest requestedStore 1 101 ''Rejected'' None 3000 NoFault)"
    by (rule conjunct1[OF conjunct2])
  from t have t3: "wellFormedRequests requestedStore
        \<and> findRequest requestedStore 101 = Some request101
        \<and> populatedSubscription requestedStore request101 = Some sub100
        \<and> requestInManagersArea requestedStore 1 request101
        \<and> parseRequestStatus ''Rejected'' = Some Rejected
        \<and> \<not> faultStrikes NoFault ''Rejected'' \<longrightarrow>
        fst (handleSubscriptionRequest (withRequestStatus requestedStore 101 Approved) 1 101
               ''Rejected'' None 3000 NoFault) = OK200
        \<and> findRequest (snd (handleSubscriptionRequest
                               (withRequestStatus requestedStore 101 Approved) 1 101
                               ''Rejected'' None 3000 NoFault)) 101
            = Some (decidedRequest request101 Rejected 1 3000 None)
        \<and> findSubscription (snd (handleSubscriptionRequest
                                    (withRequestStatus requestedStore 101 Approved) 1 101
                                    ''Rejected'' None 3000 NoFault)) (sub_id sub100)
            = Some (if ''Rejected'' = ''Approved'' then approvedSubscription request101 sub100
                    else sub100)"
    by (rule conjunct2[OF conjunct2])
  have hyp: "wellFormedRequests requestedStore
        \<and> findRequest requestedStore 101 = Some request101
        \<and> populatedSubscription requestedStore request101 = Some sub100
        \<and> requestInManagersArea requestedStore 1 request101
        \<and> parseRequestStatus ''Rejected'' = Some Rejected
        \<and> \<not> faultStrikes NoFault ''Rejected''"
    using f(1,3,4,5) p nf by (intro conjI)
  note c = mp[OF t3 hyp]
  have acc: "fst (handleSubscriptionRequest (withRequestStatus requestedStore 101 Approved) 1 101
             ''Rejected'' None 3000 NoFault) = OK200"
    "findRequest (snd (handleSubscriptionRequest (withRequestStatus requestedStore 101 Approved)
                          1 101 ''Rejected'' None 3000 NoFault)) 101
       = Some (decidedRequest request101 Rejected 1 3000 None)"
    using c by blast+
  have "fst (handleSubscriptionRequest requestedStore 1 101 ''Rejected'' None 3000 NoFault) = OK200"
    using t1 acc(1) by (rule trans[OF sym])
  with t2
  have same: "snd (handleSubscriptionRequest (withRequestStatus requestedStore 101 Approved) 1 101
             ''Rejected'' None 3000 NoFault)
       = snd (handleSubscriptionRequest requestedStore 1 101 ''Rejected'' None 3000 NoFault)"
    by (rule mp)
  from f(1,3,4,5) p nf w acc same show ?thesis by (intro conjI)
qed

text \<open>
  The claim as the specification states it fails: the request 101, which the manager
  rejected, is approved by a later call; the call is accepted, the request becomes
  Approved and the subscription is written again.
\<close>

theorem handleSubscriptionRequest_redecide_counterexample:
  "map_option req_status (findRequest rejectedStore 101) = Some Rejected
   \<and> map_option sub_startDate (findSubscription rejectedStore 100) = Some 1000
   \<and> fst (handleSubscriptionRequest rejectedStore 1 101 ''Approved'' None 3000 NoFault) = OK200
   \<and> map_option req_status
        (findRequest (snd (handleSubscriptionRequest rejectedStore 1 101 ''Approved'' None 3000
                             NoFault)) 101) = Some Approved
   \<and> map_option req_processedDate
        (findRequest (snd (handleSubscriptionRequest rejectedStore 1 101 ''Approved'' None 3000
                             NoFault)) 101) = Some (Some 3000)
   \<and> map_option sub_startDate
        (findSubscription (snd (handleSubscriptionRequest rejectedStore 1 101 ''Approved'' None
                                  3000 NoFault)) 100) = Some 604801000"
  by (simp add: rejectedStore_run(2) request_defs requestedStore_run(2) decidedRequest_def
        sub100_def request101_def delivery_defs example_defs)

subsection \<open>A subscription is billed from the moment it is requested\<close>

lemma list_all2_right_ex:
  assumes "list_all2 R xs ys" and "y \<in> set ys"
  shows "\<exists>x \<in> set xs. R x y"
  using assms by (induction rule: list_all2_induct) auto

lemma generateBills_bills_active:
  assumes run: "generateBills s manager month year now rand = (Created201, s')"
    and sub: "sub \<in> set (activeInManagedAreas s manager)"
  shows "billsSubscription s s' sub"
proof -
  note facts = generateBills_run_facts[OF run, unfolded billedSubscriptions_spec]
  from facts have keys: "set (map billKey (newBills s s'))
                       = set (map subKey (activeInManagedAreas s manager))"
    by (elim conjE)
  from facts have per: "\<forall>b \<in> set (newBills s s').
            list_all2 (itemMatches s) (itemsOfBill (newBillItems s s') b)
               (filter (\<lambda>sub. subKey sub = billKey b) (activeInManagedAreas s manager))
            \<and> sum_list (map bi_totalPrice (itemsOfBill (newBillItems s s') b)) = bill_totalAmount b
            \<and> bill_totalAmount b = bill_outstandingAmount b"
    by (elim conjE)
  have "subKey sub \<in> set (map billKey (newBills s s'))"
    unfolding keys using sub by simp
  then obtain b where b: "b \<in> set (newBills s s')" and k: "billKey b = subKey sub" by auto
  have l: "list_all2 (itemMatches s) (itemsOfBill (newBillItems s s') b)
               (filter (\<lambda>sub. subKey sub = billKey b) (activeInManagedAreas s manager))"
    using bspec[OF per b] by (rule conjunct1)
  have m: "sub \<in> set (filter (\<lambda>sub. subKey sub = billKey b) (activeInManagedAreas s manager))"
    using sub k by simp
  from list_all2_right_ex[OF l m]
  obtain it where it: "it \<in> set (itemsOfBill (newBillItems s s') b)" "itemMatches s it sub"
    by (rule bexE)
  have "list_ex (\<lambda>it. itemMatches s it sub) (itemsOfBill (newBillItems s s') b)"
    unfolding list_ex_iff using it by (rule bexI[rotated])
  with k have "billKey b = subKey sub
                  \<and> list_ex (\<lambda>it. itemMatches s it sub) (itemsOfBill (newBillItems s s') b)"
    by (rule conjI)
  then show ?thesis
    unfolding billsSubscription_def list_ex_iff using b by (rule bexI)
qed

lemma handle_not_approved:
  assumes "handleSubscriptionRequest s manager i decision comments now fault = (r, s')"
    and "decision \<noteq> ''Approved''"
  shows "s' = s\<lparr>requests := requests s'\<rparr>"
  using assms
  by (auto simp: handleSubscriptionRequest_def applyDecision_def saveRequest_def
           split: option.splits sum.splits if_splits)

text \<open>
  C2. What the code does, for every accepted createSubscription: the subscription is
  stored Active at once, next to its Pending New request. A manager of its area has it
  among the Active subscriptions of their areas while the request is pending and after
  any decision other than Approved (a rejection), and every billing run of that manager
  that succeeds then bills it: a bill for its customer and area carries a line item for
  it.
\<close>

theorem createSubscription_active_and_billed:
  assumes created: "createSubscription s user body now = (Created201, s1)"
  shows "\<exists>sub req.
           subscriptions s1 = subscriptions s @ [sub] \<and> requests s1 = requests s @ [req]
           \<and> req_requestType req = New \<and> req_status req = ReqPending
           \<and> req_subscriptionId req = Some (sub_id sub)
           \<and> sub_status sub = Active
           \<and> (\<forall>manager month year t rand s3.
                 managesArea s1 manager (sub_areaId sub)
                 \<and> generateBills s1 manager month year t rand = (Created201, s3)
                 \<longrightarrow> billsSubscription s1 s3 sub)
           \<and> (\<forall>manager decision comments t' fault r s2 month year t rand s3.
                 managesArea s1 manager (sub_areaId sub)
                 \<and> decision \<noteq> ''Approved''
                 \<and> handleSubscriptionRequest s1 manager (req_id req) decision comments t' fault
                     = (r, s2)
                 \<and> generateBills s2 manager month year t rand = (Created201, s3)
                 \<longrightarrow> billsSubscription s2 s3 sub)"
proof -
  from createSubscription_Created[OF created] obtain sub req where
    ss: "subscriptions s1 = subscriptions s @ [sub]"
    and rs: "requests s1 = requests s @ [req]"
    and n: "req_requestType req = New" and p: "req_status req = ReqPending"
    and rsub: "req_subscriptionId req = Some (sub_id sub)"
    and act: "sub_status sub = Active"
    by blast
  have in1: "sub \<in> set (activeInManagedAreas s1 manager)"
    if "managesArea s1 manager (sub_areaId sub)" for manager
    using that act by (simp add: activeInManagedAreas_def ss)
  have a: "billsSubscription s1 s3 sub"
    if "managesArea s1 manager (sub_areaId sub)"
      and "generateBills s1 manager month year t rand = (Created201, s3)"
    for manager month year t rand s3
    using that(2) in1[OF that(1)] by (rule generateBills_bills_active)
  have b: "billsSubscription s2 s3 sub"
    if m: "managesArea s1 manager (sub_areaId sub)" and d: "decision \<noteq> ''Approved''"
      and h: "handleSubscriptionRequest s1 manager (req_id req) decision comments t' fault = (r, s2)"
      and g: "generateBills s2 manager month year t rand = (Created201, s3)"
    for manager decision comments t' fault r s2 month year t rand s3
  proof -
    have s2: "s2 = s1\<lparr>requests := requests s2\<rparr>" using h d by (rule handle_not_approved)
    have "activeInManagedAreas s2 manager = activeInManagedAreas s1 manager"
      by (subst s2) (simp add: activeInManagedAreas_def managesArea_def)
    then have "sub \<in> set (activeInManagedAreas s2 manager)" using in1[OF m] by simp
    with g show ?thesis by (rule generateBills_bills_active)
  qed
  have a': "\<forall>manager month year t rand s3.
                 managesArea s1 manager (sub_areaId sub)
                 \<and> generateBills s1 manager month year t rand = (Created201, s3)
                 \<longrightarrow> billsSubscription s1 s3 sub"
  proof (intro allI impI)
    fix manager month year t rand s3
    assume "managesArea s1 manager (sub_areaId sub)
                 \<and> generateBills s1 manager month year t rand = (Created201, s3)"
    then have "managesArea s1 manager (sub_areaId sub)"
      and "generateBills s1 manager month year t rand = (Created201, s3)" by simp_all
    then show "billsSubscription s1 s3 sub" by (rule a)
  qed
  have b': "\<forall>manager decision comments t' fault r s2 month year t rand s3.
                 managesArea s1 manager (sub_areaId sub)
                 \<and> decision \<noteq> ''Approved''
                 \<and> handleSubscriptionRequest s1 manager (req_id req) decision comments t' fault
                     = (r, s2)
                 \<and> generateBills s2 manager month year t rand = (Created201, s3)
                 \<longrightarrow> billsSubscription s2 s3 sub"
  proof (intro allI impI)
    fix manager decision comments t' fault r s2 month year t rand s3
    assume "managesArea s1 manager (sub_areaId sub)
                 \<and> decision \<noteq> ''Approved''
                 \<and> handleSubscriptionRequest s1 manager (req_id req) decision comments t' fault
                     = (r, s2)
                 \<and> generateBills s2 manager month year t rand = (Created201, s3)"
    then have "managesArea s1 manager (sub_areaId sub)" and "decision \<noteq> ''Approved''"
      and "handleSubscriptionRequest s1 manager (req_id req) decision comments t' fault = (r, s2)"
      and "generateBills s2 manager month year t rand = (Created201, s3)" by simp_all
    then show "billsSubscription s2 s3 sub" by (rule b)
  qed
  from ss rs n p rsub act a' b' show ?thesis
    by (intro exI[of _ sub] exI[of _ req] conjI)
qed

lemma requestedStore_bills:
  "fst (generateBills requestedStore 1 6 2024 3000 suffixes) = Created201"
  "map bill_totalAmount (newBills requestedStore
     (snd (generateBills requestedStore 1 6 2024 3000 suffixes))) = [220, 50]"
  "fst (generateBills rejectedStore 1 6 2024 3000 suffixes) = Created201"
  "map bill_totalAmount (newBills rejectedStore
     (snd (generateBills rejectedStore 1 6 2024 3000 suffixes))) = [220, 50]"
  by (simp_all add: model_defs newBills_def rejectedStore_run(2) requestedStore_run(2)
        sub100_def request101_def delivery_defs example_defs)

theorem createSubscription_active_and_billed_witness:
  "createSubscription deliveryStore 10 newBody 1000 = (Created201, requestedStore)
   \<and> subscriptions requestedStore = subscriptions deliveryStore @ [sub100]
   \<and> sub_status sub100 = Active
   \<and> requests requestedStore = [request101] \<and> req_status request101 = ReqPending
   \<and> managesArea requestedStore 1 (sub_areaId sub100)
   \<and> (\<exists>s3. generateBills requestedStore 1 6 2024 3000 suffixes = (Created201, s3)
          \<and> billsSubscription requestedStore s3 sub100
          \<and> map bill_totalAmount (newBills requestedStore s3) = [220, 50])
   \<and> handleSubscriptionRequest requestedStore 1 101 ''Rejected'' None 2000 NoFault
       = (OK200, rejectedStore)
   \<and> map_option req_status (findRequest rejectedStore 101) = Some Rejected
   \<and> (\<exists>s3. generateBills rejectedStore 1 6 2024 3000 suffixes = (Created201, s3)
          \<and> billsSubscription rejectedStore s3 sub100
          \<and> map bill_totalAmount (newBills rejectedStore s3) = [220, 50])"
proof -
  note run = requestedStore_run(1)
  have ss: "subscriptions requestedStore = subscriptions deliveryStore @ [sub100]"
    and rs: "requests requestedStore = [request101]"
    and r0: "requests deliveryStore = []"
    by (simp_all add: requestedStore_run(2) delivery_defs example_defs)
  have st: "sub_status sub100 = Active" "req_status request101 = ReqPending"
    "req_id request101 = 101"
    by (simp_all add: sub100_def request101_def)
  have m: "managesArea requestedStore 1 (sub_areaId sub100)"
    by (simp add: managesArea_def requestedStore_run(2) sub100_def delivery_defs example_defs)
  have rj: "map_option req_status (findRequest rejectedStore 101) = Some Rejected"
    by (simp add: rejectedStore_run(2) findRequest_def decidedRequest_def request101_def)
  obtain s3 where g1: "generateBills requestedStore 1 6 2024 3000 suffixes = (Created201, s3)"
    using requestedStore_bills(1)
    by (cases "generateBills requestedStore 1 6 2024 3000 suffixes") (simp del: One_nat_def)
  obtain s4 where g2: "generateBills rejectedStore 1 6 2024 3000 suffixes = (Created201, s4)"
    using requestedStore_bills(3)
    by (cases "generateBills rejectedStore 1 6 2024 3000 suffixes") (simp del: One_nat_def)
  have t1: "map bill_totalAmount (newBills requestedStore s3) = [220, 50]"
    using requestedStore_bills(2) unfolding g1 snd_conv .
  have t2: "map bill_totalAmount (newBills rejectedStore s4) = [220, 50]"
    using requestedStore_bills(4) unfolding g2 snd_conv .
  from createSubscription_active_and_billed[OF run] obtain sub req where
    a: "subscriptions requestedStore = subscriptions deliveryStore @ [sub]"
    and b: "requests requestedStore = requests deliveryStore @ [req]"
    and pending: "\<forall>manager month year t rand s3.
                 managesArea requestedStore manager (sub_areaId sub)
                 \<and> generateBills requestedStore manager month year t rand = (Created201, s3)
                 \<longrightarrow> billsSubscription requestedStore s3 sub"
    and decided: "\<forall>manager decision comments t' fault r s2 month year t rand s3.
                 managesArea requestedStore manager (sub_areaId sub)
                 \<and> decision \<noteq> ''Approved''
                 \<and> handleSubscriptionRequest requestedStore manager (req_id req) decision
                     comments t' fault = (r, s2)
                 \<and> generateBills s2 manager month year t rand = (Created201, s3)
                 \<longrightarrow> billsSubscription s2 s3 sub"
    by (elim exE conjE)
  have sub: "sub = sub100" using a ss by simp
  have req: "req = request101" using b rs r0 by simp
  have b1: "billsSubscription requestedStore s3 sub100"
    using pending[rule_format, of 1 6 2024 3000 suffixes s3] m g1
    by (simp add: sub del: One_nat_def)
  have ne: "''Rejected'' \<noteq> ''Approved''" by simp
  have b2: "billsSubscription rejectedStore s4 sub100"
    using decided[rule_format, of 1 "''Rejected''" None 2000 NoFault OK200 rejectedStore
                    6 2024 3000 suffixes s4]
      m ne rejectedStore_run(1) g2 by (simp add: sub req st(3) del: One_nat_def)
  have e1: "\<exists>s3. generateBills requestedStore 1 6 2024 3000 suffixes = (Created201, s3)
          \<and> billsSubscription requestedStore s3 sub100
          \<and> map bill_totalAmount (newBills requestedStore s3) = [220, 50]"
    using g1 b1 t1 by (intro exI[of _ s3] conjI)
  have e2: "\<exists>s3. generateBills rejectedStore 1 6 2024 3000 suffixes = (Created201, s3)
          \<and> billsSubscription rejectedStore s3 sub100
          \<and> map bill_totalAmount (newBills rejectedStore s3) = [220, 50]"
    using g2 b2 t2 by (intro exI[of _ s4] conjI)
  from run ss st(1) rs st(2) m e1 rejectedStore_run(1) rj e2 show ?thesis by (intro conjI)
qed

end
